(* ===== verification/P2P_Prelude.thy ===== *)
theory P2P_Prelude
  imports Main "HOL-Library.Word" "HOL-Library.AList" "HOL-Library.Multiset"
begin

text \<open>
  Shared vocabulary of the development: the machine integer types of the Rust sources,
  \<open>io::Error\<close> and \<open>io::Result\<close> as a sum type, big-endian byte strings, saturating and
  checked arithmetic, the concurrent hash map (\<open>DashMap\<close>, \<open>HashMap\<close>) as an association
  list with its interface locale, and the list facts (stable sorting, deduplication,
  swapping, first match) that the components use.
\<close>

unbundle bit_operations_syntax

section \<open>Collections of simplification rules\<close>

named_theorems io_simps
named_theorems be_simps
named_theorems dm_simps
named_theorems sat_simps

section \<open>Machine integers\<close>

type_synonym u8 = "8 word"
type_synonym u16 = "16 word"
type_synonym u32 = "32 word"
type_synonym u64 = "64 word"
type_synonym bytes = "8 word list"
type_synonym instant = nat

text \<open>
  \<open>usize\<close> is a natural number; a computation whose overflow the code checks goes through
  \<open>checked_add_usize\<close> with the 64-bit bound.
\<close>

definition usize_max :: nat where
  "usize_max = 18446744073709551615"

definition checked_add_usize :: "nat \<Rightarrow> nat \<Rightarrow> nat option" where
  "checked_add_usize a b = (if a + b \<le> usize_max then Some (a + b) else None)"

definition saturating_sub :: "'a::len word \<Rightarrow> 'a word \<Rightarrow> 'a word" where
  "saturating_sub a b = (if b \<le> a then a - b else 0)"

definition saturating_add :: "'a::len word \<Rightarrow> 'a word \<Rightarrow> 'a word" where
  "saturating_add a b = (if unat a + unat b < 2 ^ LENGTH('a) then a + b else - 1)"

lemma unat_saturating_sub [sat_simps]: "unat (saturating_sub a b) = unat a - unat b"
  by (auto simp: saturating_sub_def word_le_nat_alt unat_sub_if')

lemma unat_saturating_add [sat_simps]:
  "unat (saturating_add (a::'a::len word) b) = min (unat a + unat b) (2 ^ LENGTH('a) - 1)"
  by (auto simp: saturating_add_def unat_word_ariths unsigned_minus_1_eq_mask mask_eq_exp_minus_1)

lemma unat_bounds [simp]:
  "unat (b::u8) < 256" "unat (w::u16) < 65536" "unat (d::u32) < 4294967296"
  "unat (q::u64) < 18446744073709551616"
  using unsigned_less [of b, where ?'a = nat] unsigned_less [of w, where ?'a = nat]
    unsigned_less [of d, where ?'a = nat] unsigned_less [of q, where ?'a = nat] by simp_all

lemma saturating_sub_self [simp]: "saturating_sub a a = 0"
  by (simp add: saturating_sub_def)

lemma saturating_sub_zero [simp]: "saturating_sub a 0 = a"
  by (simp add: saturating_sub_def)

section \<open>I/O errors and results\<close>

datatype error_kind =
    NotFound | PermissionDenied | InvalidInput | InvalidData | TimedOut | WouldBlock
  | UnexpectedEof | BrokenPipe | AddrInUse | Unsupported | Interrupted | WriteZero
  | NetworkUnreachable | Other | OtherKind nat

text \<open>
  The message of an error is its constant part: what \<open>format!\<close> interpolates is left out.
\<close>

datatype io_error = IoError (err_kind: error_kind) (err_msg: string)

type_synonym 'a io_result = "io_error + 'a"

definition and_then :: "'a io_result \<Rightarrow> ('a \<Rightarrow> 'b io_result) \<Rightarrow> 'b io_result" where
  "and_then r f = (case r of Inl e \<Rightarrow> Inl e | Inr x \<Rightarrow> f x)"

definition ok_or :: "'a option \<Rightarrow> io_error \<Rightarrow> 'a io_result" where
  "ok_or x e = (case x of None \<Rightarrow> Inl e | Some y \<Rightarrow> Inr y)"

text \<open>\<open>iter().map(f).collect::<io::Result<Vec<_>>>()\<close>: the first error wins.\<close>

fun collect_results :: "('a \<Rightarrow> 'b io_result) \<Rightarrow> 'a list \<Rightarrow> 'b list io_result" where
  "collect_results f [] = Inr []"
| "collect_results f (x # xs) =
     and_then (f x) (\<lambda>y. and_then (collect_results f xs) (\<lambda>ys. Inr (y # ys)))"

lemma and_then_simps [simp, io_simps]:
  "and_then (Inl e) f = Inl e"
  "and_then (Inr x) f = f x"
  by (simp_all add: and_then_def)

lemma ok_or_simps [simp, io_simps]:
  "ok_or None e = Inl e"
  "ok_or (Some x) e = Inr x"
  by (simp_all add: ok_or_def)

lemma and_then_Inr_iff: "and_then r f = Inr y \<longleftrightarrow> (\<exists>x. r = Inr x \<and> f x = Inr y)"
  by (cases r) auto

lemma collect_results_inverse:
  assumes "\<And>x. x \<in> set xs \<Longrightarrow> f (g x) = Inr x"
  shows "collect_results f (map g xs) = Inr xs"
  using assms by (induction xs) auto

lemma collect_results_length: "collect_results f xs = Inr ys \<Longrightarrow> length ys = length xs"
  by (induction xs arbitrary: ys) (auto simp: and_then_Inr_iff)

section \<open>Big-endian byte strings\<close>

text \<open>\<open>to_be_bytes\<close> and \<open>from_be_bytes\<close> of the unsigned integer types.\<close>

fun be_bytes :: "nat \<Rightarrow> nat \<Rightarrow> bytes" where
  "be_bytes 0 n = []"
| "be_bytes (Suc k) n = be_bytes k (n div 256) @ [of_nat (n mod 256)]"

definition be_val :: "bytes \<Rightarrow> nat" where
  "be_val bs = foldl (\<lambda>a b. a * 256 + unat b) 0 bs"

definition u16_to_be :: "u16 \<Rightarrow> bytes" where "u16_to_be w = be_bytes 2 (unat w)"
definition u32_to_be :: "u32 \<Rightarrow> bytes" where "u32_to_be w = be_bytes 4 (unat w)"
definition u64_to_be :: "u64 \<Rightarrow> bytes" where "u64_to_be w = be_bytes 8 (unat w)"

definition u16_from_be :: "bytes \<Rightarrow> u16" where "u16_from_be bs = of_nat (be_val bs)"
definition u32_from_be :: "bytes \<Rightarrow> u32" where "u32_from_be bs = of_nat (be_val bs)"
definition u64_from_be :: "bytes \<Rightarrow> u64" where "u64_from_be bs = of_nat (be_val bs)"

lemma length_be_bytes [simp, be_simps]: "length (be_bytes k n) = k"
  by (induction k arbitrary: n) auto

lemma be_bytes_unroll [be_simps]:
  "be_bytes 2 n = [of_nat (n div 256 mod 256), of_nat (n mod 256)]"
  "be_bytes 4 n = [of_nat (n div 256 div 256 div 256 mod 256), of_nat (n div 256 div 256 mod 256),
     of_nat (n div 256 mod 256), of_nat (n mod 256)]"
  by (simp_all only: numeral_eq_Suc pred_numeral_simps BitM.simps be_bytes.simps append.simps)

lemma be_val_Nil [simp]: "be_val [] = 0"
  by (simp add: be_val_def)

lemma be_val_snoc [simp]: "be_val (bs @ [b]) = be_val bs * 256 + unat b"
  by (simp add: be_val_def)

lemma unat_of_nat_byte [simp]: "unat (of_nat (n mod 256) :: u8) = n mod 256"
  by (simp add: unat_of_nat)

lemma be_val_be_bytes [be_simps]: "be_val (be_bytes k n) = n mod 256 ^ k"
proof (induction k arbitrary: n)
  case (Suc k)
  have "be_val (be_bytes (Suc k) n) = (n div 256 mod 256 ^ k) * 256 + n mod 256"
    by (simp add: Suc)
  also have "\<dots> = n mod (256 * 256 ^ k)"
    by (metis add.commute mod_mult2_eq mult.commute)
  finally show ?case by simp
qed simp

lemma be_val_bound: "be_val bs < 256 ^ length bs"
proof (induction bs rule: rev_induct)
  case (snoc b bs)
  have "unat b < 256" by (rule unat_bounds)
  with snoc have "be_val bs * 256 + unat b < 256 ^ length bs * 256" by linarith
  then show ?case by (simp add: mult.commute)
qed simp

lemma be_bytes_be_val [be_simps]: "be_bytes (length bs) (be_val bs) = bs"
proof (induction bs rule: rev_induct)
  case (snoc b bs)
  have "unat b < 256" by simp
  with snoc show ?case by simp
qed simp

lemma length_to_be [simp, be_simps]:
  "length (u16_to_be w) = 2" "length (u32_to_be d) = 4" "length (u64_to_be q) = 8"
  by (simp_all add: u16_to_be_def u32_to_be_def u64_to_be_def)

lemma from_be_to_be [simp, be_simps]:
  "u16_from_be (u16_to_be w) = w"
  "u32_from_be (u32_to_be d) = d"
  "u64_from_be (u64_to_be q) = q"
proof -
  have "unat w < 256 ^ 2" "unat d < 256 ^ 4" "unat q < 256 ^ 8"
    by simp_all
  then show "u16_from_be (u16_to_be w) = w" "u32_from_be (u32_to_be d) = d"
    "u64_from_be (u64_to_be q) = q"
    by (simp_all add: u16_from_be_def u16_to_be_def u32_from_be_def u32_to_be_def
        u64_from_be_def u64_to_be_def be_val_be_bytes)
qed

lemma unat_from_be [be_simps]:
  "length bs = 2 \<Longrightarrow> unat (u16_from_be bs) = be_val bs"
  "length bs = 4 \<Longrightarrow> unat (u32_from_be bs) = be_val bs"
  using be_val_bound [of bs] by (auto simp: u16_from_be_def u32_from_be_def unat_of_nat)

lemma to_be_from_be [be_simps]:
  "length bs = 2 \<Longrightarrow> u16_to_be (u16_from_be bs) = bs"
  "length bs = 4 \<Longrightarrow> u32_to_be (u32_from_be bs) = bs"
  using be_bytes_be_val [of bs] by (simp_all add: u16_to_be_def u32_to_be_def unat_from_be)

section \<open>Hash maps\<close>

text \<open>
  \<open>DashMap\<close> and \<open>HashMap\<close> are association lists with distinct keys; the list order is the
  iteration order, which the code does not rely on. \<open>dm_insert\<close> returns nothing of the old
  value: where the code looks at it, the model reads it with \<open>dm_get\<close> first.
\<close>

type_synonym ('k, 'v) dashmap = "('k \<times> 'v) list"

definition dm_get :: "('k, 'v) dashmap \<Rightarrow> 'k \<Rightarrow> 'v option" where
  "dm_get m k = map_of m k"

definition dm_insert :: "'k \<Rightarrow> 'v \<Rightarrow> ('k, 'v) dashmap \<Rightarrow> ('k, 'v) dashmap" where
  "dm_insert k v m = AList.update k v m"

definition dm_remove :: "'k \<Rightarrow> ('k, 'v) dashmap \<Rightarrow> ('k, 'v) dashmap" where
  "dm_remove k m = AList.delete k m"

text \<open>\<open>remove_if(k, p)\<close>: the entry goes only when the predicate holds of its value.\<close>

definition dm_remove_if :: "'k \<Rightarrow> ('v \<Rightarrow> bool) \<Rightarrow> ('k, 'v) dashmap \<Rightarrow> ('k, 'v) dashmap" where
  "dm_remove_if k p m =
     (case dm_get m k of None \<Rightarrow> m | Some v \<Rightarrow> if p v then dm_remove k m else m)"

definition dm_contains :: "('k, 'v) dashmap \<Rightarrow> 'k \<Rightarrow> bool" where
  "dm_contains m k \<longleftrightarrow> dm_get m k \<noteq> None"

definition dm_wf :: "('k, 'v) dashmap \<Rightarrow> bool" where
  "dm_wf m \<longleftrightarrow> distinct (map fst m)"

text \<open>The interface the components rely on, and what follows from its laws alone.\<close>

locale concurrent_map =
  fixes get :: "'m \<Rightarrow> 'k \<Rightarrow> 'v option"
    and insert :: "'k \<Rightarrow> 'v \<Rightarrow> 'm \<Rightarrow> 'm"
    and remove :: "'k \<Rightarrow> 'm \<Rightarrow> 'm"
    and wf :: "'m \<Rightarrow> bool"
  assumes get_insert: "get (insert k v m) = (get m)(k \<mapsto> v)"
    and get_remove: "get (remove k m) = (get m)(k := None)"
    and wf_insert: "wf m \<Longrightarrow> wf (insert k v m)"
    and wf_remove: "wf m \<Longrightarrow> wf (remove k m)"
begin

lemma get_insert_same: "get (insert k v m) k = Some v"
  by (simp add: get_insert)

lemma get_insert_other: "k' \<noteq> k \<Longrightarrow> get (insert k v m) k' = get m k'"
  by (simp add: get_insert)

lemma get_remove_same: "get (remove k m) k = None"
  by (simp add: get_remove)

lemma get_remove_other: "k' \<noteq> k \<Longrightarrow> get (remove k m) k' = get m k'"
  by (simp add: get_remove)

lemma remove_insert_absent: "get m k = None \<Longrightarrow> get (remove k (insert k v m)) = get m"
  by (auto simp: get_insert get_remove)

end

interpretation dm: concurrent_map dm_get dm_insert dm_remove dm_wf
proof unfold_locales
  fix k v and m :: "('a, 'b) dashmap"
  show "dm_get (dm_insert k v m) = (dm_get m)(k \<mapsto> v)"
    by (rule ext) (simp add: dm_get_def dm_insert_def update_conv)
  show "dm_get (dm_remove k m) = (dm_get m)(k := None)"
    by (rule ext) (simp add: dm_get_def dm_remove_def delete_conv)
  show "dm_wf m \<Longrightarrow> dm_wf (dm_insert k v m)"
    by (simp add: dm_wf_def dm_insert_def distinct_update)
  show "dm_wf m \<Longrightarrow> dm_wf (dm_remove k m)"
    by (simp add: dm_wf_def dm_remove_def distinct_delete)
qed

lemmas dm_laws [simp, dm_simps] =
  dm.get_insert dm.get_remove dm.wf_insert dm.wf_remove

lemma dm_get_Nil [simp]: "dm_get [] k = None"
  by (simp add: dm_get_def)

lemma dm_wf_Nil [simp]: "dm_wf []"
  by (simp add: dm_wf_def)

lemma dm_get_remove_if [simp, dm_simps]:
  "dm_get (dm_remove_if k p m) =
     (\<lambda>k'. if k' = k \<and> (\<exists>v. dm_get m k = Some v \<and> p v) then None else dm_get m k')"
  by (rule ext) (auto simp: dm_remove_if_def split: option.splits)

lemma dm_wf_remove_if [simp, dm_simps]: "dm_wf m \<Longrightarrow> dm_wf (dm_remove_if k p m)"
  by (simp add: dm_remove_if_def split: option.splits)

lemma dm_get_Some_iff: "dm_wf m \<Longrightarrow> dm_get m k = Some v \<longleftrightarrow> (k, v) \<in> set m"
  by (simp add: dm_wf_def dm_get_def)

lemma dm_get_SomeD: "dm_get m k = Some v \<Longrightarrow> (k, v) \<in> set m"
  by (simp add: dm_get_def map_of_SomeD)

section \<open>Lists\<close>

text \<open>\<open>slice::swap\<close>; the code only calls it with both indices in range.\<close>

definition swap :: "nat \<Rightarrow> nat \<Rightarrow> 'a list \<Rightarrow> 'a list" where
  "swap i j xs = xs[i := xs ! j, j := xs ! i]"

lemma length_swap [simp]: "length (swap i j xs) = length xs"
  by (simp add: swap_def)

lemma mset_swap_indices [simp]:
  "i < length xs \<Longrightarrow> j < length xs \<Longrightarrow> mset (swap i j xs) = mset xs"
  unfolding swap_def by (rule mset_swap)

lemma set_swap_indices [simp]:
  "i < length xs \<Longrightarrow> j < length xs \<Longrightarrow> set (swap i j xs) = set xs"
  by (metis mset_swap_indices set_mset_mset)

text \<open>\<open>sort_unstable\<close> followed by \<open>dedup\<close>.\<close>

definition sort_dedup :: "'a::linorder list \<Rightarrow> 'a list" where
  "sort_dedup xs = remdups_adj (sort xs)"

lemma set_sort_dedup [simp]: "set (sort_dedup xs) = set xs"
  by (simp add: sort_dedup_def)

lemma sorted_sort_dedup [simp]: "sorted (sort_dedup xs)"
  by (simp add: sort_dedup_def sorted_remdups_adj)

lemma distinct_remdups_adj_sorted: "sorted xs \<Longrightarrow> distinct (remdups_adj xs)"
  by (induction xs rule: remdups_adj.induct) (auto simp: order_antisym)

lemma distinct_sort_dedup [simp]: "distinct (sort_dedup xs)"
  unfolding sort_dedup_def by (simp add: distinct_remdups_adj_sorted)

lemma find_Some_iff_set: "(\<exists>x. find P xs = Some x) \<longleftrightarrow> (\<exists>x \<in> set xs. P x)"
  by (induction xs) auto

lemma find_SomeD: "find P xs = Some x \<Longrightarrow> x \<in> set xs \<and> P x"
  by (auto simp: find_Some_iff)

lemma find_None_set: "find P xs = None \<longleftrightarrow> (\<forall>x \<in> set xs. \<not> P x)"
  by (auto simp: find_None_iff)

lemma set_map_filter: "set (List.map_filter f xs) = {y. \<exists>x \<in> set xs. f x = Some y}"
  by (induction xs) (auto simp: map_filter_simps split: option.splits)

end
