(* ===== verification/Net_Addr.thy ===== *)
theory Net_Addr
  imports P2P_Prelude
begin

text \<open>
  Socket addresses (the parts of \<open>std::net\<close> the sources use) and
  \<open>rustp2p-core/src/util/addr.rs\<close>: classification of IPv4 and IPv6 addresses, the scan of
  the local interfaces and the probing fallback. The interface list of the \<open>if-addrs\<close> crate,
  the sysfs link, name resolution and the sockets are arguments.
\<close>

section \<open>Addresses of the standard library\<close>

datatype ipv4_addr = Ipv4Addr u8 u8 u8 u8
datatype ipv6_addr = Ipv6Addr u16 u16 u16 u16 u16 u16 u16 u16
datatype ip_addr = IpV4 ipv4_addr | IpV6 ipv6_addr

text \<open>\<open>SocketAddrV6\<close> also carries flow information and a scope id.\<close>

datatype socket_addr = SockV4 ipv4_addr u16 | SockV6 ipv6_addr u16 u32 u32

fun v4_octets :: "ipv4_addr \<Rightarrow> bytes" where
  "v4_octets (Ipv4Addr a b c d) = [a, b, c, d]"

fun v6_segments :: "ipv6_addr \<Rightarrow> u16 list" where
  "v6_segments (Ipv6Addr a b c d e f g h) = [a, b, c, d, e, f, g, h]"

definition v6_octets :: "ipv6_addr \<Rightarrow> bytes" where
  "v6_octets ip = concat (map u16_to_be (v6_segments ip))"

definition v4_unspecified :: ipv4_addr where "v4_unspecified = Ipv4Addr 0 0 0 0"
definition v6_unspecified :: ipv6_addr where "v6_unspecified = Ipv6Addr 0 0 0 0 0 0 0 0"

definition v4_is_unspecified :: "ipv4_addr \<Rightarrow> bool" where
  "v4_is_unspecified ip \<longleftrightarrow> ip = v4_unspecified"

fun v4_is_loopback :: "ipv4_addr \<Rightarrow> bool" where
  "v4_is_loopback (Ipv4Addr a b c d) \<longleftrightarrow> a = 127"

fun v4_is_private :: "ipv4_addr \<Rightarrow> bool" where
  "v4_is_private (Ipv4Addr a b c d) \<longleftrightarrow>
     a = 10 \<or> (a = 172 \<and> 16 \<le> b \<and> b \<le> 31) \<or> (a = 192 \<and> b = 168)"

fun v4_is_link_local :: "ipv4_addr \<Rightarrow> bool" where
  "v4_is_link_local (Ipv4Addr a b c d) \<longleftrightarrow> a = 169 \<and> b = 254"

fun v4_is_multicast :: "ipv4_addr \<Rightarrow> bool" where
  "v4_is_multicast (Ipv4Addr a b c d) \<longleftrightarrow> 224 \<le> a \<and> a \<le> 239"

definition v4_is_broadcast :: "ipv4_addr \<Rightarrow> bool" where
  "v4_is_broadcast ip \<longleftrightarrow> ip = Ipv4Addr 255 255 255 255"

fun v4_is_documentation :: "ipv4_addr \<Rightarrow> bool" where
  "v4_is_documentation (Ipv4Addr a b c d) \<longleftrightarrow>
     (a = 192 \<and> b = 0 \<and> c = 2) \<or> (a = 198 \<and> b = 51 \<and> c = 100) \<or> (a = 203 \<and> b = 0 \<and> c = 113)"

definition v6_is_unspecified :: "ipv6_addr \<Rightarrow> bool" where
  "v6_is_unspecified ip \<longleftrightarrow> ip = v6_unspecified"

definition v6_is_loopback :: "ipv6_addr \<Rightarrow> bool" where
  "v6_is_loopback ip \<longleftrightarrow> ip = Ipv6Addr 0 0 0 0 0 0 0 1"

fun v6_is_multicast :: "ipv6_addr \<Rightarrow> bool" where
  "v6_is_multicast (Ipv6Addr a b c d e f g h) \<longleftrightarrow> a AND 0xff00 = 0xff00"

fun ip_is_unspecified :: "ip_addr \<Rightarrow> bool" where
  "ip_is_unspecified (IpV4 ip) = v4_is_unspecified ip"
| "ip_is_unspecified (IpV6 ip) = v6_is_unspecified ip"

fun ip_is_loopback :: "ip_addr \<Rightarrow> bool" where
  "ip_is_loopback (IpV4 ip) = v4_is_loopback ip"
| "ip_is_loopback (IpV6 ip) = v6_is_loopback ip"

fun sa_ip :: "socket_addr \<Rightarrow> ip_addr" where
  "sa_ip (SockV4 ip p) = IpV4 ip"
| "sa_ip (SockV6 ip p f s) = IpV6 ip"

fun sa_port :: "socket_addr \<Rightarrow> u16" where
  "sa_port (SockV4 ip p) = p"
| "sa_port (SockV6 ip p f s) = p"

fun sa_is_ipv4 :: "socket_addr \<Rightarrow> bool" where
  "sa_is_ipv4 (SockV4 ip p) = True"
| "sa_is_ipv4 (SockV6 ip p f s) = False"

text \<open>\<open>SocketAddr::new(ip, port)\<close>: an IPv6 address gets zero flow information and scope.\<close>

fun sa_new :: "ip_addr \<Rightarrow> u16 \<Rightarrow> socket_addr" where
  "sa_new (IpV4 ip) p = SockV4 ip p"
| "sa_new (IpV6 ip) p = SockV6 ip p 0 0"

abbreviation sa_is_unspecified :: "socket_addr \<Rightarrow> bool" where
  "sa_is_unspecified a \<equiv> ip_is_unspecified (sa_ip a)"

lemma sa_new_simps [simp]: "sa_ip (sa_new i p) = i" "sa_port (sa_new i p) = p"
  by (cases i; simp)+

text \<open>The derived orders: octets and segments compare lexicographically.\<close>

definition v4_num :: "ipv4_addr \<Rightarrow> nat" where
  "v4_num ip = be_val (v4_octets ip)"

definition v6_num :: "ipv6_addr \<Rightarrow> nat" where
  "v6_num ip = be_val (v6_octets ip)"

lemma v4_num_inject: "v4_num x = v4_num y \<longleftrightarrow> x = y"
proof
  assume "v4_num x = v4_num y"
  then have "be_bytes 4 (be_val (v4_octets x)) = be_bytes 4 (be_val (v4_octets y))"
    by (simp add: v4_num_def)
  moreover have "length (v4_octets x) = 4" "length (v4_octets y) = 4"
    by (cases x; simp) (cases y; simp)
  ultimately have "v4_octets x = v4_octets y"
    using be_bytes_be_val [of "v4_octets x"] be_bytes_be_val [of "v4_octets y"] by simp
  then show "x = y" by (cases x; cases y) simp
qed simp

lemma u16_to_be_inject [simp]: "u16_to_be x = u16_to_be y \<longleftrightarrow> x = y"
  by (metis from_be_to_be(1))

lemma v6_octets_inject: "v6_octets x = v6_octets y \<longleftrightarrow> x = y"
  by (cases x; cases y) (simp add: v6_octets_def)

lemma length_v6_octets [simp]: "length (v6_octets x) = 16"
  by (cases x) (simp add: v6_octets_def)

lemma v6_num_inject: "v6_num x = v6_num y \<longleftrightarrow> x = y"
proof
  assume "v6_num x = v6_num y"
  then have "be_bytes 16 (be_val (v6_octets x)) = be_bytes 16 (be_val (v6_octets y))"
    by (simp add: v6_num_def)
  then have "v6_octets x = v6_octets y"
    using be_bytes_be_val [of "v6_octets x"] be_bytes_be_val [of "v6_octets y"] by simp
  then show "x = y" by (simp add: v6_octets_inject)
qed simp

instantiation ipv4_addr :: linorder
begin

definition less_eq_ipv4_addr :: "ipv4_addr \<Rightarrow> ipv4_addr \<Rightarrow> bool" where
  "less_eq_ipv4_addr x y \<longleftrightarrow> v4_num x \<le> v4_num y"

definition less_ipv4_addr :: "ipv4_addr \<Rightarrow> ipv4_addr \<Rightarrow> bool" where
  "less_ipv4_addr x y \<longleftrightarrow> v4_num x < v4_num y"

instance
  by intro_classes (auto simp: less_eq_ipv4_addr_def less_ipv4_addr_def v4_num_inject [symmetric])

end

instantiation ipv6_addr :: linorder
begin

definition less_eq_ipv6_addr :: "ipv6_addr \<Rightarrow> ipv6_addr \<Rightarrow> bool" where
  "less_eq_ipv6_addr x y \<longleftrightarrow> v6_num x \<le> v6_num y"

definition less_ipv6_addr :: "ipv6_addr \<Rightarrow> ipv6_addr \<Rightarrow> bool" where
  "less_ipv6_addr x y \<longleftrightarrow> v6_num x < v6_num y"

instance
  by intro_classes (auto simp: less_eq_ipv6_addr_def less_ipv6_addr_def v6_num_inject [symmetric])

end

section \<open>Global address classification\<close>

fun is_ipv4_global :: "ipv4_addr \<Rightarrow> bool" where
  "is_ipv4_global (Ipv4Addr a b c d) \<longleftrightarrow>
    \<not> (a = 0
      \<or> v4_is_private (Ipv4Addr a b c d)
      \<or> (a = 100 \<and> b AND 0b11000000 = 0b01000000)
      \<or> v4_is_loopback (Ipv4Addr a b c d)
      \<or> v4_is_link_local (Ipv4Addr a b c d)
      \<or> (a = 192 \<and> b = 0 \<and> c = 0 \<and> d \<noteq> 9 \<and> d \<noteq> 10)
      \<or> v4_is_documentation (Ipv4Addr a b c d)
      \<or> (a = 198 \<and> b AND 0xfe = 18)
      \<or> (a AND 240 = 240 \<and> \<not> v4_is_broadcast (Ipv4Addr a b c d))
      \<or> v4_is_broadcast (Ipv4Addr a b c d))"

fun is_ipv6_global :: "ipv6_addr \<Rightarrow> bool" where
  "is_ipv6_global (Ipv6Addr a b c d e f g h) \<longleftrightarrow>
    \<not> (v6_is_unspecified (Ipv6Addr a b c d e f g h)
      \<or> v6_is_loopback (Ipv6Addr a b c d e f g h)
      \<or> (a = 0 \<and> b = 0 \<and> c = 0 \<and> d = 0 \<and> e = 0 \<and> f = 0xffff)
      \<or> (a = 0x64 \<and> b = 0xff9b \<and> c = 1)
      \<or> (a = 0x100 \<and> b = 0 \<and> c = 0 \<and> d = 0)
      \<or> ((a = 0x2001 \<and> b < 0x200)
         \<and> \<not> (v6_num (Ipv6Addr a b c d e f g h) = 0x20010001000000000000000000000001
              \<or> v6_num (Ipv6Addr a b c d e f g h) = 0x20010001000000000000000000000002
              \<or> (a = 0x2001 \<and> b = 3)
              \<or> (a = 0x2001 \<and> b = 4 \<and> c = 0x112)
              \<or> (a = 0x2001 \<and> 0x20 \<le> b \<and> b \<le> 0x2F)))
      \<or> (a = 0x2001 \<and> b = 0xdb8)
      \<or> a AND 0xfe00 = 0xfc00
      \<or> a AND 0xffc0 = 0xfe80)"

section \<open>Interface scan\<close>

datatype target_os = Linux | Android | MacOS | IOS | Windows | OtherOs

text \<open>One element of \<open>if_addrs::get_if_addrs()\<close>, with the answers of its flag methods.\<close>

record interface =
  if_name :: string
  if_index :: "u32 option"
  if_addr :: ip_addr
  if_oper_up :: bool
  if_p2p :: bool
  if_loopback :: bool

text \<open>\<open>socket::LocalInterface\<close>: a name on Linux and Android, an index elsewhere.\<close>

datatype local_interface = LocalName string | LocalIndex u32

record local_ips_t =
  ipv4s :: "ipv4_addr list"
  ipv6s :: "ipv6_addr list"

definition starts_with :: "string \<Rightarrow> string \<Rightarrow> bool" where
  "starts_with s p \<longleftrightarrow> take (length p) s = p"

fun str_contains :: "string \<Rightarrow> string \<Rightarrow> bool" where
  "str_contains [] p \<longleftrightarrow> p = []"
| "str_contains (c # cs) p \<longleftrightarrow> starts_with (c # cs) p \<or> str_contains cs p"

definition ascii_lower :: "string \<Rightarrow> string" where
  "ascii_lower s = map (\<lambda>c. let n = (of_char c :: nat) in
      if 65 \<le> n \<and> n \<le> 90 then char_of (n + 32) else c) s"

definition interface_matches :: "interface \<Rightarrow> local_interface \<Rightarrow> bool" where
  "interface_matches iface bound =
     (case bound of LocalName n \<Rightarrow> if_name iface = n | LocalIndex i \<Rightarrow> if_index iface = Some i)"

definition virtual_prefixes :: "string list" where
  "virtual_prefixes =
    [''tun'', ''tap'', ''vpn'', ''utun'', ''wg'', ''wireguard'', ''ppp'', ''tailscale'',
     ''zerotier'', ''zt'', ''gif'', ''stf'', ''ipsec'', ''teredo'', ''6to4'', ''isatap'',
     ''br'', ''bridge'', ''veth'', ''virbr'', ''docker'', ''vmnet'', ''vbox'', ''vethernet'',
     ''hyper-v'', ''wsl'', ''npcap'', ''dummy'', ''awdl'', ''llw'', ''p2p'']"

definition is_virtual_name :: "string \<Rightarrow> bool" where
  "is_virtual_name name =
     (let name = ascii_lower name in list_ex (\<lambda>p. starts_with name p) virtual_prefixes)"

text \<open>
  What the Windows adapter query reports: the result code of the second call of
  \<open>GetAdaptersAddresses\<close> (zero is success) and the linked list it writes. A null friendly
  name is \<open>None\<close>. The numbers are the constants of the Windows API.
\<close>

record win_adapter =
  wa_index :: u32
  wa_type :: u32
  wa_tunnel :: u32
  wa_friendly :: "string option"

definition IF_TYPE_ETHERNET_CSMACD :: u32 where "IF_TYPE_ETHERNET_CSMACD = 6"
definition IF_TYPE_IEEE80211 :: u32 where "IF_TYPE_IEEE80211 = 71"
definition TUNNEL_TYPE_NONE :: u32 where "TUNNEL_TYPE_NONE = 0"

definition virtual_markers :: "string list" where
  "virtual_markers =
    [''tap'', ''tun'', ''vpn'', ''virtual'', ''wireguard'', ''wintun'', ''openvpn'',
     ''tailscale'', ''zerotier'', ''docker'', ''hyper-v'', ''wsl'', ''npcap'', ''loopback'',
     ''bluetooth'', ''vethernet'']"

definition friendly_name_is_virtual :: "string option \<Rightarrow> bool" where
  "friendly_name_is_virtual friendly =
     (case friendly of
        None \<Rightarrow> False
      | Some n \<Rightarrow> (let name = ascii_lower n in list_ex (\<lambda>m. str_contains name m) virtual_markers))"

fun find_adapter :: "u32 \<Rightarrow> win_adapter list \<Rightarrow> bool" where
  "find_adapter index [] = False"
| "find_adapter index (adapter # cur) =
     (if wa_index adapter = index then
        (wa_type adapter = IF_TYPE_ETHERNET_CSMACD \<or> wa_type adapter = IF_TYPE_IEEE80211)
        \<and> wa_tunnel adapter = TUNNEL_TYPE_NONE
        \<and> \<not> friendly_name_is_virtual (wa_friendly adapter)
      else find_adapter index cur)"

definition windows_is_physical :: "u32 \<times> win_adapter list \<Rightarrow> interface \<Rightarrow> bool" where
  "windows_is_physical adapters iface =
     (case if_index iface of
        None \<Rightarrow> False
      | Some index \<Rightarrow> if fst adapters \<noteq> 0 then False else find_adapter index (snd adapters))"

text \<open>
  \<open>is_physical_interface\<close> per platform; \<open>read_link\<close> is the sysfs \<open>device\<close> link of an
  interface name and \<open>adapters\<close> the Windows adapter query.
\<close>

definition linux_is_physical :: "(string \<Rightarrow> string option) \<Rightarrow> interface \<Rightarrow> bool" where
  "linux_is_physical read_link iface =
     (let on_real_bus = (case read_link (if_name iface) of
          Some target \<Rightarrow> \<not> str_contains target ''devices/virtual'' | None \<Rightarrow> False)
      in on_real_bus
         \<or> starts_with (if_name iface) ''eth'' \<or> starts_with (if_name iface) ''en''
         \<or> starts_with (if_name iface) ''wlan'' \<or> starts_with (if_name iface) ''wifi'')"

definition is_physical_interface ::
  "target_os \<Rightarrow> (string \<Rightarrow> string option) \<Rightarrow> u32 \<times> win_adapter list \<Rightarrow> interface \<Rightarrow> bool" where
  "is_physical_interface os read_link adapters iface =
     (if os = Linux \<or> os = Android then linux_is_physical read_link iface
      else if os = MacOS \<or> os = IOS then starts_with (if_name iface) ''en''
      else if os = Windows then windows_is_physical adapters iface
      else \<not> is_virtual_name (if_name iface))"

definition v4_usable :: "ipv4_addr \<Rightarrow> bool" where
  "v4_usable ip \<longleftrightarrow> \<not> v4_is_unspecified ip \<and> \<not> v4_is_loopback ip
      \<and> \<not> v4_is_multicast ip \<and> \<not> v4_is_broadcast ip"

text \<open>The loop body of \<open>local_ips\<close>: \<open>physical\<close> is the platform predicate.\<close>

fun local_ips_loop ::
  "(interface \<Rightarrow> bool) \<Rightarrow> local_interface option \<Rightarrow> interface list
    \<Rightarrow> ipv4_addr list \<times> ipv6_addr list \<Rightarrow> ipv4_addr list \<times> ipv6_addr list" where
  "local_ips_loop physical bound [] acc = acc"
| "local_ips_loop physical bound (iface # ifaces) (v4s, v6s) =
     (if (case bound of
            Some b \<Rightarrow> \<not> interface_matches iface b
          | None \<Rightarrow> \<not> physical iface \<or> \<not> if_oper_up iface \<or> if_p2p iface)
      then local_ips_loop physical bound ifaces (v4s, v6s)
      else if if_loopback iface then local_ips_loop physical bound ifaces (v4s, v6s)
      else (case if_addr iface of
          IpV4 ip \<Rightarrow> local_ips_loop physical bound ifaces
                       (if v4_usable ip then v4s @ [ip] else v4s, v6s)
        | IpV6 ip \<Rightarrow> local_ips_loop physical bound ifaces
                       (v4s, if is_ipv6_global ip then v6s @ [ip] else v6s)))"

definition local_ips ::
  "(interface \<Rightarrow> bool) \<Rightarrow> interface list io_result \<Rightarrow> local_interface option \<Rightarrow> local_ips_t" where
  "local_ips physical get_if_addrs bound =
     (case get_if_addrs of
        Inl e \<Rightarrow> \<lparr>ipv4s = [], ipv6s = []\<rparr>
      | Inr ifaces \<Rightarrow>
          (let (v4s, v6s) = local_ips_loop physical bound ifaces ([], [])
           in \<lparr>ipv4s = sort_dedup v4s, ipv6s = sort_dedup v6s\<rparr>))"

definition local_ipv4s :: "(interface \<Rightarrow> bool) \<Rightarrow> interface list io_result \<Rightarrow> ipv4_addr list" where
  "local_ipv4s physical get_if_addrs =
     (case get_if_addrs of
        Inl e \<Rightarrow> []
      | Inr ifaces \<Rightarrow>
         sort_dedup (filter v4_usable (List.map_filter
           (\<lambda>iface. case if_addr iface of IpV4 ip \<Rightarrow> Some ip | IpV6 _ \<Rightarrow> None)
           (filter (\<lambda>iface. if_oper_up iface \<and> \<not> if_loopback iface \<and> \<not> if_p2p iface
               \<and> physical iface) ifaces))))"

section \<open>Probing fallback\<close>

text \<open>
  What \<open>resolve_source_ip\<close> asks of the system: name resolution, binding a fresh socket,
  whether a connect to an address succeeds, and the local address it then reports.
\<close>

record probe_env =
  pe_resolve :: "string \<Rightarrow> socket_addr list io_result"
  pe_bind :: "unit io_result"
  pe_connect :: "socket_addr \<Rightarrow> bool"
  pe_local_addr :: "socket_addr \<Rightarrow> socket_addr io_result"

fun resolve_source_ip :: "probe_env \<Rightarrow> string list \<Rightarrow> ip_addr io_result" where
  "resolve_source_ip env [] =
     Inl (IoError NetworkUnreachable ''no reachable route to resolve the local source address'')"
| "resolve_source_ip env (dest # probes) =
     and_then (pe_resolve env dest) (\<lambda>addrs.
       case addrs of
         [] \<Rightarrow> resolve_source_ip env probes
       | addr # _ \<Rightarrow>
           and_then (pe_bind env) (\<lambda>_.
             if \<not> pe_connect env addr then resolve_source_ip env probes
             else (case pe_local_addr env addr of
                 Inr a \<Rightarrow> if \<not> ip_is_unspecified (sa_ip a) \<and> \<not> ip_is_loopback (sa_ip a)
                          then Inr (sa_ip a) else resolve_source_ip env probes
               | Inl _ \<Rightarrow> resolve_source_ip env probes)))"

definition local_ipv4_probes :: "string list" where
  "local_ipv4_probes = [''8.8.8.8:53'', ''1.1.1.1:53'', ''223.5.5.5:53'', ''114.114.114.114:53'']"

definition local_ipv6_probes :: "string list" where
  "local_ipv6_probes =
     [''[2001:4860:4860::8888]:53'', ''[2606:4700:4700::1111]:53'', ''[2400:3200::1]:53'']"

definition local_ipv4 :: "probe_env \<Rightarrow> string list \<Rightarrow> ipv4_addr option" where
  "local_ipv4 env stun_servers =
     (case resolve_source_ip env (stun_servers @ local_ipv4_probes) of
        Inr (IpV4 ip) \<Rightarrow> Some ip | Inr (IpV6 _) \<Rightarrow> None | Inl _ \<Rightarrow> None)"

definition local_ipv6 :: "probe_env \<Rightarrow> string list \<Rightarrow> ipv6_addr option" where
  "local_ipv6 env stun_servers =
     (case resolve_source_ip env (stun_servers @ local_ipv6_probes) of
        Inr (IpV6 ip) \<Rightarrow> if is_ipv6_global ip then Some ip else None
      | Inr (IpV4 _) \<Rightarrow> None
      | Inl _ \<Rightarrow> None)"

section \<open>Correctness of the classification\<close>

text \<open>The reserved blocks as networks with a prefix length.\<close>

definition in_cidr :: "ipv4_addr \<Rightarrow> nat \<Rightarrow> ipv4_addr \<Rightarrow> bool" where
  "in_cidr net len ip \<longleftrightarrow> v4_num ip div 2 ^ (32 - len) = v4_num net div 2 ^ (32 - len)"

definition reserved_v4_blocks :: "(ipv4_addr \<times> nat) list" where
  "reserved_v4_blocks =
    [(Ipv4Addr 0 0 0 0, 8), (Ipv4Addr 10 0 0 0, 8), (Ipv4Addr 100 64 0 0, 10),
     (Ipv4Addr 127 0 0 0, 8), (Ipv4Addr 169 254 0 0, 16), (Ipv4Addr 172 16 0 0, 12),
     (Ipv4Addr 192 0 0 0, 24), (Ipv4Addr 192 0 2 0, 24), (Ipv4Addr 192 168 0 0, 16),
     (Ipv4Addr 198 18 0 0, 15), (Ipv4Addr 198 51 100 0, 24), (Ipv4Addr 203 0 113 0, 24),
     (Ipv4Addr 240 0 0 0, 4)]"

lemma v4_num_Ipv4Addr:
  "v4_num (Ipv4Addr a b c d) = ((unat a * 256 + unat b) * 256 + unat c) * 256 + unat d"
  by (simp add: v4_num_def be_val_def)

lemma unat_and_not_mask: "unat (w AND NOT (mask n)) = unat w div 2 ^ n * 2 ^ n"
proof -
  have "unat w div 2 ^ n * 2 ^ n < 2 ^ LENGTH('a)"
    using unsigned_less [of w, where ?'a = nat] by (metis div_times_less_eq_dividend le_less_trans)
  moreover have "w AND NOT (mask n) = push_bit n (drop_bit n w)"
    by (auto simp: bit_eq_iff bit_simps)
  moreover have "unat (push_bit n (drop_bit n w))
      = take_bit LENGTH('a) (push_bit n (drop_bit n (unat w)))"
    by (simp add: unsigned_push_bit_eq unsigned_drop_bit_eq take_bit_nat_eq_self unsigned_less)
  ultimately show ?thesis
    by (simp only: push_bit_eq_mult drop_bit_eq_div take_bit_eq_mod mod_less)
qed

lemma octet_masks:
  "(b AND 0b11000000 = 0b01000000) \<longleftrightarrow> unat (b::u8) div 64 = 1"
  "(b AND 0xfe = 18) \<longleftrightarrow> unat (b::u8) div 2 = 9"
  "(b AND 240 = 240) \<longleftrightarrow> unat (b::u8) div 16 = 15"
proof -
  have m: "(192::u8) = NOT (mask 6)" "(254::u8) = NOT (mask 1)" "(240::u8) = NOT (mask 4)"
    by (simp_all add: mask_eq_exp_minus_1 not_eq_complement)
  have "unat (b AND 192) = unat b div 2 ^ 6 * 2 ^ 6" "unat (b AND 254) = unat b div 2 ^ 1 * 2 ^ 1"
    "unat (b AND 240) = unat b div 2 ^ 4 * 2 ^ 4"
    unfolding m by (rule unat_and_not_mask)+
  then show "(b AND 0b11000000 = 0b01000000) \<longleftrightarrow> unat b div 64 = 1"
    "(b AND 0xfe = 18) \<longleftrightarrow> unat b div 2 = 9" "(b AND 240 = 240) \<longleftrightarrow> unat b div 16 = 15"
    by (simp_all add: word_unat_eq_iff)
qed

lemma div_byte: "y < 256 \<Longrightarrow> (x * 256 + y) div 256 = (x::nat)"
  by simp

lemma v4_num_div:
  "v4_num (Ipv4Addr a b c d) div 256 = (unat a * 256 + unat b) * 256 + unat c"
  "v4_num (Ipv4Addr a b c d) div 65536 = unat a * 256 + unat b"
  "v4_num (Ipv4Addr a b c d) div 16777216 = unat a"
proof -
  show 1: "v4_num (Ipv4Addr a b c d) div 256 = (unat a * 256 + unat b) * 256 + unat c"
    by (simp only: v4_num_Ipv4Addr div_byte unat_bounds)
  show 2: "v4_num (Ipv4Addr a b c d) div 65536 = unat a * 256 + unat b"
    using div_mult2_eq [of "v4_num (Ipv4Addr a b c d)" 256 256]
    by (simp only: 1 div_byte unat_bounds) simp
  show "v4_num (Ipv4Addr a b c d) div 16777216 = unat a"
    using div_mult2_eq [of "v4_num (Ipv4Addr a b c d)" 65536 256]
    by (simp only: 2 div_byte unat_bounds) simp
qed

lemma pair_eq_byte:
  fixes x x' y y' k :: nat
  assumes "y < k" "y' < k"
  shows "x * k + y = x' * k + y' \<longleftrightarrow> x = x' \<and> y = y'"
  using assms by (metis div_mult_self3 div_less add.commute
      add_left_cancel less_nat_zero_code)

lemma v4_num_div_split:
  "v4_num ip div 4194304 = v4_num ip div 65536 div 64"
  "v4_num ip div 1048576 = v4_num ip div 65536 div 16"
  "v4_num ip div 131072 = v4_num ip div 65536 div 2"
  "v4_num ip div 268435456 = v4_num ip div 16777216 div 16"
  by (simp_all flip: div_mult2_eq)

lemma byte_pair_div:
  "(x * 256 + y) div 64 = x * 4 + y div 64"
  "(x * 256 + y) div 16 = x * 16 + y div 16"
  "(x * 256 + y) div 2 = x * 128 + (y::nat) div 2"
  by presburger+

lemma in_cidr_octets [simp]:
  "in_cidr (Ipv4Addr p q r s) 4 (Ipv4Addr a b c d) \<longleftrightarrow> unat a div 16 = unat p div 16"
  "in_cidr (Ipv4Addr p q r s) 8 (Ipv4Addr a b c d) \<longleftrightarrow> a = p"
  "in_cidr (Ipv4Addr p q r s) 10 (Ipv4Addr a b c d) \<longleftrightarrow> a = p \<and> unat b div 64 = unat q div 64"
  "in_cidr (Ipv4Addr p q r s) 12 (Ipv4Addr a b c d) \<longleftrightarrow> a = p \<and> unat b div 16 = unat q div 16"
  "in_cidr (Ipv4Addr p q r s) 15 (Ipv4Addr a b c d) \<longleftrightarrow> a = p \<and> unat b div 2 = unat q div 2"
  "in_cidr (Ipv4Addr p q r s) 16 (Ipv4Addr a b c d) \<longleftrightarrow> a = p \<and> b = q"
  "in_cidr (Ipv4Addr p q r s) 24 (Ipv4Addr a b c d) \<longleftrightarrow> a = p \<and> b = q \<and> c = r"
proof -
  have "unat x div 64 < 4" "unat x div 16 < 16" "unat x div 2 < 128" for x :: u8
    using unat_bounds(1) [of x] by (simp_all del: unat_bounds)
  note small = this
  show "in_cidr (Ipv4Addr p q r s) 4 (Ipv4Addr a b c d) \<longleftrightarrow> unat a div 16 = unat p div 16"
    by (simp add: in_cidr_def v4_num_div_split v4_num_div)
  show "in_cidr (Ipv4Addr p q r s) 8 (Ipv4Addr a b c d) \<longleftrightarrow> a = p"
    by (simp add: in_cidr_def v4_num_div word_unat_eq_iff)
  show "in_cidr (Ipv4Addr p q r s) 10 (Ipv4Addr a b c d) \<longleftrightarrow> a = p \<and> unat b div 64 = unat q div 64"
    by (simp add: in_cidr_def v4_num_div_split v4_num_div byte_pair_div pair_eq_byte small
        word_unat_eq_iff)
  show "in_cidr (Ipv4Addr p q r s) 12 (Ipv4Addr a b c d) \<longleftrightarrow> a = p \<and> unat b div 16 = unat q div 16"
    by (simp add: in_cidr_def v4_num_div_split v4_num_div byte_pair_div pair_eq_byte small
        word_unat_eq_iff)
  show "in_cidr (Ipv4Addr p q r s) 15 (Ipv4Addr a b c d) \<longleftrightarrow> a = p \<and> unat b div 2 = unat q div 2"
    by (simp add: in_cidr_def v4_num_div_split v4_num_div byte_pair_div pair_eq_byte small
        word_unat_eq_iff)
  show "in_cidr (Ipv4Addr p q r s) 16 (Ipv4Addr a b c d) \<longleftrightarrow> a = p \<and> b = q"
    by (simp add: in_cidr_def v4_num_div pair_eq_byte small word_unat_eq_iff)
  have "in_cidr (Ipv4Addr p q r s) 24 (Ipv4Addr a b c d) \<longleftrightarrow>
      v4_num (Ipv4Addr a b c d) div 256 = v4_num (Ipv4Addr p q r s) div 256"
    by (simp add: in_cidr_def)
  then show "in_cidr (Ipv4Addr p q r s) 24 (Ipv4Addr a b c d) \<longleftrightarrow> a = p \<and> b = q \<and> c = r"
    by (simp only: v4_num_div pair_eq_byte unat_bounds word_unat_eq_iff conj_assoc)
qed

lemma is_ipv4_global_cidr:
  "is_ipv4_global ip \<longleftrightarrow>
     \<not> (\<exists>(net, len) \<in> set reserved_v4_blocks. in_cidr net len ip)
     \<or> ip = Ipv4Addr 192 0 0 9 \<or> ip = Ipv4Addr 192 0 0 10"
proof (cases ip)
  case (Ipv4Addr a b c d)
  have B: "(16 \<le> b \<and> b \<le> 31) \<longleftrightarrow> unat b div 16 = 1"
    by (simp add: word_le_nat_alt) presburger
  show ?thesis
  proof (cases "a = 192")
    case True
    then show ?thesis
      unfolding Ipv4Addr by (simp add: reserved_v4_blocks_def octet_masks v4_is_broadcast_def) auto
  next
    case False
    then show ?thesis
      unfolding Ipv4Addr
      by (cases "a = 255"; simp add: reserved_v4_blocks_def octet_masks v4_is_broadcast_def B; argo)
  qed
qed

text \<open>
  C24: An IPv4 address is refused as not global exactly when it lies in one of the reserved CIDR
  blocks, each read off the 32-bit value of the address, and is neither of the two globally
  reachable anycast addresses inside 192.0.0.0/24.
\<close>

theorem is_ipv4_global_blocks:
  "\<not> is_ipv4_global ip \<longleftrightarrow>
     (\<exists>(net, len) \<in> set reserved_v4_blocks. in_cidr net len ip)
     \<and> ip \<noteq> Ipv4Addr 192 0 0 9 \<and> ip \<noteq> Ipv4Addr 192 0 0 10"
  using is_ipv4_global_cidr [of ip] by blast

section \<open>Correctness of the interface scan and of the probes\<close>

text \<open>The interfaces whose address the scan looks at.\<close>

definition scan_selects :: "(interface \<Rightarrow> bool) \<Rightarrow> local_interface option \<Rightarrow> interface \<Rightarrow> bool" where
  "scan_selects physical bound iface \<longleftrightarrow> \<not> if_loopback iface \<and>
     (case bound of Some b \<Rightarrow> interface_matches iface b
      | None \<Rightarrow> physical iface \<and> if_oper_up iface \<and> \<not> if_p2p iface)"

lemma local_ips_loop_sets:
  "local_ips_loop physical bound ifaces (v4s, v6s) = (r4, r6) \<Longrightarrow>
     set r4 = set v4s \<union> {ip. \<exists>iface \<in> set ifaces. scan_selects physical bound iface
                \<and> if_addr iface = IpV4 ip \<and> v4_usable ip}
     \<and> set r6 = set v6s \<union> {ip. \<exists>iface \<in> set ifaces. scan_selects physical bound iface
                \<and> if_addr iface = IpV6 ip \<and> is_ipv6_global ip}"
proof (induction ifaces arbitrary: v4s v6s)
  case (Cons iface ifaces)
  note sel = scan_selects_def [of physical bound iface]
  show ?case
  proof (cases "scan_selects physical bound iface")
    case False
    with Cons.prems have "local_ips_loop physical bound ifaces (v4s, v6s) = (r4, r6)"
      by (auto simp: sel split: if_splits option.splits)
    with Cons.IH False show ?thesis by simp
  next
    case True
    show ?thesis
    proof (cases "if_addr iface")
      case (IpV4 ip)
      with True Cons.prems have "local_ips_loop physical bound ifaces
          (if v4_usable ip then v4s @ [ip] else v4s, v6s) = (r4, r6)"
        by (auto simp: sel split: if_splits option.splits)
      from Cons.IH [OF this] IpV4 True show ?thesis by auto
    next
      case (IpV6 ip)
      with True Cons.prems have "local_ips_loop physical bound ifaces
          (v4s, if is_ipv6_global ip then v6s @ [ip] else v6s) = (r4, r6)"
        by (auto simp: sel split: if_splits option.splits)
      from Cons.IH [OF this] IpV6 True show ?thesis by auto
    qed
  qed
qed simp

lemma local_ips_sets:
  "set (ipv4s (local_ips physical (Inr ifaces) bound)) =
     {ip. \<exists>iface \<in> set ifaces. scan_selects physical bound iface
        \<and> if_addr iface = IpV4 ip \<and> v4_usable ip}"
  "set (ipv6s (local_ips physical (Inr ifaces) bound)) =
     {ip. \<exists>iface \<in> set ifaces. scan_selects physical bound iface
        \<and> if_addr iface = IpV6 ip \<and> is_ipv6_global ip}"
  using local_ips_loop_sets [of physical bound ifaces "[]" "[]"]
  by (auto simp: local_ips_def split: prod.splits)

lemma local_ips_sorted:
  "sorted (ipv4s (local_ips physical g bound)) \<and> distinct (ipv4s (local_ips physical g bound))"
  "sorted (ipv6s (local_ips physical g bound)) \<and> distinct (ipv6s (local_ips physical g bound))"
  by (auto simp: local_ips_def split: sum.splits prod.splits)

text \<open>
  The interface scan returns strictly sorted lists without duplicates that hold exactly the
  usable IPv4 and the global IPv6 addresses of the interfaces it selects.
\<close>

theorem local_ips_spec:
  "sorted (ipv4s (local_ips physical (Inr ifaces) bound))
   \<and> distinct (ipv4s (local_ips physical (Inr ifaces) bound))
   \<and> sorted (ipv6s (local_ips physical (Inr ifaces) bound))
   \<and> distinct (ipv6s (local_ips physical (Inr ifaces) bound))
   \<and> set (ipv4s (local_ips physical (Inr ifaces) bound)) =
       {ip. \<exists>iface \<in> set ifaces. scan_selects physical bound iface
          \<and> if_addr iface = IpV4 ip \<and> v4_usable ip}
   \<and> set (ipv6s (local_ips physical (Inr ifaces) bound)) =
       {ip. \<exists>iface \<in> set ifaces. scan_selects physical bound iface
          \<and> if_addr iface = IpV6 ip \<and> is_ipv6_global ip}"
  using local_ips_sorted local_ips_sets by blast

lemma local_ipv4s_set:
  "set (local_ipv4s physical (Inr ifaces)) = set (ipv4s (local_ips physical (Inr ifaces) None))"
proof -
  have "(case a of IpV4 ip \<Rightarrow> Some ip | IpV6 _ \<Rightarrow> None) = Some x \<longleftrightarrow> a = IpV4 x" for a x
    by (cases a) auto
  then show ?thesis
    unfolding local_ips_sets by (auto simp: local_ipv4s_def scan_selects_def set_map_filter)
qed

theorem local_ipv4s_eq_local_ips: "local_ipv4s physical g = ipv4s (local_ips physical g None)"
proof (cases g)
  case (Inl e)
  then show ?thesis by (simp add: local_ipv4s_def local_ips_def)
next
  case (Inr ifaces)
  have "sorted (local_ipv4s physical g)" "distinct (local_ipv4s physical g)"
    by (auto simp: local_ipv4s_def Inr)
  with local_ips_sorted(1) [of physical g None] local_ipv4s_set [of physical ifaces] Inr
  show ?thesis by (simp add: sorted_distinct_set_unique)
qed

lemma resolve_source_ip_usable:
  "resolve_source_ip env probes = Inr ip \<Longrightarrow> \<not> ip_is_unspecified ip \<and> \<not> ip_is_loopback ip"
proof (induction probes)
  case (Cons dest probes)
  from Cons.prems obtain addrs where r: "pe_resolve env dest = Inr addrs"
    by (auto simp: and_then_Inr_iff)
  show ?case
  proof (cases addrs)
    case Nil
    with Cons r show ?thesis by simp
  next
    case (Cons addr as)
    with Cons.prems r obtain u where "pe_bind env = Inr u"
      by (auto simp: and_then_Inr_iff)
    with Cons Cons.prems r show ?thesis
      by (cases "pe_connect env addr"; cases "pe_local_addr env addr")
        (auto simp: Cons.IH split: if_split_asm)
  qed
qed simp

text \<open>
  A STUN server name that fails to resolve ends the probing for the local IPv4 address: no
  later server and none of the built-in fallback addresses is tried.
\<close>

theorem local_ipv4_unresolvable_server:
  assumes "pe_resolve env server = Inl e"
  shows "local_ipv4 env (server # servers) = None"
  using assms by (simp add: local_ipv4_def)

theorem local_ipv4_unresolvable_server_witness:
  "local_ipv4 \<lparr>pe_resolve = (\<lambda>n. if n = ''stun'' then Inl (IoError Other [])
       else Inr [SockV4 (Ipv4Addr 8 8 8 8) 53]),
     pe_bind = Inr (), pe_connect = (\<lambda>_. True),
     pe_local_addr = (\<lambda>_. Inr (SockV4 (Ipv4Addr 10 0 0 2) 4000))\<rparr> [''stun''] = None"
  by (rule local_ipv4_unresolvable_server) simp

text \<open>IPv6 multicast passes the test that the interface scan uses for global unicast.\<close>

theorem is_ipv6_global_accepts_multicast:
  "is_ipv6_global (Ipv6Addr 0xff02 0 0 0 0 0 0 1) \<and> v6_is_multicast (Ipv6Addr 0xff02 0 0 0 0 0 0 1)"
  by (simp add: v6_is_unspecified_def v6_unspecified_def v6_is_loopback_def)

end
