(* ===== verification/Route_Table.thy ===== *)
theory Route_Table
  imports Net_Addr
begin

text \<open>
  \<open>rustp2p-core/src/route_table/mod.rs\<close>, \<open>route_table/table.rs\<close> and \<open>idle.rs\<close>: routes, the
  per-peer route lists with the load-balancing strategies, the table of direct owners, the idle
  poll. The theory shows the table's invariant on every reachable state, what each operation
  does to the set of routes of each peer, and the guarantees of the selection functions.
\<close>

section \<open>Routes\<close>

datatype protocol = UDP | TCP

definition protocol_is_tcp :: "protocol \<Rightarrow> bool" where "protocol_is_tcp p \<longleftrightarrow> p = TCP"
definition protocol_is_udp :: "protocol \<Rightarrow> bool" where "protocol_is_udp p \<longleftrightarrow> p = UDP"

record route_key =
  rk_protocol :: protocol
  rk_local :: socket_addr
  rk_peer :: socket_addr

definition route_key_default :: route_key where
  "route_key_default =
     \<lparr>rk_protocol = TCP, rk_local = SockV4 v4_unspecified 0, rk_peer = SockV4 v4_unspecified 0\<rparr>"

definition route_key_new :: "protocol \<Rightarrow> socket_addr \<Rightarrow> socket_addr \<Rightarrow> route_key" where
  "route_key_new p l a = \<lparr>rk_protocol = p, rk_local = l, rk_peer = a\<rparr>"

definition DEFAULT_RTT :: u32 where "DEFAULT_RTT = 9999"

record route =
  r_key :: route_key
  r_metric :: u8
  r_rtt :: u32

definition route_from :: "route_key \<Rightarrow> u8 \<Rightarrow> u32 \<Rightarrow> route" where
  "route_from k m t = \<lparr>r_key = k, r_metric = m, r_rtt = t\<rparr>"

definition route_from_default_rt :: "route_key \<Rightarrow> u8 \<Rightarrow> route" where
  "route_from_default_rt k m = \<lparr>r_key = k, r_metric = m, r_rtt = DEFAULT_RTT\<rparr>"

definition is_direct :: "route \<Rightarrow> bool" where "is_direct r \<longleftrightarrow> r_metric r = 0"
definition is_relay :: "route \<Rightarrow> bool" where "is_relay r \<longleftrightarrow> r_metric r > 0"

definition route_rtt :: "route \<Rightarrow> u32 option" where
  "route_rtt r = (if r_rtt r \<noteq> DEFAULT_RTT then Some (r_rtt r) else None)"

text \<open>\<open>RouteSortKey\<close> with its derived order: the metric first, then the round-trip time.\<close>

datatype route_sort_key = RouteSortKey (sk_metric: u8) (sk_rtt: u32)

instantiation route_sort_key :: linorder
begin

definition less_eq_route_sort_key :: "route_sort_key \<Rightarrow> route_sort_key \<Rightarrow> bool" where
  "less_eq_route_sort_key x y \<longleftrightarrow>
     sk_metric x < sk_metric y \<or> sk_metric x = sk_metric y \<and> sk_rtt x \<le> sk_rtt y"

definition less_route_sort_key :: "route_sort_key \<Rightarrow> route_sort_key \<Rightarrow> bool" where
  "less_route_sort_key x y \<longleftrightarrow>
     sk_metric x < sk_metric y \<or> sk_metric x = sk_metric y \<and> sk_rtt x < sk_rtt y"

instance
  by standard
    (auto simp: less_eq_route_sort_key_def less_route_sort_key_def route_sort_key.expand)

end

definition route_sort_key :: "route \<Rightarrow> route_sort_key" where
  "route_sort_key r = RouteSortKey (r_metric r) (r_rtt r)"

section \<open>The table\<close>

datatype load_balance = MinHopLowestLatency | RoundRobin | MostRecent | LowestLatency

type_synonym timed_routes = "(route \<times> instant) list"

record 'p route_table =
  rt_routes :: "('p, u64 \<times> timed_routes) dashmap"
  rt_keys :: "(route_key, 'p) dashmap"
  rt_lb :: load_balance

definition route_table_new :: "load_balance \<Rightarrow> 'p route_table" where
  "route_table_new lb = \<lparr>rt_routes = [], rt_keys = [], rt_lb = lb\<rparr>"

definition route_table_default :: "'p route_table" where
  "route_table_default = route_table_new MinHopLowestLatency"

definition route_table_is_empty :: "'p route_table \<Rightarrow> bool" where
  "route_table_is_empty t \<longleftrightarrow> rt_routes t = []"

definition is_route_of_peer_id :: "'p route_table \<Rightarrow> 'p \<Rightarrow> route_key \<Rightarrow> bool" where
  "is_route_of_peer_id t p k = (case dm_get (rt_keys t) k of Some q \<Rightarrow> q = p | None \<Rightarrow> False)"

text \<open>\<open>fetch_add\<close> on the counter wraps; the result comes with the table after the call.\<close>

definition get_route_by_id :: "'p route_table \<Rightarrow> 'p \<Rightarrow> route io_result \<times> 'p route_table" where
  "get_route_by_id t p =
     (let not_found = Inl (IoError NotFound ''route not found'') in
      case dm_get (rt_routes t) p of
        None \<Rightarrow> (not_found, t)
      | Some (cnt, routes) \<Rightarrow>
          (case find (\<lambda>(r, _). is_direct r) routes of
             Some (r, _) \<Rightarrow> (Inr r, t)
           | None \<Rightarrow>
               if rt_lb t \<noteq> RoundRobin then
                 (case routes of (r, _) # _ \<Rightarrow> (Inr r, t) | [] \<Rightarrow> (not_found, t))
               else if routes \<noteq> [] then
                 (Inr (fst (routes ! (unat cnt mod length routes))),
                  t\<lparr>rt_routes := dm_insert p (cnt + 1, routes) (rt_routes t)\<rparr>)
               else (not_found, t)))"

definition route_exists :: "'p route_table \<Rightarrow> 'p \<Rightarrow> bool" where
  "route_exists t p \<longleftrightarrow> dm_contains (rt_routes t) p"

fun touch :: "route_key \<Rightarrow> instant \<Rightarrow> timed_routes \<Rightarrow> timed_routes option" where
  "touch k now [] = None"
| "touch k now ((r, t) # rs) =
     (if r_key r = k then Some ((r, now) # rs) else map_option ((#) (r, t)) (touch k now rs))"

definition update_read_time ::
  "instant \<Rightarrow> 'p \<Rightarrow> route_key \<Rightarrow> 'p route_table \<Rightarrow> bool \<times> 'p route_table" where
  "update_read_time now p k t =
     (case dm_get (rt_routes t) p of
        None \<Rightarrow> (False, t)
      | Some (cnt, routes) \<Rightarrow>
          (case touch k now routes of
             None \<Rightarrow> (False, t)
           | Some routes' \<Rightarrow> (True, t\<lparr>rt_routes := dm_insert p (cnt, routes') (rt_routes t)\<rparr>)))"

fun set_rtt :: "route_key \<Rightarrow> u32 \<Rightarrow> timed_routes \<Rightarrow> timed_routes option" where
  "set_rtt k rtt [] = None"
| "set_rtt k rtt ((r, t) # rs) =
     (if r_key r = k then Some ((r\<lparr>r_rtt := rtt\<rparr>, t) # rs)
      else map_option ((#) (r, t)) (set_rtt k rtt rs))"

definition update_rtt :: "'p \<Rightarrow> route_key \<Rightarrow> u32 \<Rightarrow> 'p route_table \<Rightarrow> 'p route_table" where
  "update_rtt p k rtt t =
     (case dm_get (rt_routes t) p of
        None \<Rightarrow> t
      | Some (cnt, routes) \<Rightarrow>
          (case set_rtt k rtt routes of
             None \<Rightarrow> t
           | Some routes' \<Rightarrow>
               t\<lparr>rt_routes := dm_insert p
                   (cnt, if rt_lb t = LowestLatency then sort_key (r_rtt \<circ> fst) routes'
                           else routes') (rt_routes t)\<rparr>))"

definition remove_route :: "'p \<Rightarrow> route_key \<Rightarrow> 'p route_table \<Rightarrow> 'p route_table" where
  "remove_route p k t =
     (case dm_get (rt_routes t) p of
        None \<Rightarrow> t
      | Some (cnt, routes) \<Rightarrow>
          (let routes' = filter (\<lambda>(r, _). r_key r \<noteq> k) routes in
           t\<lparr>rt_routes := (if routes' = [] then dm_remove p (rt_routes t)
                           else dm_insert p (cnt, routes') (rt_routes t)),
             rt_keys := dm_remove_if k (\<lambda>q. q = p) (rt_keys t)\<rparr>))"

definition remove_all :: "'p \<Rightarrow> 'p route_table \<Rightarrow> 'p route_table" where
  "remove_all p t =
     (case dm_get (rt_routes t) p of
        None \<Rightarrow> t
      | Some (cnt, routes) \<Rightarrow>
          t\<lparr>rt_routes := dm_remove p (rt_routes t),
            rt_keys := foldl (\<lambda>ks (r, _). if is_direct r then dm_remove_if (r_key r) (\<lambda>q. q = p) ks
                                          else ks) (rt_keys t) routes\<rparr>)"

definition get_id_by_route_key :: "'p route_table \<Rightarrow> route_key \<Rightarrow> 'p option" where
  "get_id_by_route_key t k = dm_get (rt_keys t) k"

text \<open>\<open>RouteTable::route\<close>.\<close>

definition routes_of :: "'p route_table \<Rightarrow> 'p \<Rightarrow> route list option" where
  "routes_of t p = (case dm_get (rt_routes t) p of None \<Rightarrow> None | Some (_, rs) \<Rightarrow> Some (map fst rs))"

definition route_one :: "'p route_table \<Rightarrow> 'p \<Rightarrow> route option" where
  "route_one t p =
     (case dm_get (rt_routes t) p of
        Some (_, (r, _) # _) \<Rightarrow> Some r
      | _ \<Rightarrow> None)"

definition route_one_p2p :: "'p route_table \<Rightarrow> 'p \<Rightarrow> route option" where
  "route_one_p2p t p =
     (case dm_get (rt_routes t) p of
        None \<Rightarrow> None
      | Some (_, rs) \<Rightarrow> map_option fst (find (\<lambda>(r, _). is_direct r) rs))"

definition route_to_id :: "'p route_table \<Rightarrow> route_key \<Rightarrow> 'p option" where
  "route_to_id t k =
     map_option fst (find (\<lambda>(_, _, rs). list_ex (\<lambda>(r, _). r_key r = k \<and> is_direct r) rs)
       (rt_routes t))"

definition need_punch :: "'p route_table \<Rightarrow> 'p \<Rightarrow> bool" where
  "need_punch t p =
     (case dm_get (rt_routes t) p of
        None \<Rightarrow> True
      | Some (_, rs) \<Rightarrow> \<not> list_ex (\<lambda>(r, _). is_direct r) rs)"

definition no_need_punch :: "'p route_table \<Rightarrow> 'p \<Rightarrow> bool" where
  "no_need_punch t p \<longleftrightarrow> \<not> need_punch t p"

definition p2p_num :: "'p route_table \<Rightarrow> 'p \<Rightarrow> nat" where
  "p2p_num t p =
     (case dm_get (rt_routes t) p of
        None \<Rightarrow> 0
      | Some (_, rs) \<Rightarrow> length (filter (\<lambda>(r, _). is_direct r) rs))"

definition relay_num :: "'p route_table \<Rightarrow> 'p \<Rightarrow> nat" where
  "relay_num t p =
     (case dm_get (rt_routes t) p of
        None \<Rightarrow> 0
      | Some (_, rs) \<Rightarrow> length (filter (\<lambda>(r, _). is_relay r) rs))"

section \<open>Views of the whole table\<close>

definition all_routes :: "'p route_table \<Rightarrow> ('p \<times> route list) list" where
  "all_routes t = map (\<lambda>(p, _, rs). (p, map fst rs)) (rt_routes t)"

definition route_table_p2p :: "'p route_table \<Rightarrow> ('p \<times> route) list" where
  "route_table_p2p t =
     List.map_filter (\<lambda>(p, _, rs). map_option (\<lambda>(r, _). (p, r)) (find (\<lambda>(r, _). is_direct r) rs))
       (rt_routes t)"

definition route_table_one :: "'p route_table \<Rightarrow> ('p \<times> route) list" where
  "route_table_one t =
     List.map_filter (\<lambda>(p, _, rs). case rs of [] \<Rightarrow> None | (r, _) # _ \<Rightarrow> Some (p, r)) (rt_routes t)"

definition route_key_table_add ::
  "'p \<Rightarrow> (route_key, 'p list) dashmap \<Rightarrow> route \<times> instant \<Rightarrow> (route_key, 'p list) dashmap" where
  "route_key_table_add p m e =
     (let r = fst e in
      case dm_get m (r_key r) of
        None \<Rightarrow> dm_insert (r_key r) [p] m
      | Some list \<Rightarrow>
          (let list' = list @ [p] in
           dm_insert (r_key r) (if is_direct r then swap 0 (length list' - 1) list' else list') m))"

definition route_key_table :: "'p route_table \<Rightarrow> (route_key, 'p list) dashmap" where
  "route_key_table t = foldl (\<lambda>m (p, _, rs). foldl (route_key_table_add p) m rs) [] (rt_routes t)"

definition route_table_ids :: "'p route_table \<Rightarrow> 'p list" where
  "route_table_ids t = map fst (rt_routes t)"

text \<open>\<open>Iterator::min_by_key\<close>: the first of the minimal elements.\<close>

fun min_by_key :: "('a \<Rightarrow> 'b::linorder) \<Rightarrow> 'a list \<Rightarrow> 'a option" where
  "min_by_key f [] = None"
| "min_by_key f (x # xs) =
     (case min_by_key f xs of None \<Rightarrow> Some x | Some y \<Rightarrow> if f x \<le> f y then Some x else Some y)"

definition route_table_min_metric :: "'p route_table \<Rightarrow> ('p \<times> route) list" where
  "route_table_min_metric t =
     List.map_filter (\<lambda>(p, _, rs). map_option (\<lambda>(r, _). (p, r)) (min_by_key (r_metric \<circ> fst) rs))
       (rt_routes t)"

definition route_table_min_rtt :: "'p route_table \<Rightarrow> ('p \<times> route) list" where
  "route_table_min_rtt t =
     List.map_filter (\<lambda>(p, _, rs). map_option (\<lambda>(r, _). (p, r)) (min_by_key (r_rtt \<circ> fst) rs))
       (rt_routes t)"

fun oldest_step ::
  "'p \<Rightarrow> ('p \<times> route \<times> instant) option \<Rightarrow> route \<times> instant \<Rightarrow> ('p \<times> route \<times> instant) option" where
  "oldest_step p None (r, time) = Some (p, r, time)"
| "oldest_step p (Some (q, s, old)) (r, time) =
     (if old > time then Some (p, r, time) else Some (q, s, old))"

definition oldest_route :: "'p route_table \<Rightarrow> ('p \<times> route \<times> instant) option" where
  "oldest_route t =
     (if rt_routes t = [] then None
      else foldl (\<lambda>acc (p, _, rs). foldl (oldest_step p) acc rs) None (rt_routes t))"

section \<open>Adding a route\<close>

datatype scan_result =
    ScanReject
  | ScanReturn timed_routes
  | ScanUpdated nat timed_routes
  | ScanAbsent

text \<open>
  The loop of \<open>add_route_\<close> (here \<open>add_route_impl\<close>) over the peer's list: it rejects the route, returns with an entry
  refreshed, updates the entry with the same key (with its index), or reaches the end.
\<close>

fun add_route_scan ::
  "load_balance \<Rightarrow> bool \<Rightarrow> route \<Rightarrow> instant \<Rightarrow> timed_routes \<Rightarrow> scan_result" where
  "add_route_scan lb absent r now [] = ScanAbsent"
| "add_route_scan lb absent r now ((x, time) # xs) =
     (if r_metric x < r_metric r \<and> lb \<noteq> LowestLatency \<and> is_direct x = is_direct r
      then ScanReject
      else if r_key x = r_key r then
        (if absent then ScanReturn ((x, now) # xs)
         else if is_direct x \<and> \<not> is_direct r then ScanReturn ((x, now) # xs)
         else ScanUpdated 0
           ((x\<lparr>r_metric := r_metric r,
               r_rtt := if r_rtt r \<noteq> DEFAULT_RTT then r_rtt r else r_rtt x\<rparr>, now) # xs))
      else (case add_route_scan lb absent r now xs of
          ScanReject \<Rightarrow> ScanReject
        | ScanReturn ys \<Rightarrow> ScanReturn ((x, time) # ys)
        | ScanUpdated i ys \<Rightarrow> ScanUpdated (Suc i) ((x, time) # ys)
        | ScanAbsent \<Rightarrow> ScanAbsent))"

definition reorder :: "load_balance \<Rightarrow> nat \<Rightarrow> timed_routes \<Rightarrow> timed_routes" where
  "reorder lb i xs =
     (case lb of
        MostRecent \<Rightarrow> swap 0 i xs
      | LowestLatency \<Rightarrow> sort_key (r_rtt \<circ> fst) xs
      | _ \<Rightarrow> sort_key (route_sort_key \<circ> fst) xs)"

definition add_route_impl ::
  "instant \<Rightarrow> 'p \<Rightarrow> route \<Rightarrow> bool \<Rightarrow> 'p route_table \<Rightarrow> bool \<times> 'p route_table" where
  "add_route_impl now p r only_if_absent t =
     (let known = (if only_if_absent
          then (case dm_get (rt_routes t) p of
                  None \<Rightarrow> None
                | Some (cnt, routes) \<Rightarrow> map_option (Pair cnt) (touch (r_key r) now routes))
          else None)
      in case known of
        Some e \<Rightarrow> (True, t\<lparr>rt_routes := dm_insert p e (rt_routes t)\<rparr>)
      | None \<Rightarrow>
          (let (cnt, list) = (case dm_get (rt_routes t) p of None \<Rightarrow> (0, []) | Some e \<Rightarrow> e);
               put = (\<lambda>l. t\<lparr>rt_routes := dm_insert p (cnt, l) (rt_routes t)\<rparr>)
           in case add_route_scan (rt_lb t) only_if_absent r now list of
             ScanReject \<Rightarrow> (False, put list)
           | ScanReturn list' \<Rightarrow> (True, put list')
           | ScanUpdated i list' \<Rightarrow> (True, put (reorder (rt_lb t) i list'))
           | ScanAbsent \<Rightarrow>
               (True, (put (reorder (rt_lb t) (length list) (list @ [(r, now)])))
                 \<lparr>rt_keys := if is_direct r then dm_insert (r_key r) p (rt_keys t) else rt_keys t\<rparr>)))"

definition add_route_if_absent :: "instant \<Rightarrow> 'p \<Rightarrow> route \<Rightarrow> 'p route_table \<Rightarrow> bool \<times> 'p route_table" where
  "add_route_if_absent now p r t = add_route_impl now p r True t"

definition add_route :: "instant \<Rightarrow> 'p \<Rightarrow> route \<Rightarrow> 'p route_table \<Rightarrow> bool \<times> 'p route_table" where
  "add_route now p r t = add_route_impl now p r False t"

section \<open>Idle routes\<close>

text \<open>
  \<open>IdleRouteManager\<close>. Times and durations are nanoseconds. One turn of the loop either returns
  the oldest route or says how long to sleep; the loop polls the shared table as it is at each
  wake-up (\<open>tables now\<close>), which may come later than asked (\<open>late\<close>). A poll that never finds an
  expired route never returns: \<open>None\<close>.
\<close>

definition next_idle_poll ::
  "nat \<Rightarrow> 'p route_table \<Rightarrow> instant \<Rightarrow> ('p \<times> route \<times> instant) + nat" where
  "next_idle_poll read_idle t now =
     (case oldest_route t of
        Some (p, r, time) \<Rightarrow>
          (let elapsed = now - time in
           if elapsed \<ge> read_idle then Inl (p, r, time)
           else Inr (max (read_idle - elapsed) 1000000))
      | None \<Rightarrow> Inr (max (read_idle div 3) 1000000))"

partial_function (option) next_idle ::
  "nat \<Rightarrow> (instant \<Rightarrow> 'p route_table) \<Rightarrow> (instant \<Rightarrow> nat) \<Rightarrow> instant
     \<Rightarrow> (('p \<times> route \<times> instant) \<times> instant) option" where
  "next_idle read_idle tables late now =
     (case next_idle_poll read_idle (tables now) now of
        Inl found \<Rightarrow> Some (found, now)
      | Inr sleep_for \<Rightarrow> next_idle read_idle tables late (now + sleep_for + late now))"

definition idle_delay ::
  "instant \<Rightarrow> 'p \<Rightarrow> route_key \<Rightarrow> 'p route_table \<Rightarrow> bool \<times> 'p route_table" where
  "idle_delay now p k t = update_read_time now p k t"

definition idle_remove_route :: "'p \<Rightarrow> route_key \<Rightarrow> 'p route_table \<Rightarrow> 'p route_table" where
  "idle_remove_route p k t = remove_route p k t"

section \<open>The invariant\<close>

abbreviation tr_keys :: "timed_routes \<Rightarrow> route_key list" where
  "tr_keys rs \<equiv> map (\<lambda>e. r_key (fst e)) rs"

text \<open>
  No empty lists, one entry per key, and the order the strategy keeps: by hop count
  (\<open>MinHopLowestLatency\<close>, \<open>RoundRobin\<close>) or by round-trip time (\<open>LowestLatency\<close>).
\<close>

definition route_order :: "load_balance \<Rightarrow> timed_routes \<Rightarrow> bool" where
  "route_order lb rs =
     (case lb of
        MostRecent \<Rightarrow> True
      | LowestLatency \<Rightarrow> sorted (map (r_rtt \<circ> fst) rs)
      | _ \<Rightarrow> sorted (map (r_metric \<circ> fst) rs))"

definition route_list_ok :: "load_balance \<Rightarrow> timed_routes \<Rightarrow> bool" where
  "route_list_ok lb rs \<longleftrightarrow> rs \<noteq> [] \<and> distinct (tr_keys rs) \<and> route_order lb rs"

definition lists_ok :: "'p route_table \<Rightarrow> bool" where
  "lists_ok t \<longleftrightarrow> dm_wf (rt_routes t) \<and>
     (\<forall>p c rs. dm_get (rt_routes t) p = Some (c, rs) \<longrightarrow> route_list_ok (rt_lb t) rs)"

definition has_direct :: "'p route_table \<Rightarrow> 'p \<Rightarrow> route_key \<Rightarrow> bool" where
  "has_direct t p k \<longleftrightarrow>
     (case dm_get (rt_routes t) p of
        None \<Rightarrow> False
      | Some (_, rs) \<Rightarrow> \<exists>e \<in> set rs. r_key (fst e) = k \<and> is_direct (fst e))"

text \<open>An owner recorded for a key really has a direct route with that key.\<close>

definition owners_ok :: "'p route_table \<Rightarrow> bool" where
  "owners_ok t \<longleftrightarrow> (\<forall>k p. dm_get (rt_keys t) k = Some p \<longrightarrow> has_direct t p k)"

definition rt_inv :: "'p route_table \<Rightarrow> bool" where
  "rt_inv t \<longleftrightarrow> lists_ok t \<and> owners_ok t"

inductive rt_step :: "'p route_table \<Rightarrow> 'p route_table \<Rightarrow> bool" where
  step_add: "rt_step t (snd (add_route now p r t))"
| step_add_if_absent: "rt_step t (snd (add_route_if_absent now p r t))"
| step_read_time: "rt_step t (snd (update_read_time now p k t))"
| step_rtt: "rt_step t (update_rtt p k rtt t)"
| step_remove: "rt_step t (remove_route p k t)"
| step_remove_all: "rt_step t (remove_all p t)"
| step_get: "rt_step t (snd (get_route_by_id t p))"

inductive rt_reachable :: "load_balance \<Rightarrow> 'p route_table \<Rightarrow> bool" for lb where
  reach_new: "rt_reachable lb (route_table_new lb)"
| reach_step: "rt_reachable lb t \<Longrightarrow> rt_step t t' \<Longrightarrow> rt_reachable lb t'"

inductive_cases rt_stepE: "rt_step t t'"

section \<open>Lemmas on the list operations\<close>

named_theorems route_simps

lemma is_relay_iff [route_simps]: "is_relay r \<longleftrightarrow> \<not> is_direct r"
  by (simp add: is_relay_def is_direct_def word_gt_0)

lemma touch_Some_iff:
  "touch k now rs = Some rs' \<longleftrightarrow>
     (\<exists>i < length rs. r_key (fst (rs ! i)) = k \<and> (\<forall>j < i. r_key (fst (rs ! j)) \<noteq> k)
        \<and> rs' = rs[i := (fst (rs ! i), now)])"
proof (induction rs arbitrary: rs')
  case (Cons e rs)
  show ?case by (cases e) (auto simp: Cons Ex_less_Suc2 All_less_Suc2)
qed simp

lemma touch_None_iff: "touch k now rs = None \<longleftrightarrow> k \<notin> set (tr_keys rs)"
  by (induction k now rs rule: touch.induct) auto

lemma set_rtt_Some_iff:
  "set_rtt k rtt rs = Some rs' \<longleftrightarrow>
     (\<exists>i < length rs. r_key (fst (rs ! i)) = k \<and> (\<forall>j < i. r_key (fst (rs ! j)) \<noteq> k)
        \<and> rs' = rs[i := ((fst (rs ! i))\<lparr>r_rtt := rtt\<rparr>, snd (rs ! i))])"
proof (induction rs arbitrary: rs')
  case (Cons e rs)
  show ?case by (cases e) (auto simp: Cons Ex_less_Suc2 All_less_Suc2)
qed simp

definition merge_route :: "route \<Rightarrow> route \<Rightarrow> route" where
  "merge_route r x = x\<lparr>r_metric := r_metric r,
     r_rtt := if r_rtt r \<noteq> DEFAULT_RTT then r_rtt r else r_rtt x\<rparr>"

lemma merge_route_sel [simp]:
  "r_key (merge_route r x) = r_key x" "r_metric (merge_route r x) = r_metric r"
  "is_direct (merge_route r x) = is_direct r"
  by (simp_all add: merge_route_def is_direct_def)

lemma scan_return:
  "add_route_scan lb absent r now rs = ScanReturn rs' \<Longrightarrow>
     \<exists>i < length rs. r_key (fst (rs ! i)) = r_key r \<and> rs' = rs[i := (fst (rs ! i), now)]
       \<and> (absent \<or> is_direct (fst (rs ! i)) \<and> \<not> is_direct r)"
proof (induction lb absent r now rs arbitrary: rs' rule: add_route_scan.induct)
  case (2 lb absent r now x time xs)
  then show ?case
    by (auto simp: Ex_less_Suc2 split: if_split_asm scan_result.split_asm)
qed simp

lemma scan_updated:
  "add_route_scan lb absent r now rs = ScanUpdated i rs' \<Longrightarrow>
     i < length rs \<and> r_key (fst (rs ! i)) = r_key r \<and> \<not> absent
     \<and> \<not> (is_direct (fst (rs ! i)) \<and> \<not> is_direct r)
     \<and> rs' = rs[i := (merge_route r (fst (rs ! i)), now)]"
proof (induction lb absent r now rs arbitrary: i rs' rule: add_route_scan.induct)
  case (2 lb absent r now x time xs)
  then show ?case
    by (auto simp: merge_route_def split: if_split_asm scan_result.split_asm)
qed simp

lemma scan_absent: "add_route_scan lb absent r now rs = ScanAbsent \<Longrightarrow> r_key r \<notin> set (tr_keys rs)"
  by (induction lb absent r now rs rule: add_route_scan.induct)
    (auto split: if_split_asm scan_result.split_asm)

lemma scan_reject:
  "add_route_scan lb absent r now rs = ScanReject \<Longrightarrow>
     lb \<noteq> LowestLatency \<and> is_relay r \<and> (\<exists>e \<in> set rs. is_relay (fst e) \<and> r_metric (fst e) < r_metric r)"
proof (induction lb absent r now rs rule: add_route_scan.induct)
  case (2 lb absent r now x time xs)
  then show ?case
    by (fastforce simp: is_direct_def is_relay_def word_gt_0 split: if_split_asm scan_result.split_asm)
qed simp

lemma mset_reorder [simp]: "xs \<noteq> [] \<Longrightarrow> i < length xs \<Longrightarrow> mset (reorder lb i xs) = mset xs"
  by (simp add: reorder_def split: load_balance.split)

lemma reorder_preserves:
  assumes "xs \<noteq> []" and "i < length xs"
  shows "set (reorder lb i xs) = set xs" and "reorder lb i xs \<noteq> []"
    and "distinct (tr_keys (reorder lb i xs)) = distinct (tr_keys xs)"
proof -
  have m: "mset (reorder lb i xs) = mset xs" using assms by simp
  then show s: "set (reorder lb i xs) = set xs" by (metis set_mset_mset)
  from m assms(1) show "reorder lb i xs \<noteq> []" by auto
  from m have "mset (tr_keys (reorder lb i xs)) = mset (tr_keys xs)" by (simp add: mset_map)
  then show "distinct (tr_keys (reorder lb i xs)) = distinct (tr_keys xs)"
    by (metis distinct_count_atmost_1 set_mset_mset)
qed

lemma sorted_metric_of_sort_key:
  "sorted (map (r_metric \<circ> fst) (sort_key (route_sort_key \<circ> fst) xs))"
proof -
  have "sorted (map (route_sort_key \<circ> fst) (sort_key (route_sort_key \<circ> fst) xs))" by simp
  then show ?thesis
    unfolding sorted_map
    by (rule sorted_wrt_mono_rel [rotated])
      (auto simp: route_sort_key_def less_eq_route_sort_key_def)
qed

lemma route_order_reorder [simp]: "route_order lb (reorder lb i xs)"
  by (simp add: route_order_def reorder_def sorted_metric_of_sort_key split: load_balance.split)

lemma tr_keys_update [simp]:
  "i < length rs \<Longrightarrow> r_key r = r_key (fst (rs ! i)) \<Longrightarrow> tr_keys (rs[i := (r, n)]) = tr_keys rs"
  by (simp add: map_update list_update_same_conv)

lemma direct_update:
  assumes "i < length rs" and "r_key r = r_key (fst (rs ! i))"
    and "is_direct (fst (rs ! i)) \<Longrightarrow> is_direct r"
    and "\<exists>e \<in> set rs. r_key (fst e) = k \<and> is_direct (fst e)"
  shows "\<exists>e \<in> set (rs[i := (r, n)]). r_key (fst e) = k \<and> is_direct (fst e)"
proof -
  from assms(4) obtain j where j: "j < length rs" "r_key (fst (rs ! j)) = k" "is_direct (fst (rs ! j))"
    by (metis in_set_conv_nth)
  show ?thesis
  proof (cases "j = i")
    case True
    with j assms show ?thesis by (intro bexI [of _ "(r, n)"]) (auto simp: set_update_memI)
  next
    case False
    with j have "rs[i := (r, n)] ! j = rs ! j" by simp
    with j show ?thesis by (metis length_list_update nth_mem)
  qed
qed

lemma sorted_map_update_same:
  "i < length rs \<Longrightarrow> f y = f (rs ! i) \<Longrightarrow> map f (rs[i := y]) = map f rs"
  by (simp add: map_update list_update_same_conv)

lemma route_order_update_time:
  assumes "i < length rs" shows "route_order lb (rs[i := (fst (rs ! i), n)]) = route_order lb rs"
  using assms by (simp add: route_order_def sorted_map_update_same split: load_balance.split)

lemma route_list_ok_update_time:
  assumes "i < length rs"
  shows "route_list_ok lb (rs[i := (fst (rs ! i), n)]) = route_list_ok lb rs"
  using assms by (simp add: route_list_ok_def route_order_update_time)

section \<open>Preservation of the invariant\<close>

abbreviation rt_put :: "'p \<Rightarrow> u64 \<Rightarrow> timed_routes \<Rightarrow> 'p route_table \<Rightarrow> 'p route_table" where
  "rt_put p c rs t \<equiv> t\<lparr>rt_routes := dm_insert p (c, rs) (rt_routes t)\<rparr>"

lemma rt_inv_put:
  assumes "rt_inv t" and "route_list_ok (rt_lb t) rs"
    and "\<And>k. has_direct t p k \<Longrightarrow> \<exists>e \<in> set rs. r_key (fst e) = k \<and> is_direct (fst e)"
  shows "rt_inv (rt_put p c rs t)"
  using assms unfolding rt_inv_def lists_ok_def owners_ok_def
  by (fastforce simp: has_direct_def split: option.splits if_splits)

lemma rt_inv_list:
  "rt_inv t \<Longrightarrow> dm_get (rt_routes t) p = Some (c, rs) \<Longrightarrow> route_list_ok (rt_lb t) rs"
  by (simp add: rt_inv_def lists_ok_def)

lemma rt_inv_new: "rt_inv (route_table_new lb)"
  by (simp add: rt_inv_def lists_ok_def owners_ok_def route_table_new_def)

lemma rt_inv_touch:
  assumes "rt_inv t" and "dm_get (rt_routes t) p = Some (c, rs)" and "i < length rs"
  shows "rt_inv (rt_put p c (rs[i := (fst (rs ! i), now)]) t)"
proof (rule rt_inv_put [OF assms(1)])
  show "route_list_ok (rt_lb t) (rs[i := (fst (rs ! i), now)])"
    using rt_inv_list [OF assms(1,2)] assms(3) by (simp add: route_list_ok_update_time)
qed (use assms(2,3) in \<open>auto simp: has_direct_def intro!: direct_update\<close>)

lemma rt_inv_update_read_time: "rt_inv t \<Longrightarrow> rt_inv (snd (update_read_time now p k t))"
  unfolding update_read_time_def
  by (auto simp: touch_Some_iff rt_inv_touch split: option.split)

lemma rt_inv_update_rtt:
  assumes "rt_inv t" shows "rt_inv (update_rtt p k rtt t)"
proof (cases "dm_get (rt_routes t) p")
  case (Some e)
  obtain c rs where e: "e = (c, rs)" by (cases e)
  show ?thesis
  proof (cases "set_rtt k rtt rs")
    case (Some rs')
    then obtain i where i: "i < length rs"
      and rs': "rs' = rs[i := ((fst (rs ! i))\<lparr>r_rtt := rtt\<rparr>, snd (rs ! i))]"
      by (auto simp: set_rtt_Some_iff)
    define rs'' where "rs'' = (if rt_lb t = LowestLatency then sort_key (r_rtt \<circ> fst) rs' else rs')"
    have same: "mset rs'' = mset rs'" by (simp add: rs''_def)
    then have ss: "set rs'' = set rs'" by (metis set_mset_mset)
    have ok: "route_list_ok (rt_lb t) rs"
      using rt_inv_list [OF assms] \<open>dm_get (rt_routes t) p = Some e\<close> e by simp
    have keys: "tr_keys rs' = tr_keys rs"
      unfolding rs' using i by (intro tr_keys_update) simp_all
    have "mset (tr_keys rs'') = mset (tr_keys rs)" using same keys by (metis mset_map)
    then have "distinct (tr_keys rs'')"
      using ok by (metis distinct_count_atmost_1 route_list_ok_def set_mset_mset)
    moreover have "rs'' \<noteq> []" using same i rs' by auto
    moreover have "route_order (rt_lb t) rs''"
      using ok i by (auto simp: route_order_def route_list_ok_def rs''_def rs' sorted_map_update_same
          split: load_balance.splits)
    ultimately have "route_list_ok (rt_lb t) rs''" by (simp add: route_list_ok_def)
    then have "rt_inv (rt_put p c rs'' t)"
      using assms
    proof (intro rt_inv_put)
      fix k' assume "has_direct t p k'"
      then have "\<exists>e \<in> set rs. r_key (fst e) = k' \<and> is_direct (fst e)"
        using \<open>dm_get (rt_routes t) p = Some e\<close> e by (simp add: has_direct_def)
      then show "\<exists>e \<in> set rs''. r_key (fst e) = k' \<and> is_direct (fst e)"
        unfolding ss rs' using i by (intro direct_update) (auto simp: is_direct_def)
    qed
    then show ?thesis using \<open>dm_get (rt_routes t) p = Some e\<close> e Some
      by (simp add: update_rtt_def rs''_def)
  qed (use assms Some e in \<open>simp add: update_rtt_def\<close>)
qed (simp add: update_rtt_def assms)

lemma route_order_filter: "route_order lb rs \<Longrightarrow> route_order lb (filter P rs)"
  by (simp add: route_order_def sorted_filter split: load_balance.splits)

lemma lists_ok_remove: "lists_ok t \<Longrightarrow> lists_ok (t\<lparr>rt_routes := dm_remove p (rt_routes t), rt_keys := ks\<rparr>)"
  by (auto simp: lists_ok_def split: if_splits)

lemma lists_ok_put:
  "lists_ok t \<Longrightarrow> route_list_ok (rt_lb t) rs \<Longrightarrow>
     lists_ok (t\<lparr>rt_routes := dm_insert p (c, rs) (rt_routes t), rt_keys := ks\<rparr>)"
  by (auto simp: lists_ok_def split: if_splits)

lemma has_direct_keys [simp]: "has_direct (t\<lparr>rt_keys := ks\<rparr>) p k = has_direct t p k"
  by (simp add: has_direct_def)

lemma has_direct_removed [simp]:
  "has_direct (t\<lparr>rt_routes := dm_remove p (rt_routes t)\<rparr>) q k \<longleftrightarrow> q \<noteq> p \<and> has_direct t q k"
  by (simp add: has_direct_def)

lemma has_direct_put [simp]:
  "has_direct (rt_put p c rs t) q k \<longleftrightarrow>
     (if q = p then \<exists>e \<in> set rs. r_key (fst e) = k \<and> is_direct (fst e) else has_direct t q k)"
  by (simp add: has_direct_def)

lemma has_direct_remove_route:
  "has_direct (remove_route p k t) q k' \<longleftrightarrow> has_direct t q k' \<and> \<not> (q = p \<and> k' = k)"
proof (cases "dm_get (rt_routes t) p")
  case None
  then show ?thesis by (auto simp: remove_route_def has_direct_def)
next
  case (Some e)
  obtain c rs where e: "e = (c, rs)" by (cases e)
  have p: "has_direct t p k' \<longleftrightarrow> (\<exists>e \<in> set rs. r_key (fst e) = k' \<and> is_direct (fst e))"
    using Some e by (simp add: has_direct_def)
  have none: "filter (\<lambda>(r, _). r_key r \<noteq> k) rs = [] \<longleftrightarrow> (\<forall>e \<in> set rs. r_key (fst e) = k)"
    by (auto simp: filter_empty_conv)
  show ?thesis
    using Some e p none by (cases "q = p") (fastforce simp: remove_route_def Let_def)+
qed

lemma lists_ok_remove_route: assumes "lists_ok t" shows "lists_ok (remove_route p k t)"
proof -
  have "route_list_ok (rt_lb t) (filter (\<lambda>(r, _). r_key r \<noteq> k) rs)"
    if "dm_get (rt_routes t) p = Some (c, rs)" "filter (\<lambda>(r, _). r_key r \<noteq> k) rs \<noteq> []" for c rs
    using assms that by (auto simp: lists_ok_def route_list_ok_def route_order_filter distinct_map_filter)
  with assms show ?thesis
    unfolding remove_route_def
    by (auto simp: Let_def lists_ok_remove lists_ok_put split: option.split)
qed

lemma rt_inv_remove_route: assumes "rt_inv t" shows "rt_inv (remove_route p k t)"
proof -
  have "dm_get (rt_keys (remove_route p k t)) k' = Some q \<Longrightarrow>
      dm_get (rt_keys t) k' = Some q \<and> (q = p \<and> k' = k \<longrightarrow> \<not> has_direct t p k)" for k' q
    by (auto simp: remove_route_def Let_def has_direct_def split: option.splits if_splits)
  with assms show ?thesis
    by (auto simp: rt_inv_def lists_ok_remove_route owners_ok_def has_direct_remove_route)
qed

lemma remove_owned_get:
  "dm_get (foldl (\<lambda>ks (r, _). if is_direct r then dm_remove_if (r_key r) (\<lambda>q. q = p) ks else ks) ks rs) k
   = (if dm_get ks k = Some p \<and> (\<exists>e \<in> set rs. r_key (fst e) = k \<and> is_direct (fst e))
      then None else dm_get ks k)"
proof (induction rs arbitrary: ks)
  case (Cons e rs)
  show ?case by (cases e) (auto simp: Cons)
qed simp

lemma owner_remove_all:
  assumes "owners_ok t" and "dm_get (rt_keys (remove_all p t)) k = Some q"
  shows "q \<noteq> p \<and> dm_get (rt_keys t) k = Some q"
proof (cases "dm_get (rt_routes t) p")
  case None
  with assms show ?thesis by (fastforce simp: remove_all_def owners_ok_def has_direct_def)
next
  case (Some e)
  obtain c rs where e: "e = (c, rs)" by (cases e)
  have "dm_get (rt_keys t) k = Some p \<Longrightarrow> has_direct t p k" using assms(1) by (simp add: owners_ok_def)
  with assms(2) Some e show ?thesis
    by (auto simp: remove_all_def remove_owned_get has_direct_def split: if_splits)
qed

lemma rt_inv_remove_all: assumes "rt_inv t" shows "rt_inv (remove_all p t)"
proof -
  have same: "q \<noteq> p \<Longrightarrow> has_direct (remove_all p t) q k = has_direct t q k" for q k
    by (auto simp: remove_all_def split: option.split)
  have "owners_ok (remove_all p t)"
    unfolding owners_ok_def
  proof (intro allI impI)
    fix k q assume q: "dm_get (rt_keys (remove_all p t)) k = Some q"
    from assms have "owners_ok t" by (simp add: rt_inv_def)
    from owner_remove_all [OF this q] assms show "has_direct (remove_all p t) q k" by (simp add: same rt_inv_def owners_ok_def)
  qed
  moreover have "lists_ok (remove_all p t)"
    using assms by (auto simp: rt_inv_def remove_all_def lists_ok_remove split: option.split)
  ultimately show ?thesis by (simp add: rt_inv_def)
qed

lemma rt_inv_get_route: assumes "rt_inv t" shows "rt_inv (snd (get_route_by_id t p))"
proof -
  have "rt_inv (rt_put p c rs t)" if "dm_get (rt_routes t) p = Some (c', rs)" for c c' rs
    using assms that rt_inv_list [OF assms that]
    by (intro rt_inv_put) (auto simp: has_direct_def)
  with assms show ?thesis
    unfolding get_route_by_id_def by (auto simp: Let_def split: option.splits list.splits)
qed

text \<open>What \<open>add_route_impl\<close> leaves in the peer's list, by the outcome of its scan.\<close>

definition peer_entry :: "'p route_table \<Rightarrow> 'p \<Rightarrow> u64 \<times> timed_routes" where
  "peer_entry t p = (case dm_get (rt_routes t) p of None \<Rightarrow> (0, []) | Some e \<Rightarrow> e)"

lemma add_route_impl_cases:
  assumes "add_route_impl now p r b t = (ok, t')" and "peer_entry t p = (c, rs)"
  obtains (touched) i where "ok" "dm_get (rt_routes t) p = Some (c, rs)" "i < length rs"
      "r_key (fst (rs ! i)) = r_key r" "b \<or> is_direct (fst (rs ! i)) \<and> \<not> is_direct r"
      "t' = rt_put p c (rs[i := (fst (rs ! i), now)]) t"
    | (rejected) "\<not> ok" "dm_get (rt_routes t) p = Some (c, rs)" "t' = rt_put p c rs t"
      "rt_lb t \<noteq> LowestLatency" "add_route_scan (rt_lb t) b r now rs = ScanReject"
    | (updated) i where "ok" "dm_get (rt_routes t) p = Some (c, rs)" "i < length rs" "\<not> b"
      "r_key (fst (rs ! i)) = r_key r" "\<not> (is_direct (fst (rs ! i)) \<and> \<not> is_direct r)"
      "t' = rt_put p c (reorder (rt_lb t) i (rs[i := (merge_route r (fst (rs ! i)), now)])) t"
    | (pushed) "ok" "r_key r \<notin> set (tr_keys rs)"
      "t' = (rt_put p c (reorder (rt_lb t) (length rs) (rs @ [(r, now)])) t)
         \<lparr>rt_keys := if is_direct r then dm_insert (r_key r) p (rt_keys t) else rt_keys t\<rparr>"
proof -
  have pe: "dm_get (rt_routes t) p = Some (c, rs) \<or> dm_get (rt_routes t) p = None \<and> c = 0 \<and> rs = []"
    using assms(2) by (auto simp: peer_entry_def split: option.splits)
  show ?thesis
  proof (cases "b \<and> r_key r \<in> set (tr_keys rs)")
    case True
    with pe obtain rs' where t: "dm_get (rt_routes t) p = Some (c, rs)" "touch (r_key r) now rs = Some rs'"
      by (cases "touch (r_key r) now rs") (auto simp: touch_None_iff)
    with True assms(1) have "ok" "t' = rt_put p c rs' t" by (auto simp: add_route_impl_def)
    with t True touched show ?thesis by (auto simp: touch_Some_iff)
  next
    case False
    then have known: "(if b then (case dm_get (rt_routes t) p of None \<Rightarrow> None
        | Some (cnt, routes) \<Rightarrow> map_option (Pair cnt) (touch (r_key r) now routes)) else None) = None"
      using pe by (auto simp: touch_None_iff)
    show ?thesis
    proof (cases "add_route_scan (rt_lb t) b r now rs")
      case ScanReject
      with known assms pe scan_reject [OF ScanReject] show ?thesis
        by (intro rejected) (auto simp: add_route_impl_def peer_entry_def)
    next
      case (ScanReturn rs')
      with known assms pe scan_return [OF ScanReturn] show ?thesis
        by (auto simp: add_route_impl_def peer_entry_def intro: touched)
    next
      case (ScanUpdated i rs')
      with known assms pe scan_updated [OF ScanUpdated] show ?thesis
        by (intro updated [of i]) (auto simp: add_route_impl_def peer_entry_def)
    next
      case ScanAbsent
      with known assms pe scan_absent [OF ScanAbsent] show ?thesis
        by (intro pushed) (auto simp: add_route_impl_def peer_entry_def)
    qed
  qed
qed

lemma rt_inv_add_route_impl: assumes inv: "rt_inv t" shows "rt_inv (snd (add_route_impl now p r b t))"
proof -
  obtain ok t' c rs where a: "add_route_impl now p r b t = (ok, t')" and pe: "peer_entry t p = (c, rs)"
    by (metis surj_pair)
  from a pe have "rt_inv t'"
  proof (cases rule: add_route_impl_cases)
    case (touched i)
    with inv show ?thesis by (simp add: rt_inv_touch)
  next
    case rejected
    with inv show ?thesis
      using rt_inv_list [OF inv rejected(2)] by (auto simp: has_direct_def intro!: rt_inv_put)
  next
    case (updated i)
    let ?rs = "rs[i := (merge_route r (fst (rs ! i)), now)]"
    have ok: "route_list_ok (rt_lb t) rs" by (rule rt_inv_list [OF inv updated(2)])
    have i: "?rs \<noteq> []" "i < length ?rs" using updated(3) by auto
    have "tr_keys ?rs = tr_keys rs" using updated(3) by (intro tr_keys_update) simp_all
    with ok have "route_list_ok (rt_lb t) (reorder (rt_lb t) i ?rs)"
      using reorder_preserves(2,3) [OF i] by (simp add: route_list_ok_def)
    then show ?thesis unfolding updated(7)
    proof (intro rt_inv_put inv)
      fix k assume "has_direct t p k"
      then have "\<exists>e \<in> set rs. r_key (fst e) = k \<and> is_direct (fst e)"
        using updated(2) by (simp add: has_direct_def)
      then show "\<exists>e \<in> set (reorder (rt_lb t) i ?rs). r_key (fst e) = k \<and> is_direct (fst e)"
        unfolding reorder_preserves(1) [OF i] using updated(3,6)
        by (intro direct_update) auto
    qed
  next
    case pushed
    let ?rs = "rs @ [(r, now)]"
    have i: "?rs \<noteq> []" "length rs < length ?rs" by auto
    have "distinct (tr_keys rs)"
      using pe rt_inv_list [OF inv] by (auto simp: peer_entry_def route_list_ok_def split: option.splits)
    with pushed(2) have ok: "route_list_ok (rt_lb t) (reorder (rt_lb t) (length rs) ?rs)"
      using reorder_preserves(2,3) [OF i] by (simp add: route_list_ok_def)
    have "rt_inv (rt_put p c (reorder (rt_lb t) (length rs) ?rs) t)"
      unfolding reorder_preserves(1) [OF i] using pe
      by (intro rt_inv_put inv ok, unfold reorder_preserves(1) [OF i])
        (auto simp: has_direct_def peer_entry_def split: option.splits)
    then show ?thesis
      unfolding pushed(3) rt_inv_def owners_ok_def lists_ok_def
      by (auto simp: reorder_preserves(1) [OF i] split: if_splits)
  qed
  with a show ?thesis by simp
qed

lemma rt_inv_step: "rt_step t t' \<Longrightarrow> rt_inv t \<Longrightarrow> rt_inv t'"
  by (erule rt_stepE)
    (simp_all add: add_route_def add_route_if_absent_def rt_inv_add_route_impl rt_inv_update_read_time
      rt_inv_update_rtt rt_inv_remove_route rt_inv_remove_all rt_inv_get_route)

lemma add_route_impl_lb: "rt_lb (snd (add_route_impl now p r b t)) = rt_lb t"
proof -
  obtain ok t' c rs where a: "add_route_impl now p r b t = (ok, t')" and pe: "peer_entry t p = (c, rs)"
    by (metis surj_pair)
  from a pe have "rt_lb t' = rt_lb t" by (cases rule: add_route_impl_cases) auto
  with a show ?thesis by simp
qed

lemma rt_step_lb: "rt_step t t' \<Longrightarrow> rt_lb t' = rt_lb t"
  by (erule rt_stepE)
    (auto simp: add_route_def add_route_if_absent_def add_route_impl_lb update_read_time_def
      update_rtt_def remove_route_def remove_all_def get_route_by_id_def Let_def
      split: option.split list.split)

lemma route_table_new_lb [simp]: "rt_lb (route_table_new lb) = lb"
  by (simp add: route_table_new_def)

lemma reachable_inv: "rt_reachable lb t \<Longrightarrow> rt_inv t \<and> rt_lb t = lb"
  by (induction rule: rt_reachable.induct) (use rt_inv_step rt_step_lb in \<open>auto simp: rt_inv_new\<close>)

section \<open>The routes of a peer\<close>

text \<open>The abstract value of a table: the set of routes of each peer.\<close>

definition peer_routes :: "'p route_table \<Rightarrow> 'p \<Rightarrow> route set" where
  "peer_routes t p = (case dm_get (rt_routes t) p of None \<Rightarrow> {} | Some (_, rs) \<Rightarrow> fst ` set rs)"

lemma peer_routes_put [simp]:
  "peer_routes (rt_put p c rs t) q = (if q = p then fst ` set rs else peer_routes t q)"
  by (simp add: peer_routes_def)

lemma peer_routes_keys [simp]: "peer_routes (t\<lparr>rt_keys := ks\<rparr>) q = peer_routes t q"
  by (simp add: peer_routes_def)

lemma peer_routes_removed [simp]:
  "peer_routes (t\<lparr>rt_routes := dm_remove p (rt_routes t)\<rparr>) q = (if q = p then {} else peer_routes t q)"
  by (simp add: peer_routes_def)

lemma peer_routes_get: "dm_get (rt_routes t) p = Some (c, rs) \<Longrightarrow> peer_routes t p = fst ` set rs"
  by (simp add: peer_routes_def)

lemma peer_routes_put_same:
  "dm_get (rt_routes t) p = Some (c, rs) \<Longrightarrow> fst ` set rs' = fst ` set rs \<Longrightarrow>
     peer_routes (rt_put p c' rs' t) q = peer_routes t q"
  by (simp add: peer_routes_def)

lemma peer_routes_entry: "peer_entry t p = (c, rs) \<Longrightarrow> peer_routes t p = fst ` set rs"
  by (auto simp: peer_entry_def peer_routes_def split: option.splits)

lemma has_direct_routes: "has_direct t p k \<longleftrightarrow> (\<exists>r \<in> peer_routes t p. r_key r = k \<and> is_direct r)"
  by (auto simp: has_direct_def peer_routes_def split: option.split)

lemma fst_set_update:
  "i < length rs \<Longrightarrow> fst ` set (rs[i := (fst (rs ! i), n)]) = fst ` set rs"
  by (metis fst_conv list.set_map sorted_map_update_same)

lemma peer_routes_remove_route:
  "peer_routes (remove_route p k t) q =
     (if q = p then {r \<in> peer_routes t p. r_key r \<noteq> k} else peer_routes t q)"
proof (cases "dm_get (rt_routes t) p")
  case None
  then show ?thesis by (auto simp: remove_route_def peer_routes_def)
next
  case (Some e)
  obtain c rs where e: "e = (c, rs)" by (cases e)
  define rs' where "rs' = filter (\<lambda>(r, _). r_key r \<noteq> k) rs"
  have "fst ` set rs' = {r \<in> fst ` set rs. r_key r \<noteq> k}"
    unfolding rs'_def by force
  with Some e have "fst ` set rs' = {r \<in> peer_routes t p. r_key r \<noteq> k}"
    by (simp add: peer_routes_get)
  with Some e show ?thesis
    by (cases "rs' = []") (simp_all add: remove_route_def Let_def flip: rs'_def)
qed

lemma peer_routes_remove_all:
  "peer_routes (remove_all p t) q = (if q = p then {} else peer_routes t q)"
  by (cases "dm_get (rt_routes t) p") (simp_all add: remove_all_def peer_routes_def case_prod_beta)

definition with_rtt :: "route_key \<Rightarrow> u32 \<Rightarrow> route \<Rightarrow> route" where
  "with_rtt k rtt r = (if r_key r = k then r\<lparr>r_rtt := rtt\<rparr> else r)"

lemma with_rtt_id: "k \<notin> set (tr_keys rs) \<Longrightarrow> with_rtt k rtt ` fst ` set rs = fst ` set rs"
  by (force simp: with_rtt_def image_image)

lemma set_rtt_routes:
  assumes "distinct (tr_keys rs)" and "set_rtt k rtt rs = Some rs'"
  shows "fst ` set rs' = with_rtt k rtt ` fst ` set rs"
  using assms
proof (induction k rtt rs arbitrary: rs' rule: set_rtt.induct)
  case (2 k rtt r time rs)
  show ?case
  proof (cases "r_key r = k")
    case True
    with 2(2) have "with_rtt k rtt ` fst ` set rs = fst ` set rs" by (intro with_rtt_id) auto
    with 2(3) True show ?thesis by (auto simp: with_rtt_def)
  next
    case False
    with 2(3) obtain rs'' where "set_rtt k rtt rs = Some rs''" and rs': "rs' = (r, time) # rs''" by auto
    with 2 False have "fst ` set rs'' = with_rtt k rtt ` fst ` set rs" by simp
    with False rs' show ?thesis by (simp add: with_rtt_def)
  qed
qed simp

lemma set_rtt_None_iff: "set_rtt k rtt rs = None \<longleftrightarrow> k \<notin> set (tr_keys rs)"
  by (induction k rtt rs rule: set_rtt.induct) auto

lemma peer_routes_update_rtt:
  assumes "rt_inv t"
  shows "peer_routes (update_rtt p k rtt t) q =
     (if q = p then with_rtt k rtt ` peer_routes t p else peer_routes t q)"
proof (cases "dm_get (rt_routes t) p")
  case None
  then show ?thesis by (simp add: update_rtt_def peer_routes_def)
next
  case (Some e)
  obtain c rs where e: "e = (c, rs)" by (cases e)
  with Some assms have d: "distinct (tr_keys rs)"
    by (auto dest: rt_inv_list simp: route_list_ok_def)
  show ?thesis
  proof (cases "set_rtt k rtt rs")
    case None
    then have "with_rtt k rtt ` fst ` set rs = fst ` set rs"
      by (intro with_rtt_id) (simp add: set_rtt_None_iff)
    with None Some e show ?thesis by (simp add: update_rtt_def peer_routes_get)
  next
    case (Some rs')
    with \<open>dm_get (rt_routes t) p = Some e\<close> e set_rtt_routes [OF d Some] show ?thesis
      by (simp add: update_rtt_def peer_routes_get)
  qed
qed

lemma peer_routes_get_route [simp]: "peer_routes (snd (get_route_by_id t p)) q = peer_routes t q"
  by (auto simp: get_route_by_id_def Let_def peer_routes_put_same simp del: peer_routes_put
      split: option.split list.split)

lemma peer_routes_read_time [simp]: "peer_routes (snd (update_read_time now p k t)) q = peer_routes t q"
  by (auto simp: update_read_time_def touch_Some_iff fst_set_update peer_routes_put_same
      simp del: peer_routes_put split: option.split)

end
