(* ===== verification/Route_Selection.thy ===== *)
theory Route_Selection
  imports Route_Table
begin

text \<open>
  What the clients of the route table rely on: the store contract (a locale, with the
  survival of direct routes proved from its laws and interpreted on the model), route
  selection for each load-balancing strategy, the ownership view, and the idle poll.
\<close>

section \<open>The store contract\<close>

datatype 'p store_op =
    StoreAdd instant 'p route
  | StoreRemove 'p route_key
  | StoreRemoveAll 'p
  | StoreRtt 'p route_key u32

fun store_exec ::
  "(instant \<Rightarrow> 'p \<Rightarrow> route \<Rightarrow> 't \<Rightarrow> bool \<times> 't) \<Rightarrow> ('p \<Rightarrow> route_key \<Rightarrow> 't \<Rightarrow> 't) \<Rightarrow> ('p \<Rightarrow> 't \<Rightarrow> 't)
     \<Rightarrow> ('p \<Rightarrow> route_key \<Rightarrow> u32 \<Rightarrow> 't \<Rightarrow> 't) \<Rightarrow> 'p store_op \<Rightarrow> 't \<Rightarrow> 't" where
  "store_exec add rem rem_all rtt (StoreAdd now p r) t = snd (add now p r t)"
| "store_exec add rem rem_all rtt (StoreRemove p k) t = rem p k t"
| "store_exec add rem rem_all rtt (StoreRemoveAll p) t = rem_all p t"
| "store_exec add rem rem_all rtt (StoreRtt p k d) t = rtt p k d t"

text \<open>Whether an operation takes the route \<open>k\<close> of peer \<open>p\<close> away.\<close>

fun store_drops :: "'p \<Rightarrow> route_key \<Rightarrow> 'p store_op \<Rightarrow> bool" where
  "store_drops p k (StoreRemove q k') \<longleftrightarrow> q = p \<and> k' = k"
| "store_drops p k (StoreRemoveAll q) \<longleftrightarrow> q = p"
| "store_drops p k _ \<longleftrightarrow> False"

definition direct_in :: "route set \<Rightarrow> route_key \<Rightarrow> bool" where
  "direct_in R k \<longleftrightarrow> (\<exists>r \<in> R. r_key r = k \<and> is_direct r)"

locale route_store =
  fixes routes :: "'t \<Rightarrow> 'p \<Rightarrow> route set"
    and add :: "instant \<Rightarrow> 'p \<Rightarrow> route \<Rightarrow> 't \<Rightarrow> bool \<times> 't"
    and rem :: "'p \<Rightarrow> route_key \<Rightarrow> 't \<Rightarrow> 't"
    and rem_all :: "'p \<Rightarrow> 't \<Rightarrow> 't"
    and rtt :: "'p \<Rightarrow> route_key \<Rightarrow> u32 \<Rightarrow> 't \<Rightarrow> 't"
    and inv :: "'t \<Rightarrow> bool"
  assumes inv_exec: "inv t \<Longrightarrow> inv (store_exec add rem rem_all rtt op t)"
    and add_other: "q \<noteq> p \<Longrightarrow> routes (snd (add now p r t)) q = routes t q"
    and add_present: "fst (add now p r t) \<Longrightarrow> \<exists>x \<in> routes (snd (add now p r t)) p. r_key x = r_key r"
    and add_direct: "is_direct r \<Longrightarrow> direct_in (routes (snd (add now p r t)) p) (r_key r)"
    and add_keeps_direct: "direct_in (routes t p) k \<Longrightarrow> direct_in (routes (snd (add now q r t)) p) k"
    and add_refused: "\<not> fst (add now p r t) \<Longrightarrow> routes (snd (add now p r t)) = routes t"
    and routes_rem: "routes (rem p k t) q = (if q = p then {r \<in> routes t p. r_key r \<noteq> k} else routes t q)"
    and routes_rem_all: "routes (rem_all p t) q = (if q = p then {} else routes t q)"
    and routes_rtt: "inv t \<Longrightarrow>
      routes (rtt p k d t) q = (if q = p then with_rtt k d ` routes t p else routes t q)"
begin

lemma inv_run: "inv t \<Longrightarrow> inv (fold (store_exec add rem rem_all rtt) ops t)"
  by (induction ops arbitrary: t) (auto intro: inv_exec)

lemma exec_keeps_direct:
  assumes "inv t" and "direct_in (routes t p) k" and "\<not> store_drops p k op"
  shows "direct_in (routes (store_exec add rem rem_all rtt op t) p) k"
proof (cases op)
  case (StoreRemove q k')
  with assms show ?thesis by (auto simp: routes_rem direct_in_def)
next
  case (StoreRtt q k' d)
  from assms(2) obtain r where r: "r \<in> routes t p" "r_key r = k" "is_direct r"
    by (auto simp: direct_in_def)
  then have "with_rtt k' d r \<in> with_rtt k' d ` routes t p" "r_key (with_rtt k' d r) = k"
    "is_direct (with_rtt k' d r)"
    by (auto simp: with_rtt_def is_direct_def)
  with r StoreRtt assms(1) show ?thesis by (auto simp: routes_rtt direct_in_def)
qed (use assms in \<open>auto simp: add_keeps_direct routes_rem_all\<close>)

text \<open>A direct route stays until the store is told to remove it.\<close>

lemma direct_survives:
  assumes "inv t" and "direct_in (routes t p) k" and "\<forall>op \<in> set ops. \<not> store_drops p k op"
  shows "direct_in (routes (fold (store_exec add rem rem_all rtt) ops t) p) k"
  using assms
proof (induction ops arbitrary: t)
  case (Cons op ops)
  have "direct_in (routes (store_exec add rem rem_all rtt op t) p) k"
    using Cons.prems by (intro exec_keeps_direct) auto
  with Cons show ?case by (simp add: inv_exec)
qed simp

lemma removed_is_gone: "\<not> direct_in (routes (rem p k t) p) k"
  by (auto simp: routes_rem direct_in_def)

end

lemma direct_scan_not_rejected:
  "is_direct r \<Longrightarrow> add_route_scan lb b r now rs \<noteq> ScanReject"
  using scan_reject [of lb b r now rs] by (auto simp: is_relay_iff)

lemma direct_in_keys: "direct_in (peer_routes t p) k \<longleftrightarrow> has_direct t p k"
  by (simp add: direct_in_def has_direct_routes)

lemma direct_in_set:
  "direct_in (fst ` set rs) k \<longleftrightarrow> (\<exists>e \<in> set rs. r_key (fst e) = k \<and> is_direct (fst e))"
  by (auto simp: direct_in_def)

lemma add_route_updates:
  assumes "add_route_impl now p r b t = (ok, t')"
  shows "q \<noteq> p \<Longrightarrow> peer_routes t' q = peer_routes t q"
    and "\<not> ok \<Longrightarrow> peer_routes t' = peer_routes t"
    and "ok \<Longrightarrow> \<exists>x \<in> peer_routes t' p. r_key x = r_key r"
    and "direct_in (peer_routes t p) k \<Longrightarrow> direct_in (peer_routes t' p) k"
    and "\<not> b \<Longrightarrow> is_direct r \<Longrightarrow> ok \<and> direct_in (peer_routes t' p) (r_key r)"
proof -
  obtain c rs where pe: "peer_entry t p = (c, rs)" by (metis surj_pair)
  have main: "(q \<noteq> p \<longrightarrow> peer_routes t' q = peer_routes t q)
    \<and> (\<not> ok \<longrightarrow> peer_routes t' = peer_routes t)
    \<and> (ok \<longrightarrow> (\<exists>x \<in> peer_routes t' p. r_key x = r_key r))
    \<and> (direct_in (peer_routes t p) k \<longrightarrow> direct_in (peer_routes t' p) k)
    \<and> (\<not> b \<longrightarrow> is_direct r \<longrightarrow> ok \<and> direct_in (peer_routes t' p) (r_key r))"
    using assms pe
  proof (cases rule: add_route_impl_cases)
    case (touched i)
    have "peer_routes t' q = peer_routes t q" for q
      unfolding touched(6) using touched(2,3) by (intro peer_routes_put_same) (auto simp: fst_set_update)
    moreover have "fst (rs ! i) \<in> peer_routes t p"
      using touched(2,3) by (simp add: peer_routes_get)
    ultimately show ?thesis using touched(1,4,5) by auto
  next
    case rejected
    have "peer_routes t' q = peer_routes t q" for q
      unfolding rejected(3) using rejected(2) by (intro peer_routes_put_same) auto
    with rejected(1,5) direct_scan_not_rejected show ?thesis by auto
  next
    case (updated i)
    let ?rs = "rs[i := (merge_route r (fst (rs ! i)), now)]"
    have i: "?rs \<noteq> []" "i < length ?rs" using updated(3) by auto
    have p: "peer_routes t' p = fst ` set ?rs"
      unfolding updated(7) by (simp add: reorder_preserves(1) [OF i])
    have "(merge_route r (fst (rs ! i)), now) \<in> set ?rs" using updated(3) by (simp add: set_update_memI)
    then have m: "merge_route r (fst (rs ! i)) \<in> peer_routes t' p" unfolding p by force
    moreover have "direct_in (peer_routes t p) k \<Longrightarrow> direct_in (peer_routes t' p) k"
      unfolding p peer_routes_entry [OF pe] direct_in_set using updated(3,6)
      by (intro direct_update) auto
    moreover have "q \<noteq> p \<Longrightarrow> peer_routes t' q = peer_routes t q" unfolding updated(7) by simp
    moreover have "is_direct r \<Longrightarrow> direct_in (peer_routes t' p) (r_key r)"
      unfolding direct_in_def using m updated(5) by (intro bexI [OF _ m]) simp
    moreover have "\<exists>x \<in> peer_routes t' p. r_key x = r_key r"
      using updated(5) by (intro bexI [OF _ m]) simp
    ultimately show ?thesis using updated(1) by auto
  next
    case pushed
    have i: "rs @ [(r, now)] \<noteq> []" "length rs < length (rs @ [(r, now)])" by auto
    have "peer_routes t' p = insert r (peer_routes t p)"
      unfolding pushed(3) peer_routes_entry [OF pe] by (simp add: reorder_preserves(1) [OF i])
    with pushed show ?thesis by (auto simp: direct_in_def)
  qed
  from main show "q \<noteq> p \<Longrightarrow> peer_routes t' q = peer_routes t q"
    "\<not> ok \<Longrightarrow> peer_routes t' = peer_routes t" "ok \<Longrightarrow> \<exists>x \<in> peer_routes t' p. r_key x = r_key r"
    "direct_in (peer_routes t p) k \<Longrightarrow> direct_in (peer_routes t' p) k"
    "\<not> b \<Longrightarrow> is_direct r \<Longrightarrow> ok \<and> direct_in (peer_routes t' p) (r_key r)" by blast+
qed

abbreviation rt_exec :: "'p store_op \<Rightarrow> 'p route_table \<Rightarrow> 'p route_table" where
  "rt_exec \<equiv> store_exec add_route remove_route remove_all update_rtt"

lemma rt_exec_step: "rt_step t (rt_exec op t)"
  by (cases op) (simp_all add: rt_step.intros)

interpretation rts: route_store peer_routes add_route remove_route remove_all update_rtt rt_inv
proof unfold_locales
  fix t :: "'p route_table" and op p q now r k d
  show "rt_inv t \<Longrightarrow> rt_inv (rt_exec op t)" using rt_inv_step rt_exec_step by blast
  obtain ok t' where "add_route_impl now p r False t = (ok, t')" by (metis surj_pair)
  note u = add_route_updates [OF this] and this
  then show "q \<noteq> p \<Longrightarrow> peer_routes (snd (add_route now p r t)) q = peer_routes t q"
    "fst (add_route now p r t) \<Longrightarrow> \<exists>x \<in> peer_routes (snd (add_route now p r t)) p. r_key x = r_key r"
    "is_direct r \<Longrightarrow> direct_in (peer_routes (snd (add_route now p r t)) p) (r_key r)"
    "\<not> fst (add_route now p r t) \<Longrightarrow> peer_routes (snd (add_route now p r t)) = peer_routes t"
    by (auto simp: add_route_def)
  obtain ok2 t2 where a: "add_route_impl now q r False t = (ok2, t2)" by (metis surj_pair)
  then show "direct_in (peer_routes t p) k \<Longrightarrow> direct_in (peer_routes (snd (add_route now q r t)) p) k"
    using add_route_updates(1,4) [OF a] by (cases "q = p") (auto simp: add_route_def)
qed (simp_all add: peer_routes_remove_route peer_routes_remove_all peer_routes_update_rtt)

text \<open>Where the routes of a table come from: an addition makes up nothing but the route added.\<close>

lemma add_route_sound:
  assumes "x \<in> peer_routes (snd (add_route now p r t)) q"
  shows "x \<in> peer_routes t q \<or> q = p \<and> r_key x = r_key r \<and> r_metric x = r_metric r"
proof (cases "q = p")
  case True
  obtain ok t' where a: "add_route_impl now p r False t = (ok, t')" by (metis surj_pair)
  obtain c rs where pe: "peer_entry t p = (c, rs)" by (metis surj_pair)
  from assms True a have x: "x \<in> peer_routes t' p" by (simp add: add_route_def)
  from a pe show ?thesis
  proof (cases rule: add_route_impl_cases)
    case (updated i)
    let ?rs = "rs[i := (merge_route r (fst (rs ! i)), now)]"
    have i: "?rs \<noteq> []" "i < length ?rs" using updated(3) by auto
    have "x \<in> fst ` set ?rs" using x unfolding updated(7) by (simp add: reorder_preserves(1) [OF i])
    also have "\<dots> \<subseteq> insert (merge_route r (fst (rs ! i))) (fst ` set rs)"
      using set_update_subset_insert [of rs i] by fastforce
    finally show ?thesis using updated(5) True peer_routes_entry [OF pe] by auto
  next
    case pushed
    have i: "rs @ [(r, now)] \<noteq> []" "length rs < length (rs @ [(r, now)])" by auto
    have "peer_routes t' p = insert r (peer_routes t p)"
      unfolding pushed(3) peer_routes_entry [OF pe] by (simp add: reorder_preserves(1) [OF i])
    with x True show ?thesis by auto
  next
    case (touched i)
    have "peer_routes t' p = peer_routes t p"
      unfolding touched(6) using touched(2,3) by (intro peer_routes_put_same) (auto simp: fst_set_update)
    with x True show ?thesis by simp
  next
    case rejected
    with add_route_updates(2) [OF a] x True show ?thesis by simp
  qed
next
  case False
  have "peer_routes (snd (add_route now p r t)) q = peer_routes t q" by (rule rts.add_other [OF False])
  with assms show ?thesis by simp
qed

lemma has_direct_add_route:
  "has_direct (snd (add_route now p r t)) q k \<longleftrightarrow>
     has_direct t q k \<or> q = p \<and> k = r_key r \<and> is_direct r"
proof -
  have "has_direct t q k \<Longrightarrow> has_direct (snd (add_route now p r t)) q k"
    using rts.add_keeps_direct [of t q k now p r] by (simp add: direct_in_keys)
  moreover have "is_direct r \<Longrightarrow> has_direct (snd (add_route now p r t)) p (r_key r)"
    using rts.add_direct [of r now p t] by (simp add: direct_in_keys)
  moreover have "has_direct (snd (add_route now p r t)) q k \<Longrightarrow>
      has_direct t q k \<or> q = p \<and> k = r_key r \<and> is_direct r"
    unfolding has_direct_routes using add_route_sound [of _ now p r t q]
    by (fastforce simp: is_direct_def)
  ultimately show ?thesis by blast
qed

lemma set_rtt_shape:
  "set_rtt k d rs = Some rs' \<Longrightarrow>
     map (\<lambda>e. (r_key (fst e), r_metric (fst e))) rs' = map (\<lambda>e. (r_key (fst e), r_metric (fst e))) rs"
  by (induction k d rs arbitrary: rs' rule: set_rtt.induct) (auto split: if_split_asm)

lemma direct_shape:
  "(\<exists>e \<in> set rs. r_key (fst e) = k \<and> is_direct (fst e)) \<longleftrightarrow>
     (k, 0) \<in> set (map (\<lambda>e. (r_key (fst e), r_metric (fst e))) rs)"
  by (auto simp: is_direct_def image_iff)

lemma has_direct_update_rtt [simp]: "has_direct (update_rtt p k d t) q k' \<longleftrightarrow> has_direct t q k'"
proof (cases "dm_get (rt_routes t) p")
  case (Some e)
  obtain c rs where e: "e = (c, rs)" by (cases e)
  show ?thesis
  proof (cases "set_rtt k d rs")
    case (Some rs')
    define rs'' where "rs'' = (if rt_lb t = LowestLatency then sort_key (r_rtt \<circ> fst) rs' else rs')"
    have u: "update_rtt p k d t = t\<lparr>rt_routes := dm_insert p (c, rs'') (rt_routes t)\<rparr>"
      using \<open>dm_get (rt_routes t) p = Some e\<close> e Some by (simp add: update_rtt_def rs''_def)
    have "set rs'' = set rs'" by (simp add: rs''_def)
    then have "(\<exists>e \<in> set rs''. r_key (fst e) = k' \<and> is_direct (fst e)) \<longleftrightarrow>
        (\<exists>e \<in> set rs. r_key (fst e) = k' \<and> is_direct (fst e))"
      using set_rtt_shape [OF Some] by (simp only: direct_shape set_map)
    then show ?thesis
      unfolding u using \<open>dm_get (rt_routes t) p = Some e\<close> e by (cases "q = p") (auto simp: has_direct_def)
  qed (use \<open>dm_get (rt_routes t) p = Some e\<close> e in \<open>simp add: update_rtt_def\<close>)
qed (simp add: update_rtt_def)

lemma has_direct_reads [simp]:
  "has_direct (snd (get_route_by_id t p)) q k \<longleftrightarrow> has_direct t q k"
  "has_direct (snd (update_read_time now p k' t)) q k \<longleftrightarrow> has_direct t q k"
  by (simp_all add: has_direct_routes)

section \<open>Selecting a route\<close>

lemma rt_inv_nonempty: "rt_inv t \<Longrightarrow> dm_get (rt_routes t) p = Some (c, rs) \<Longrightarrow> rs \<noteq> []"
  by (auto dest: rt_inv_list simp: route_list_ok_def)

lemma find_direct_None:
  "find (\<lambda>(r, _). is_direct r) rs = None \<longleftrightarrow> (\<forall>r \<in> fst ` set rs. \<not> is_direct r)"
  by (auto simp: find_None_iff)

lemma find_direct_Some:
  "find (\<lambda>(r, _). is_direct r) rs = Some (r, n) \<Longrightarrow> r \<in> fst ` set rs \<and> is_direct r"
  by (force dest: find_SomeD)

lemma sorted_hd_le: "sorted (map f (x # xs)) \<Longrightarrow> y \<in> set (x # xs) \<Longrightarrow> f x \<le> f y"
  by auto

lemma selected_direct:
  assumes "get_route_by_id t p = (Inr r, t')" and "\<exists>x \<in> peer_routes t p. is_direct x"
  shows "r \<in> peer_routes t p \<and> is_direct r \<and> t' = t"
proof -
  from assms(2) obtain c rs where e: "dm_get (rt_routes t) p = Some (c, rs)"
    and ex: "\<exists>x \<in> fst ` set rs. is_direct x"
    by (auto simp: peer_routes_def split: option.splits)
  then obtain x n where f: "find (\<lambda>(r, _). is_direct r) rs = Some (x, n)"
    using find_direct_None [of rs] by (cases "find (\<lambda>(r, _). is_direct r) rs") auto
  with assms(1) e find_direct_Some [OF f] show ?thesis
    by (auto simp: get_route_by_id_def peer_routes_get)
qed

lemma selected_entry:
  assumes "get_route_by_id t p = (Inr r, t')"
  obtains c rs where "dm_get (rt_routes t) p = Some (c, rs)"
  using assms by (cases "dm_get (rt_routes t) p") (auto simp: get_route_by_id_def)

lemma selected_head:
  assumes "rt_inv t" and "get_route_by_id t p = (Inr r, t')" and "rt_lb t \<noteq> RoundRobin"
    and "\<forall>x \<in> peer_routes t p. \<not> is_direct x"
  obtains c n rs where "dm_get (rt_routes t) p = Some (c, (r, n) # rs)" and "t' = t"
proof -
  from assms(2) obtain c rs where e: "dm_get (rt_routes t) p = Some (c, rs)"
    by (rule selected_entry)
  with assms(4) have f: "find (\<lambda>(r, _). is_direct r) rs = None"
    unfolding find_direct_None by (simp add: peer_routes_get)
  with e assms(2,3) obtain n rs' where "rs = (r, n) # rs'" "t' = t"
    by (cases rs) (auto simp: get_route_by_id_def)
  with e show ?thesis by (auto intro: that)
qed

lemma selected_minimal:
  assumes "rt_inv t" and "get_route_by_id t p = (Inr r, t')" and "rt_lb t \<noteq> RoundRobin"
    and "\<not> (\<exists>x \<in> peer_routes t p. is_direct x)" and "x \<in> peer_routes t p"
    and ord: "\<And>c rs. dm_get (rt_routes t) p = Some (c, rs) \<Longrightarrow> sorted (map (f \<circ> fst) rs)"
  shows "f r \<le> f x"
proof -
  obtain c n rs where e: "dm_get (rt_routes t) p = Some (c, (r, n) # rs)"
    by (rule selected_head [OF assms(1-3)]) (use assms(4) in auto)
  with assms(5) ord [OF e] show ?thesis by (auto simp: peer_routes_get [OF e])
qed

lemma selected_in_routes:
  assumes "get_route_by_id t p = (Inr r, t')" shows "r \<in> peer_routes t p"
proof -
  from assms obtain c rs where e: "dm_get (rt_routes t) p = Some (c, rs)"
    by (rule selected_entry)
  have idx: "rs \<noteq> [] \<Longrightarrow> fst (rs ! (unat c mod length rs)) \<in> fst ` set rs" by simp
  show ?thesis
  proof (cases "find (\<lambda>(r, _). is_direct r) rs")
    case None
    with assms e idx show ?thesis
      by (cases rs) (auto simp: get_route_by_id_def Let_def peer_routes_get split: if_splits)
  next
    case (Some x)
    with assms e find_direct_Some [of rs "fst x" "snd x"] show ?thesis
      by (cases x) (auto simp: get_route_by_id_def peer_routes_get)
  qed
qed

text \<open>\<open>n\<close> consecutive calls of \<open>get_route_by_id\<close>.\<close>

fun get_routes :: "nat \<Rightarrow> 'p \<Rightarrow> 'p route_table \<Rightarrow> route io_result list \<times> 'p route_table" where
  "get_routes 0 p t = ([], t)"
| "get_routes (Suc n) p t =
     (let (r, t') = get_route_by_id t p; (rs, t'') = get_routes n p t' in (r # rs, t''))"

lemma get_routes_round_robin:
  assumes "rt_lb t = RoundRobin" and "dm_get (rt_routes t) p = Some (c, rs)" and "rs \<noteq> []"
    and "find (\<lambda>(r, _). is_direct r) rs = None" and "unat c + n \<le> 2 ^ 64"
  shows "fst (get_routes n p t)
    = map (\<lambda>i. Inr (fst (rs ! (i mod length rs)))) [unat c ..< unat c + n]"
  using assms
proof (induction n arbitrary: t c)
  case (Suc n)
  let ?t = "rt_put p (c + 1) rs t"
  have g: "get_route_by_id t p = (Inr (fst (rs ! (unat c mod length rs))), ?t)"
    using Suc.prems by (simp add: get_route_by_id_def)
  show ?case
  proof (cases n)
    case 0
    with g show ?thesis by simp
  next
    case (Suc m)
    with Suc.prems(5) have "unat (c + 1) = unat c + 1" by (simp add: unat_word_ariths)
    then have "fst (get_routes n p ?t)
        = map (\<lambda>i. Inr (fst (rs ! (i mod length rs)))) [Suc (unat c) ..< unat c + Suc n]"
      using Suc.IH [of ?t "c + 1"] Suc.prems by simp
    moreover have "[unat c ..< unat c + Suc n] = unat c # [Suc (unat c) ..< unat c + Suc n]"
      by (simp add: upt_conv_Cons)
    ultimately show ?thesis using g by (simp add: case_prod_beta)
  qed
qed simp

lemma mod_range_permutation:
  assumes "0 < (n::nat)" shows "mset (map (\<lambda>i. i mod n) [a ..< a + n]) = mset [0 ..< n]"
proof -
  have inj: "inj_on (\<lambda>i. i mod n) {a ..< a + n}"
  proof (rule linorder_inj_onI')
    fix x y assume "x \<in> {a ..< a + n}" "y \<in> {a ..< a + n}" "x < y"
    then have "0 < y - x" "y - x < n" by auto
    then have "\<not> n dvd y - x" by (auto dest: dvd_imp_le)
    with \<open>x < y\<close> show "x mod n \<noteq> y mod n" using mod_eq_dvd_iff_nat [of x y n] by auto
  qed
  then have d: "distinct (map (\<lambda>i. i mod n) [a ..< a + n])" by (simp add: distinct_map)
  moreover have "(\<lambda>i. i mod n) ` {a ..< a + n} \<subseteq> {0 ..< n}" using assms by auto
  then have "(\<lambda>i. i mod n) ` {a ..< a + n} = {0 ..< n}"
    using inj by (intro card_subset_eq) (auto simp: card_image)
  ultimately show ?thesis by (intro set_eq_iff_mset_eq_distinct [THEN iffD1]) auto
qed

section \<open>Ownership of keys and the oldest route\<close>

text \<open>
  \<open>owner_first\<close>: the list recorded for a key is not empty, and starts with a direct owner when
  one has been seen (\<open>D k p\<close>: peer \<open>p\<close> has been seen with a direct route of key \<open>k\<close>).
\<close>

definition owner_first :: "(route_key, 'p list) dashmap \<Rightarrow> (route_key \<Rightarrow> 'p set) \<Rightarrow> bool" where
  "owner_first m D \<longleftrightarrow> (\<forall>k. D k \<noteq> {} \<longrightarrow> (\<exists>q qs. dm_get m k = Some (q # qs) \<and> q \<in> D k))
     \<and> (\<forall>k l. dm_get m k = Some l \<longrightarrow> l \<noteq> [])"

lemma owner_first_add:
  assumes "owner_first m D"
  shows "owner_first (route_key_table_add p m e)
    (if is_direct (fst e) then D(r_key (fst e) := insert p (D (r_key (fst e)))) else D)"
proof -
  let ?k = "r_key (fst e)"
  have sw: "hd (swap 0 (length (l @ [p]) - 1) (l @ [p])) = p" for l :: "'a list"
    by (cases l) (simp_all add: swap_def nth_append)
  have ne: "swap 0 (length (l @ [p]) - 1) (l @ [p]) \<noteq> []" for l :: "'a list"
    by (simp add: swap_def)
  show ?thesis
  proof (cases "dm_get m ?k")
    case None
    with assms show ?thesis
      by (auto simp: owner_first_def route_key_table_add_def Let_def split: if_splits)
  next
    case (Some l)
    with assms have "l \<noteq> []" by (auto simp: owner_first_def)
    then obtain q qs where l: "l = q # qs" by (cases l) auto
    obtain s where s: "swap 0 (length (l @ [p]) - 1) (l @ [p]) = p # s"
      using sw [of l] ne [of l] by (metis list.collapse)
    with assms Some l show ?thesis
      by (auto simp: owner_first_def route_key_table_add_def Let_def split: if_splits)
  qed
qed

definition direct_peers :: "('p \<times> u64 \<times> timed_routes) list \<Rightarrow> route_key \<Rightarrow> 'p set" where
  "direct_peers es k = {p. \<exists>c rs. (p, c, rs) \<in> set es \<and> (\<exists>e \<in> set rs. r_key (fst e) = k \<and> is_direct (fst e))}"

lemma has_direct_get:
  "has_direct t p k \<longleftrightarrow> (\<exists>c rs. dm_get (rt_routes t) p = Some (c, rs)
     \<and> (\<exists>e \<in> set rs. r_key (fst e) = k \<and> is_direct (fst e)))"
  by (auto simp: has_direct_def split: option.split)

lemma route_to_id_found:
  assumes "has_direct t p k" shows "route_to_id t k \<noteq> None"
proof -
  from assms obtain c rs e where "(p, c, rs) \<in> set (rt_routes t)" and "e \<in> set rs"
    and "r_key (fst e) = k \<and> is_direct (fst e)"
    unfolding has_direct_get by (blast dest: dm_get_SomeD)
  then have "(p, c, rs) \<in> set (rt_routes t)" "list_ex (\<lambda>(r, _). r_key r = k \<and> is_direct r) rs"
    by (auto simp: list_ex_iff case_prod_beta)
  then have "\<exists>x \<in> set (rt_routes t). (\<lambda>(_, _, rs). list_ex (\<lambda>(r, _). r_key r = k \<and> is_direct r) rs) x"
    by (intro bexI [of _ "(p, c, rs)"]) auto
  then show ?thesis unfolding find_Some_iff_set [symmetric] route_to_id_def by auto
qed

lemma owner_first_list:
  assumes "owner_first m D"
  shows "owner_first (foldl (route_key_table_add p) m rs)
    (\<lambda>k. D k \<union> (if \<exists>e \<in> set rs. r_key (fst e) = k \<and> is_direct (fst e) then {p} else {}))"
  using assms
proof (induction rs arbitrary: m D)
  case (Cons e rs)
  let ?D = "if is_direct (fst e) then D(r_key (fst e) := insert p (D (r_key (fst e)))) else D"
  have eq: "(\<lambda>k. ?D k \<union> (if \<exists>e \<in> set rs. r_key (fst e) = k \<and> is_direct (fst e) then {p} else {}))
    = (\<lambda>k. D k \<union> (if \<exists>e \<in> set (e # rs). r_key (fst e) = k \<and> is_direct (fst e) then {p} else {}))"
    by (rule ext) auto
  have "owner_first (foldl (route_key_table_add p) (route_key_table_add p m e) rs)
    (\<lambda>k. ?D k \<union> (if \<exists>e \<in> set rs. r_key (fst e) = k \<and> is_direct (fst e) then {p} else {}))"
    by (rule Cons.IH [OF owner_first_add [OF Cons.prems]])
  then show ?case unfolding eq by simp
qed simp

lemma owner_first_table:
  "owner_first m D \<Longrightarrow>
   owner_first (foldl (\<lambda>m (p, _, rs). foldl (route_key_table_add p) m rs) m es) (\<lambda>k. D k \<union> direct_peers es k)"
proof (induction es arbitrary: m D)
  case (Cons x es)
  obtain p c rs where x: "x = (p, c, rs)" by (cases x)
  let ?D = "\<lambda>k. D k \<union> (if \<exists>e \<in> set rs. r_key (fst e) = k \<and> is_direct (fst e) then {p} else {})"
  have eq: "(\<lambda>k. ?D k \<union> direct_peers es k) = (\<lambda>k. D k \<union> direct_peers (x # es) k)"
    by (rule ext) (auto simp: direct_peers_def x)
  have "owner_first (foldl (\<lambda>m (p, _, rs). foldl (route_key_table_add p) m rs)
      (foldl (route_key_table_add p) m rs) es) (\<lambda>k. ?D k \<union> direct_peers es k)"
    by (rule Cons.IH [OF owner_first_list [OF Cons.prems]])
  then show ?case unfolding eq by (simp add: x)
qed (simp add: direct_peers_def)

definition older :: "instant \<Rightarrow> ('p \<times> route \<times> instant) option \<Rightarrow> bool" where
  "older n o' \<longleftrightarrow> (case o' of None \<Rightarrow> False | Some (_, _, n') \<Rightarrow> n' \<le> n)"

lemma oldest_step_older:
  "older n (oldest_step p acc e) \<longleftrightarrow> older n acc \<or> snd e \<le> n"
  by (cases e; cases acc) (auto simp: older_def split: if_split_asm)

lemma oldest_list: "older n (foldl (oldest_step p) acc rs) \<longleftrightarrow> older n acc \<or> (\<exists>e \<in> set rs. snd e \<le> n)"
  by (induction rs arbitrary: acc) (auto simp: oldest_step_older)

lemma oldest_table:
  "older n (foldl (\<lambda>acc (p, _, rs). foldl (oldest_step p) acc rs) acc es) \<longleftrightarrow>
     older n acc \<or> (\<exists>(p, c, rs) \<in> set es. \<exists>e \<in> set rs. snd e \<le> n)"
proof (induction es arbitrary: acc)
  case (Cons y es)
  show ?case by (cases y) (simp add: Cons oldest_list disj_assoc)
qed simp

lemma oldest_step_member:
  "oldest_step p acc e = Some x \<Longrightarrow> acc = Some x \<or> x = (p, e)"
  by (cases e; cases acc) (auto split: if_splits)

lemma oldest_list_member:
  "foldl (oldest_step p) acc rs = Some x \<Longrightarrow> acc = Some x \<or> (\<exists>e \<in> set rs. x = (p, e))"
proof (induction rs arbitrary: acc)
  case (Cons e rs)
  then have "oldest_step p acc e = Some x \<or> (\<exists>e \<in> set rs. x = (p, e))" by simp
  then show ?case using oldest_step_member by fastforce
qed simp

lemma oldest_table_member:
  "foldl (\<lambda>acc (p, _, rs). foldl (oldest_step p) acc rs) acc es = Some x \<Longrightarrow>
     acc = Some x \<or> (\<exists>(p, c, rs) \<in> set es. \<exists>e \<in> set rs. x = (p, e))"
proof (induction es arbitrary: acc)
  case (Cons y es)
  obtain p c rs where y: "y = (p, c, rs)" by (cases y)
  with Cons have "foldl (oldest_step p) acc rs = Some x \<or> (\<exists>(p, c, rs) \<in> set es. \<exists>e \<in> set rs. x = (p, e))"
    by simp
  then show ?case using oldest_list_member [of p acc rs x] y by fastforce
qed simp

definition timed_route :: "'p route_table \<Rightarrow> 'p \<Rightarrow> route \<Rightarrow> instant \<Rightarrow> bool" where
  "timed_route t p r n \<longleftrightarrow> (\<exists>c rs. (p, c, rs) \<in> set (rt_routes t) \<and> (r, n) \<in> set rs)"

lemma oldest_route_Some:
  assumes "oldest_route t = Some (p, r, n)"
  shows "timed_route t p r n" and "timed_route t q s m \<Longrightarrow> n \<le> m"
proof -
  let ?f = "foldl (\<lambda>acc (p, _, rs). foldl (oldest_step p) acc rs) None (rt_routes t)"
  from assms have f: "?f = Some (p, r, n)" by (auto simp: oldest_route_def split: if_splits)
  from oldest_table_member [OF f] show "timed_route t p r n" by (fastforce simp: timed_route_def)
  show "n \<le> m" if "timed_route t q s m"
    using that oldest_table [of m None "rt_routes t"] unfolding f timed_route_def older_def by force
qed

lemma oldest_route_None:
  assumes "timed_route t q s m" shows "oldest_route t \<noteq> None"
proof -
  have "rt_routes t \<noteq> []" using assms by (auto simp: timed_route_def)
  with assms oldest_table [of m None "rt_routes t"] show ?thesis
    unfolding timed_route_def oldest_route_def older_def by (force split: option.splits)
qed

section \<open>The idle poll\<close>

lemma next_idle_poll_Inl:
  assumes "next_idle_poll ri t now = Inl (p, r, n)"
  shows "timed_route t p r n" and "ri \<le> now - n" and "timed_route t q s m \<Longrightarrow> n \<le> m"
  using assms oldest_route_Some [of t p r n] unfolding next_idle_poll_def
  by (auto simp: Let_def split: option.splits if_splits)

lemma next_idle_poll_Inr:
  assumes "next_idle_poll ri t now = Inr d" and "timed_route t q s m"
  shows "now - m < ri" and "0 < d"
proof -
  obtain p r n where o: "oldest_route t = Some (p, r, n)"
    using oldest_route_None [OF assms(2)] by auto
  with oldest_route_Some(2) [OF o assms(2)] assms(1) show "now - m < ri"
    by (auto simp: next_idle_poll_def Let_def split: if_splits)
  show "0 < d"
    using o assms(1) by (auto simp: next_idle_poll_def Let_def split: if_splits)
qed

lemma next_idle_returns:
  assumes "\<And>n. timed_route (tables n) q s m"
  shows "\<exists>p r n w. next_idle ri tables late now = Some ((p, r, n), w)
    \<and> next_idle_poll ri (tables w) w = Inl (p, r, n) \<and> now \<le> w"
proof (induction "m + ri - now" arbitrary: now rule: less_induct)
  case less
  show ?case
  proof (cases "next_idle_poll ri (tables now) now")
    case (Inl found)
    obtain p r n where "found = (p, r, n)" by (cases found)
    moreover from Inl have "next_idle ri tables late now = Some (found, now)"
      by (subst next_idle.simps) simp
    ultimately show ?thesis using Inl by blast
  next
    case (Inr d)
    let ?w = "now + d + late now"
    have "now - m < ri" "0 < d" using next_idle_poll_Inr [OF Inr assms] by auto
    then have "m + ri - ?w < m + ri - now" by linarith
    from less [OF this] obtain p r n w where
      "next_idle ri tables late ?w = Some ((p, r, n), w)"
      "next_idle_poll ri (tables w) w = Inl (p, r, n)" "?w \<le> w" by blast
    moreover have "next_idle ri tables late now = next_idle ri tables late ?w"
      using Inr by (subst next_idle.simps) simp
    ultimately show ?thesis by (metis add_leD1)
  qed
qed

section \<open>Properties of the route table\<close>

text \<open>
  C4: Every table reached from a new one by any sequence of the public operations has no empty
  route list and no two routes with one key in a list, keeps each list in the order of its
  strategy, records as owner of a key only a peer with a direct route of that key, and never
  changes its strategy.
\<close>

theorem route_table_invariant:
  assumes "rt_reachable lb t" shows "rt_inv t \<and> rt_lb t = lb"
  using assms by (rule reachable_inv)

definition sample_key :: "u16 \<Rightarrow> route_key" where
  "sample_key p = route_key_new UDP (SockV4 (Ipv4Addr 10 0 0 1) 2000) (SockV4 (Ipv4Addr 10 0 0 2) p)"

lemma reachable_add: "rt_reachable lb t \<Longrightarrow> rt_reachable lb (snd (add_route now p r t))"
  by (blast intro: reach_step step_add)

lemma reachable_fold_add:
  "rt_reachable lb t \<Longrightarrow> rt_reachable lb (fold (\<lambda>(now, p, r) t. snd (add_route now p r t)) xs t)"
  by (induction xs arbitrary: t) (auto intro: reachable_add)

text \<open>Two relay routes and, in the second table, a direct route to one peer.\<close>

definition sample_table :: "load_balance \<Rightarrow> nat route_table" where
  "sample_table lb = fold (\<lambda>(now, p, r) t. snd (add_route now p r t))
     [(1, 7, route_from (sample_key 1) 2 30), (2, 7, route_from (sample_key 2) 2 10)]
     (route_table_new lb)"

lemma sample_reachable: "rt_reachable lb (sample_table lb)"
  unfolding sample_table_def by (intro reachable_fold_add reach_new)

theorem route_table_invariant_witness:
  "rt_inv (snd (add_route 3 7 (route_from (sample_key 1) 0 9) (sample_table MostRecent)))
   \<and> rt_lb (snd (add_route 3 7 (route_from (sample_key 1) 0 9) (sample_table MostRecent))) = MostRecent"
  by (rule route_table_invariant) (intro reachable_add sample_reachable)


lemmas sample_simps = sample_table_def sample_key_def route_key_new_def route_from_def route_table_new_def
  add_route_def add_route_impl_def dm_get_def dm_insert_def dm_remove_def is_direct_def is_relay_def
  reorder_def merge_route_def route_sort_key_def less_eq_route_sort_key_def DEFAULT_RTT_def swap_def


text \<open>
  C22: Round robin is fair. While the peer has only relay routes and the counter does not wrap,
  as many consecutive selections as the peer has routes return each of them exactly once.
\<close>

theorem round_robin_fair:
  assumes "rt_reachable RoundRobin t" and "routes_of t p = Some rs"
    and "\<forall>r \<in> set rs. is_relay r" and "unat (fst (peer_entry t p)) + length rs \<le> 2 ^ 64"
  shows "mset (fst (get_routes (length rs) p t)) = mset (map Inr rs)"
proof -
  from assms(2) obtain c es where e: "dm_get (rt_routes t) p = Some (c, es)" and rs: "rs = map fst es"
    by (auto simp: routes_of_def split: option.splits)
  from assms(1) have inv: "rt_inv t" and lb: "rt_lb t = RoundRobin" by (simp_all add: reachable_inv)
  have ne: "es \<noteq> []" by (rule rt_inv_nonempty [OF inv e])
  have "find (\<lambda>(r, _). is_direct r) es = None"
    using assms(3) unfolding find_direct_None rs by (auto simp: is_relay_iff)
  then have "fst (get_routes (length rs) p t)
      = map (\<lambda>i. Inr (fst (es ! (i mod length es)))) [unat c ..< unat c + length es]"
    using get_routes_round_robin [OF lb e ne] assms(4) e rs by (simp add: peer_entry_def)
  also have "mset \<dots> = mset (map (\<lambda>i. Inr (fst (es ! i))) (map (\<lambda>i. i mod length es) [unat c ..< unat c + length es]))"
    by (simp add: comp_def)
  also have "\<dots> = mset (map (\<lambda>i. Inr (fst (es ! i))) [0 ..< length es])"
    unfolding mset_map [of _ "map _ _"] mset_map [of _ "[0 ..< _]"]
    by (rule arg_cong [OF mod_range_permutation]) (use ne in simp)
  also have "map (\<lambda>i. Inr (fst (es ! i))) [0 ..< length es] = map Inr rs"
    by (rule nth_equalityI) (simp_all add: rs)
  finally show ?thesis .
qed

theorem round_robin_fair_witness:
  "mset (fst (get_routes (length [route_from (sample_key 2) 2 10, route_from (sample_key 1) 2 30]) 7
        (sample_table RoundRobin)))
   = mset (map Inr [route_from (sample_key 2) 2 10, route_from (sample_key 1) 2 30])"
  by (rule round_robin_fair [OF sample_reachable])
    (simp_all add: routes_of_def peer_entry_def sample_simps)

lemma scan_reject_iff:
  assumes "lb = MinHopLowestLatency \<or> lb = RoundRobin" and "sorted (map (r_metric \<circ> fst) rs)"
  shows "add_route_scan lb False r now rs = ScanReject \<longleftrightarrow>
    is_relay r \<and> \<not> direct_in (fst ` set rs) (r_key r)
    \<and> (\<exists>e \<in> set rs. is_relay (fst e) \<and> r_metric (fst e) < r_metric r)"
  using assms
proof (induction lb False r now rs rule: add_route_scan.induct)
  case (2 lb r now x time xs)
  have sorted: "sorted (map (r_metric \<circ> fst) xs)" and low: "\<forall>e \<in> set xs. r_metric x \<le> r_metric (fst e)"
    using "2.prems" by auto
  show ?case
  proof (cases "is_direct r")
    case True
    then show ?thesis
      using direct_scan_not_rejected [OF True] by (simp add: is_relay_iff del: add_route_scan.simps)
  next
    case r: False
    show ?thesis
    proof (cases "is_direct x")
      case True
      with r have "add_route_scan lb False r now ((x, time) # xs) = ScanReject \<longleftrightarrow>
          r_key x \<noteq> r_key r \<and> add_route_scan lb False r now xs = ScanReject"
        by (simp split: scan_result.split)
      also have "\<dots> \<longleftrightarrow> r_key x \<noteq> r_key r \<and> \<not> direct_in (fst ` set xs) (r_key r)
          \<and> (\<exists>e \<in> set xs. is_relay (fst e) \<and> r_metric (fst e) < r_metric r)"
        using "2.hyps" "2.prems"(1) sorted r True by (auto simp: is_relay_iff)
      finally show ?thesis using r True by (auto simp: direct_in_def is_relay_iff)
    next
      case False
      then have "\<forall>e \<in> set xs. \<not> is_direct (fst e)"
        using low by (auto simp: is_direct_def)
      moreover have "add_route_scan lb False r now xs = ScanReject \<Longrightarrow> r_metric x < r_metric r"
        using scan_reject [of lb False r now xs] low by fastforce
      moreover have "(\<exists>e \<in> set xs. is_relay (fst e) \<and> r_metric (fst e) < r_metric r) \<Longrightarrow> r_metric x < r_metric r"
        using low by fastforce
      ultimately show ?thesis
        using False r "2.prems"(1)
        by (cases "r_metric x < r_metric r")
          (auto simp: is_relay_iff direct_in_def split: scan_result.splits)
    qed
  qed
qed (simp add: direct_in_def)

lemma add_route_fst:
  "fst (add_route now p r t) \<longleftrightarrow> add_route_scan (rt_lb t) False r now (snd (peer_entry t p)) \<noteq> ScanReject"
proof -
  obtain ok t' c rs where a: "add_route_impl now p r False t = (ok, t')" and pe: "peer_entry t p = (c, rs)"
    by (metis surj_pair)
  then show ?thesis
    by (auto simp: add_route_def add_route_impl_def peer_entry_def Let_def
        split: option.splits scan_result.splits)
qed

text \<open>
  When an added route is refused. Under the hop-count strategies \<open>add_route\<close> returns false
  exactly for a relay route to a peer that has a shorter relay route and no direct route with
  the same key; the table then keeps the routes it had.
\<close>

theorem add_route_refused_iff:
  assumes "rt_reachable lb t" and "lb = MinHopLowestLatency \<or> lb = RoundRobin"
  shows "(\<not> fst (add_route now p r t) \<longleftrightarrow>
      is_relay r \<and> \<not> direct_in (peer_routes t p) (r_key r)
      \<and> (\<exists>x \<in> peer_routes t p. is_relay x \<and> r_metric x < r_metric r))
    \<and> (\<not> fst (add_route now p r t) \<longrightarrow> peer_routes (snd (add_route now p r t)) = peer_routes t)"
proof
  from assms(1) have inv: "rt_inv t" and lb: "rt_lb t = lb" by (simp_all add: reachable_inv)
  obtain c rs where pe: "peer_entry t p = (c, rs)" by (metis surj_pair)
  have "sorted (map (r_metric \<circ> fst) rs)"
    using pe rt_inv_list [OF inv, of p] lb assms(2)
    by (auto simp: peer_entry_def route_list_ok_def route_order_def split: option.splits)
  from scan_reject_iff [OF assms(2) this, of r now]
  show "\<not> fst (add_route now p r t) \<longleftrightarrow>
      is_relay r \<and> \<not> direct_in (peer_routes t p) (r_key r)
      \<and> (\<exists>x \<in> peer_routes t p. is_relay x \<and> r_metric x < r_metric r)"
    by (simp add: add_route_fst lb pe peer_routes_entry [OF pe])
  show "\<not> fst (add_route now p r t) \<longrightarrow> peer_routes (snd (add_route now p r t)) = peer_routes t"
    by (simp add: rts.add_refused)
qed

theorem add_route_refused_iff_witness:
  "\<not> fst (add_route 5 7 (route_from (sample_key 9) 3 1) (sample_table RoundRobin))"
  using add_route_refused_iff [OF sample_reachable, of RoundRobin 5 7 "route_from (sample_key 9) 3 1"]
  by (simp add: peer_routes_def direct_in_def sample_simps)

text \<open>
  C6: A direct route is never lost or downgraded by accident. Once a peer has a direct route
  with some key, any sequence of additions (for any peer, with any metric), round-trip updates
  and removals leaves it direct, unless that very route or the whole peer is removed.
\<close>

theorem direct_route_survives:
  assumes "rt_reachable lb t" and "has_direct t p k" and "\<forall>op \<in> set ops. \<not> store_drops p k op"
  shows "has_direct (fold rt_exec ops t) p k"
  using rts.direct_survives [of t p k ops] assms reachable_inv [of lb t]
  by (simp add: direct_in_keys)

theorem direct_route_survives_witness:
  "has_direct (fold rt_exec
      [StoreAdd 4 7 (route_from (sample_key 1) 3 DEFAULT_RTT), StoreRemove 7 (sample_key 2), StoreRemoveAll 8]
      (snd (add_route 3 7 (route_from (sample_key 1) 0 9) (sample_table MinHopLowestLatency)))) 7
      (sample_key 1)"
  by (rule direct_route_survives [OF reachable_add [OF sample_reachable]])
    (simp_all add: has_direct_def sample_simps)

text \<open>
  A measured round-trip time survives re-confirmation of the route: adding a route for a
  known key with the sentinel round-trip time keeps the measured value, whatever the strategy.
\<close>

theorem add_route_keeps_rtt:
  assumes "rt_reachable lb t" and "x \<in> peer_routes t p"
  shows "\<exists>y \<in> peer_routes (snd (add_route now p (route_from_default_rt (r_key x) m) t)) p.
    r_key y = r_key x \<and> r_rtt y = r_rtt x"
proof -
  let ?r = "route_from_default_rt (r_key x) m"
  from assms(1) have inv: "rt_inv t" by (simp add: reachable_inv)
  obtain ok t' c rs where a: "add_route_impl now p ?r False t = (ok, t')" and pe: "peer_entry t p = (c, rs)"
    by (metis surj_pair)
  from assms(2) pe obtain j where j: "j < length rs" "fst (rs ! j) = x"
    by (auto simp: peer_routes_entry in_set_conv_nth)
  have dist: "distinct (tr_keys rs)"
    using pe rt_inv_list [OF inv] by (auto simp: peer_entry_def route_list_ok_def split: option.splits)
  have key: "r_key ?r = r_key x" by (simp add: route_from_default_rt_def)
  from a pe have "\<exists>y \<in> peer_routes t' p. r_key y = r_key x \<and> r_rtt y = r_rtt x"
  proof (cases rule: add_route_impl_cases)
    case (touched i)
    with assms(2) pe show ?thesis by (auto simp: fst_set_update peer_routes_entry)
  next
    case rejected
    with assms(2) pe show ?thesis by (auto simp: peer_routes_entry)
  next
    case (updated i)
    have "i = j"
      using nth_eq_iff_index_eq [OF dist, of i j] updated(3,5) j key by simp
    let ?rs = "rs[i := (merge_route ?r (fst (rs ! i)), now)]"
    have i: "?rs \<noteq> []" "i < length ?rs" using updated(3) by auto
    have p: "peer_routes t' p = fst ` set ?rs"
      unfolding updated(7) by (simp add: reorder_preserves(1) [OF i])
    from \<open>i = j\<close> updated(3) j have "(merge_route ?r x, now) \<in> set ?rs"
      by (simp add: set_update_memI)
    then have "merge_route ?r x \<in> peer_routes t' p" unfolding p by force
    then show ?thesis
      by (intro bexI [of _ "merge_route ?r x"]) (simp_all add: merge_route_def route_from_default_rt_def)
  next
    case pushed
    with j key show ?thesis by (metis (no_types, lifting) image_eqI length_map nth_map nth_mem set_map)
  qed
  with a show ?thesis by (simp add: add_route_def)
qed

theorem add_route_keeps_rtt_witness:
  "\<exists>y \<in> peer_routes (snd (add_route 5 7 (route_from_default_rt (r_key (route_from (sample_key 1) 2 30)) 0)
      (sample_table MostRecent))) 7.
    r_key y = r_key (route_from (sample_key 1) 2 30) \<and> r_rtt y = r_rtt (route_from (sample_key 1) 2 30)"
  by (rule add_route_keeps_rtt [OF sample_reachable]) (simp add: peer_routes_def sample_simps)

text \<open>
  The ownership view. In \<open>route_key_table\<close> the list of a key starts with a peer that has a
  direct route with that key whenever any peer has one.
\<close>

theorem route_key_table_owner_first:
  assumes "dm_wf (rt_routes t)" and "has_direct t p k"
  shows "\<exists>q qs. dm_get (route_key_table t) k = Some (q # qs) \<and> has_direct t q k"
proof -
  have "owner_first ([] :: (route_key, 'a list) dashmap) (\<lambda>_. {})" by (simp add: owner_first_def)
  from owner_first_table [OF this, of "rt_routes t"]
  have of: "owner_first (route_key_table t) (direct_peers (rt_routes t))"
    by (simp add: route_key_table_def)
  have dp: "q \<in> direct_peers (rt_routes t) k \<longleftrightarrow> has_direct t q k" for q
    unfolding has_direct_get direct_peers_def dm_get_Some_iff [OF assms(1)] by blast
  from of assms(2) dp show ?thesis unfolding owner_first_def by (metis empty_iff)
qed

theorem route_key_table_owner_first_witness:
  "\<exists>q qs. dm_get (route_key_table
      (snd (add_route 4 8 (route_from (sample_key 1) 0 9) (sample_table MostRecent)))) (sample_key 1)
     = Some (q # qs)
   \<and> has_direct (snd (add_route 4 8 (route_from (sample_key 1) 0 9) (sample_table MostRecent))) q (sample_key 1)"
  by (rule route_key_table_owner_first [where p = 8])
    (simp_all add: has_direct_def dm_wf_def sample_simps)

text \<open>
  The idle poll finds stale routes. If some route stays in the table without its time
  being refreshed, \<open>next_idle\<close> returns, and what it returns is in the table at that moment, has
  been silent for at least \<open>read_idle\<close>, and is the one that has been silent longest.
\<close>

theorem next_idle_finds_stale:
  assumes "\<And>n. timed_route (tables n) q s m"
  shows "\<exists>p r n w. next_idle read_idle tables late now = Some ((p, r, n), w) \<and> now \<le> w
    \<and> timed_route (tables w) p r n \<and> read_idle \<le> w - n
    \<and> (\<forall>q' s' m'. timed_route (tables w) q' s' m' \<longrightarrow> n \<le> m')"
  using next_idle_returns [of tables q s m read_idle late now, OF assms] next_idle_poll_Inl by metis

theorem next_idle_finds_stale_witness:
  "\<exists>p r n w. next_idle 1000 (\<lambda>_. sample_table MostRecent) (\<lambda>_. 3) 50 = Some ((p, r, n), w) \<and> 50 \<le> w
    \<and> timed_route (sample_table MostRecent) p r n \<and> 1000 \<le> w - n
    \<and> (\<forall>q' s' m'. timed_route (sample_table MostRecent) q' s' m' \<longrightarrow> n \<le> m')"
  by (rule next_idle_finds_stale [where q = 7 and s = "route_from (sample_key 1) 2 30" and m = 1])
    (simp add: timed_route_def sample_simps)

text \<open>
  A relay route that becomes direct in place is not entered in the owner table: when the
  key has no owner yet, adding a direct route for a key the peer already has as a relay gives
  the peer a direct route with that key that \<open>is_route_of_peer_id\<close> and \<open>get_id_by_route_key\<close>
  do not know, while \<open>route_to_id\<close> finds an owner.
\<close>

theorem relay_upgrade_not_owned:
  assumes "rt_reachable lb t" and "x \<in> peer_routes t p" and "is_relay x"
    and "get_id_by_route_key t (r_key x) = None" and "r = route_from (r_key x) 0 rtt"
    and "t' = snd (add_route now p r t)"
  shows "has_direct t' p (r_key x) \<and> \<not> is_route_of_peer_id t' p (r_key x)
    \<and> get_id_by_route_key t' (r_key x) = None \<and> route_to_id t' (r_key x) \<noteq> None"
proof -
  obtain c rs where pe: "peer_entry t p = (c, rs)" by (metis surj_pair)
  have r: "is_direct r" "r_key r = r_key x" by (simp_all add: assms(5) route_from_def is_direct_def)
  obtain ok where a: "add_route_impl now p r False t = (ok, t')"
    using assms(6) by (metis add_route_def prod.collapse)
  have hd: "has_direct t' p (r_key x)"
    using rts.add_direct [OF r(1), of now p t] r(2) assms(6) by (simp add: direct_in_keys)
  have "r_key r \<in> set (tr_keys rs)"
    using assms(2) r(2) peer_routes_entry [OF pe] by (force simp: image_image)
  with a pe have "rt_keys t' = rt_keys t"
    by (cases rule: add_route_impl_cases) auto
  moreover have "route_to_id t' (r_key x) \<noteq> None"
    by (rule route_to_id_found [OF hd])
  ultimately show ?thesis
    using hd assms(4) by (simp add: get_id_by_route_key_def is_route_of_peer_id_def)
qed

theorem relay_upgrade_not_owned_witness:
  "has_direct (snd (add_route 5 7 (route_from (sample_key 1) 0 4) (sample_table MinHopLowestLatency))) 7
      (sample_key 1)
   \<and> \<not> is_route_of_peer_id (snd (add_route 5 7 (route_from (sample_key 1) 0 4)
      (sample_table MinHopLowestLatency))) 7 (sample_key 1)"
proof -
  have k: "r_key (route_from (sample_key 1) 2 30) = sample_key 1" by (simp add: route_from_def)
  have x: "route_from (sample_key 1) 2 30 \<in> peer_routes (sample_table MinHopLowestLatency) 7"
    by (simp add: peer_routes_def sample_simps)
  have r: "is_relay (route_from (sample_key 1) 2 30)" by (simp add: sample_simps)
  have g: "get_id_by_route_key (sample_table MinHopLowestLatency)
      (r_key (route_from (sample_key 1) 2 30)) = None"
    by (simp add: get_id_by_route_key_def sample_simps)
  from relay_upgrade_not_owned [OF sample_reachable x r g refl refl, of 5 4] show ?thesis
    unfolding k by (elim conjE) (intro conjI)
qed

text \<open>
  \<open>update_rtt\<close> does not re-sort under the default strategy, so the latency order within a
  hop count is lost: there is a reachable table on which the first route, the one selected for
  a peer with relay routes only, is not the fastest of its hop count.
\<close>

theorem update_rtt_loses_latency_order:
  "\<exists>t :: nat route_table. rt_reachable MinHopLowestLatency t \<and>
     (\<exists>r x. fst (get_route_by_id t 7) = Inr r \<and> x \<in> peer_routes t 7
        \<and> r_metric x = r_metric r \<and> r_rtt x < r_rtt r)"
proof (intro exI conjI)
  let ?t = "update_rtt 7 (sample_key 1) 1 (sample_table MinHopLowestLatency)"
  show "rt_reachable MinHopLowestLatency ?t"
    using sample_reachable by (rule reach_step) (rule step_rtt)
  show "fst (get_route_by_id ?t 7) = Inr (route_from (sample_key 2) 2 10)"
    by (simp add: get_route_by_id_def update_rtt_def sample_simps)
  show "route_from (sample_key 1) 2 1 \<in> peer_routes ?t 7"
    by (simp add: peer_routes_def update_rtt_def sample_simps)
qed (simp_all add: route_from_def)

end
