(* ===== verification/Nat_Info.thy ===== *)
theory Nat_Info
  imports Net_Addr
begin

text \<open>
  \<open>rustp2p-core/src/nat/mod.rs\<close>: the description of a node's NAT that peers exchange, and the
  address lists derived from it that hole punching sends to.
\<close>

section \<open>The record\<close>

datatype nat_type = Cone | Symmetric

definition nat_is_cone :: "nat_type \<Rightarrow> bool" where "nat_is_cone t \<longleftrightarrow> t = Cone"
definition nat_is_symmetric :: "nat_type \<Rightarrow> bool" where "nat_is_symmetric t \<longleftrightarrow> t = Symmetric"

record nat_info =
  ni_type :: nat_type
  public_ips :: "ipv4_addr list"
  public_udp_ports :: "u16 list"
  mapping_tcp_addr :: "socket_addr list"
  mapping_udp_addr :: "socket_addr list"
  public_port_range :: u16
  ni_local_ipv4 :: ipv4_addr
  ni_local_ipv4s :: "ipv4_addr list"
  ni_ipv6 :: "ipv6_addr option"
  local_udp_ports :: "u16 list"
  local_tcp_port :: u16
  public_tcp_port :: u16
  stun_mapped_ports :: "u16 list"

definition nat_info_default :: nat_info where
  "nat_info_default =
     \<lparr>ni_type = Cone, public_ips = [], public_udp_ports = [], mapping_tcp_addr = [],
      mapping_udp_addr = [], public_port_range = 0, ni_local_ipv4 = v4_unspecified,
      ni_local_ipv4s = [], ni_ipv6 = None, local_udp_ports = [], local_tcp_port = 0,
      public_tcp_port = 0, stun_mapped_ports = []\<rparr>"

section \<open>Derived addresses\<close>

definition ipv6_udp_addr :: "nat_info \<Rightarrow> socket_addr list" where
  "ipv6_udp_addr info =
     (case ni_ipv6 info of
        Some ip \<Rightarrow> if is_ipv6_global ip then map (\<lambda>p. SockV6 ip p 0 0) (local_udp_ports info) else []
      | None \<Rightarrow> [])"

definition ipv6_tcp_addr :: "nat_info \<Rightarrow> socket_addr option" where
  "ipv6_tcp_addr info = map_option (\<lambda>ip. SockV6 ip (local_tcp_port info) 0 0) (ni_ipv6 info)"

definition public_ipv4_addr :: "nat_info \<Rightarrow> socket_addr list" where
  "public_ipv4_addr info =
     (if public_ips info = [] \<or> public_udp_ports info = [] then []
      else if length (public_ips info) = 1 then
        map (SockV4 (public_ips info ! 0)) (public_udp_ports info)
      else map (\<lambda>ip. SockV4 ip (public_udp_ports info ! 0)) (public_ips info))"

definition v4_unusable :: "ipv4_addr \<Rightarrow> bool" where
  "v4_unusable ip \<longleftrightarrow> v4_is_unspecified ip \<or> v4_is_multicast ip \<or> v4_is_broadcast ip"

definition local_ipv4_addrs :: "nat_info \<Rightarrow> socket_addr list" where
  "local_ipv4_addrs info =
     (if local_udp_ports info = [] then []
      else if ni_local_ipv4s info \<noteq> [] then
        concat (map (\<lambda>ip. map (SockV4 ip) (local_udp_ports info))
          (filter (\<lambda>ip. \<not> v4_unusable ip) (ni_local_ipv4s info)))
      else if v4_unusable (ni_local_ipv4 info) then []
      else map (SockV4 (ni_local_ipv4 info)) (local_udp_ports info))"

definition local_ipv4_tcp :: "nat_info \<Rightarrow> socket_addr option" where
  "local_ipv4_tcp info =
     (if v4_unusable (ni_local_ipv4 info) \<or> local_tcp_port info = 0 then None
      else Some (SockV4 (ni_local_ipv4 info) (local_tcp_port info)))"

definition public_ipv4_tcp :: "nat_info \<Rightarrow> socket_addr list" where
  "public_ipv4_tcp info =
     (if public_tcp_port info = 0 then []
      else map (\<lambda>ip. SockV4 ip (public_tcp_port info)) (public_ips info))"

definition nat_flag :: "nat_info \<Rightarrow> socket_addr option" where
  "nat_flag info =
     (case public_ipv4_addr info of v # _ \<Rightarrow> Some v
      | [] \<Rightarrow> (case public_ipv4_tcp info of v # _ \<Rightarrow> Some v
        | [] \<Rightarrow> (case local_ipv4_addrs info of v # _ \<Rightarrow> Some v
          | [] \<Rightarrow> local_ipv4_tcp info)))"

section \<open>Lemmas\<close>

lemma local_ipv4_addrs_usable:
  "SockV4 ip p \<in> set (local_ipv4_addrs info) \<Longrightarrow> \<not> v4_unusable ip \<and> p \<in> set (local_udp_ports info)"
  by (auto simp: local_ipv4_addrs_def split: if_splits)

lemma public_ipv4_addr_members:
  "a \<in> set (public_ipv4_addr info) \<Longrightarrow>
     \<exists>ip \<in> set (public_ips info). \<exists>p \<in> set (public_udp_ports info). a = SockV4 ip p"
  by (auto simp: public_ipv4_addr_def split: if_splits)

lemma public_ipv4_addr_empty_iff:
  "public_ipv4_addr info = [] \<longleftrightarrow> public_ips info = [] \<or> public_udp_ports info = []"
  by (auto simp: public_ipv4_addr_def)

end
