(* ===== verification/Packet.thy ===== *)
theory Packet
  imports P2P_Prelude
begin

text \<open>
  The overlay packet of \<open>rustp2p-quic/src/protocol.rs\<close> and the peer id of
  \<open>rustp2p-quic/src/identity.rs\<close>: first-byte demultiplexing, the hand-encoded header, building
  and parsing, and the TTL that relays decrement. The theory shows the round trip of a packet,
  what a relay changes, and that the TTL counts hops.
\<close>

section \<open>Peer ids\<close>

text \<open>A \<open>String\<close> is its UTF-8 bytes.\<close>

datatype peer_id = PeerId (pid_bytes: bytes)

definition peer_unspecified :: peer_id where "peer_unspecified = PeerId []"
definition peer_broadcast :: peer_id where "peer_broadcast = PeerId [0x2a]"
definition is_unspecified :: "peer_id \<Rightarrow> bool" where "is_unspecified p \<longleftrightarrow> pid_bytes p = []"
definition is_broadcast :: "peer_id \<Rightarrow> bool" where "is_broadcast p \<longleftrightarrow> pid_bytes p = [0x2a]"

text \<open>\<open>str::from_utf8\<close> accepts exactly the well-formed UTF-8 sequences.\<close>

definition utf8_cont :: "u8 \<Rightarrow> bool" where "utf8_cont b \<longleftrightarrow> 0x80 \<le> b \<and> b \<le> 0xbf"

definition utf8_second3 :: "u8 \<Rightarrow> u8 \<Rightarrow> bool" where
  "utf8_second3 a b \<longleftrightarrow>
     (if a = 0xe0 then 0xa0 \<le> b \<and> b \<le> 0xbf else if a = 0xed then 0x80 \<le> b \<and> b \<le> 0x9f else utf8_cont b)"

definition utf8_second4 :: "u8 \<Rightarrow> u8 \<Rightarrow> bool" where
  "utf8_second4 a b \<longleftrightarrow>
     (if a = 0xf0 then 0x90 \<le> b \<and> b \<le> 0xbf else if a = 0xf4 then 0x80 \<le> b \<and> b \<le> 0x8f else utf8_cont b)"

fun utf8_valid :: "bytes \<Rightarrow> bool" where
  "utf8_valid [] \<longleftrightarrow> True"
| "utf8_valid (a # bs) \<longleftrightarrow>
     (if a < 0x80 then utf8_valid bs
      else if 0xc2 \<le> a \<and> a \<le> 0xdf then
        (case bs of b # r \<Rightarrow> utf8_cont b \<and> utf8_valid r | _ \<Rightarrow> False)
      else if 0xe0 \<le> a \<and> a \<le> 0xef then
        (case bs of b # c # r \<Rightarrow> utf8_second3 a b \<and> utf8_cont c \<and> utf8_valid r | _ \<Rightarrow> False)
      else if 0xf0 \<le> a \<and> a \<le> 0xf4 then
        (case bs of b # c # d # r \<Rightarrow>
           utf8_second4 a b \<and> utf8_cont c \<and> utf8_cont d \<and> utf8_valid r | _ \<Rightarrow> False)
      else False)"

section \<open>Packet types\<close>

definition VERSION :: u8 where "VERSION = 3"
definition FIXED_HEADER_LEN :: nat where "FIXED_HEADER_LEN = 13"

datatype packet_type = PtStun | PtQuic | PtPunch | PtRustP2p u8 | PtOther u8

definition classify_packet :: "u8 \<Rightarrow> packet_type" where
  "classify_packet b =
     (if b AND 0x40 \<noteq> 0 then PtQuic
      else if b = 0x01 then PtStun
      else if 0x02 \<le> b \<and> b \<le> 0x03 then PtPunch
      else if b AND 0x80 \<noteq> 0 then PtRustP2p (b AND 0x7f)
      else PtOther b)"

datatype protocol_type =
    MessageData | PunchConsultRequest | PunchConsultReply | PunchRequest | PunchReply
  | EchoRequest | EchoReply | TimestampRequest | TimestampReply | IDRouteQuery | IDRouteReply
  | RangeBroadcast | QuicRelay | HelloRequest | HelloReply | NatObserveRequest | NatObserveReply

fun protocol_type_byte :: "protocol_type \<Rightarrow> u8" where
  "protocol_type_byte MessageData = 0"
| "protocol_type_byte PunchConsultRequest = 1"
| "protocol_type_byte PunchConsultReply = 2"
| "protocol_type_byte PunchRequest = 3"
| "protocol_type_byte PunchReply = 4"
| "protocol_type_byte EchoRequest = 5"
| "protocol_type_byte EchoReply = 6"
| "protocol_type_byte TimestampRequest = 7"
| "protocol_type_byte TimestampReply = 8"
| "protocol_type_byte IDRouteQuery = 9"
| "protocol_type_byte IDRouteReply = 10"
| "protocol_type_byte RangeBroadcast = 11"
| "protocol_type_byte QuicRelay = 12"
| "protocol_type_byte HelloRequest = 13"
| "protocol_type_byte HelloReply = 14"
| "protocol_type_byte NatObserveRequest = 15"
| "protocol_type_byte NatObserveReply = 16"

definition protocol_type_try_from :: "u8 \<Rightarrow> protocol_type io_result" where
  "protocol_type_try_from b =
     (if b = 0 then Inr MessageData
      else if b = 1 then Inr PunchConsultRequest
      else if b = 2 then Inr PunchConsultReply
      else if b = 3 then Inr PunchRequest
      else if b = 4 then Inr PunchReply
      else if b = 5 then Inr EchoRequest
      else if b = 6 then Inr EchoReply
      else if b = 7 then Inr TimestampRequest
      else if b = 8 then Inr TimestampReply
      else if b = 9 then Inr IDRouteQuery
      else if b = 10 then Inr IDRouteReply
      else if b = 11 then Inr RangeBroadcast
      else if b = 12 then Inr QuicRelay
      else if b = 13 then Inr HelloRequest
      else if b = 14 then Inr HelloReply
      else if b = 15 then Inr NatObserveRequest
      else if b = 16 then Inr NatObserveReply
      else Inl (IoError InvalidData ''invalid protocol type''))"

section \<open>Packets\<close>

record packet =
  pk_buf :: bytes
  pk_src :: peer_id
  pk_dest :: peer_id
  pk_off :: nat

definition packet_build ::
  "protocol_type \<Rightarrow> peer_id \<Rightarrow> peer_id \<Rightarrow> u8 \<Rightarrow> bytes \<Rightarrow> packet io_result" where
  "packet_build protocol src dest max_ttl payload =
     (let src_bytes = pid_bytes src; dest_bytes = pid_bytes dest in
      if length src_bytes > 65535 \<or> length dest_bytes > 65535
      then Inl (IoError InvalidInput ''peer id exceeds 65535 bytes'')
      else
        and_then (ok_or
            (Option.bind (Option.bind (checked_add_usize FIXED_HEADER_LEN (length src_bytes))
              (\<lambda>n. checked_add_usize n (length dest_bytes)))
              (\<lambda>n. checked_add_usize n (length payload)))
            (IoError InvalidInput ''packet too large''))
          (\<lambda>len.
            if len > 4294967295 then Inl (IoError InvalidInput ''packet too large'')
            else
              (let hdr = [0x80 OR protocol_type_byte protocol, VERSION, 0, max_ttl, max_ttl]
                     @ u32_to_be (of_nat len)
                     @ u16_to_be (of_nat (length src_bytes))
                     @ u16_to_be (of_nat (length dest_bytes))
                     @ src_bytes @ dest_bytes
               in Inr \<lparr>pk_buf = hdr @ payload, pk_src = src, pk_dest = dest, pk_off = length hdr\<rparr>)))"

text \<open>\<open>buf[a..b]\<close>, used where the code has checked the bounds.\<close>

definition byte_slice :: "nat \<Rightarrow> nat \<Rightarrow> bytes \<Rightarrow> bytes" where
  "byte_slice a b buf = take (b - a) (drop a buf)"

definition packet_parse :: "bytes \<Rightarrow> packet io_result" where
  "packet_parse buf =
     (if length buf < FIXED_HEADER_LEN then Inl (IoError InvalidData ''short packet'')
      else if buf ! 0 AND 0x80 = 0 then Inl (IoError InvalidData ''not a rustp2p packet'')
      else if buf ! 1 \<noteq> VERSION then Inl (IoError InvalidData ''unsupported packet version'')
      else if unat (u32_from_be (byte_slice 5 9 buf)) \<noteq> length buf
      then Inl (IoError InvalidData ''packet length mismatch'')
      else
        (let src_len = unat (u16_from_be (byte_slice 9 11 buf));
             dest_len = unat (u16_from_be (byte_slice 11 13 buf));
             src_start = FIXED_HEADER_LEN
         in and_then (ok_or (checked_add_usize src_start src_len)
              (IoError InvalidData ''invalid src length'')) (\<lambda>dest_start.
            and_then (ok_or (checked_add_usize dest_start dest_len)
              (IoError InvalidData ''invalid dest length'')) (\<lambda>payload_offset.
            if payload_offset > length buf
            then Inl (IoError InvalidData ''peer id length exceeds packet'')
            else if \<not> utf8_valid (byte_slice src_start dest_start buf)
            then Inl (IoError InvalidData ''src peer id'')
            else if \<not> utf8_valid (byte_slice dest_start payload_offset buf)
            then Inl (IoError InvalidData ''dest peer id'')
            else Inr \<lparr>pk_buf = buf, pk_src = PeerId (byte_slice src_start dest_start buf),
                pk_dest = PeerId (byte_slice dest_start payload_offset buf), pk_off = payload_offset\<rparr>))))"

definition packet_protocol :: "packet \<Rightarrow> protocol_type io_result" where
  "packet_protocol p = protocol_type_try_from (pk_buf p ! 0 AND 0x7f)"

definition packet_ttl :: "packet \<Rightarrow> u8" where "packet_ttl p = pk_buf p ! 4"
definition packet_max_ttl :: "packet \<Rightarrow> u8" where "packet_max_ttl p = pk_buf p ! 3"

definition decrement_ttl :: "packet \<Rightarrow> bool \<times> packet" where
  "decrement_ttl p =
     (if pk_buf p ! 4 \<le> 1 then (False, p)
      else (True, p\<lparr>pk_buf := (pk_buf p)[4 := pk_buf p ! 4 - 1]\<rparr>))"

definition packet_payload :: "packet \<Rightarrow> bytes" where
  "packet_payload p = drop (pk_off p) (pk_buf p)"

section \<open>The layout of a packet\<close>

text \<open>The wire image of a packet, byte by byte.\<close>

definition wire :: "u8 \<Rightarrow> u8 \<Rightarrow> u8 \<Rightarrow> u8 \<Rightarrow> bytes \<Rightarrow> bytes \<Rightarrow> bytes \<Rightarrow> bytes" where
  "wire kind flags max_ttl ttl src dest payload =
     [kind, VERSION, flags, max_ttl, ttl]
     @ u32_to_be (of_nat (FIXED_HEADER_LEN + length src + length dest + length payload))
     @ u16_to_be (of_nat (length src)) @ u16_to_be (of_nat (length dest))
     @ src @ dest @ payload"

definition wire_packet :: "u8 \<Rightarrow> u8 \<Rightarrow> u8 \<Rightarrow> u8 \<Rightarrow> bytes \<Rightarrow> bytes \<Rightarrow> bytes \<Rightarrow> packet" where
  "wire_packet kind flags max_ttl ttl src dest payload =
     \<lparr>pk_buf = wire kind flags max_ttl ttl src dest payload, pk_src = PeerId src,
      pk_dest = PeerId dest, pk_off = FIXED_HEADER_LEN + length src + length dest\<rparr>"

definition wire_fits :: "bytes \<Rightarrow> bytes \<Rightarrow> bytes \<Rightarrow> bool" where
  "wire_fits src dest payload \<longleftrightarrow> length src \<le> 65535 \<and> length dest \<le> 65535
     \<and> FIXED_HEADER_LEN + length src + length dest + length payload \<le> 4294967295"

named_theorems wire_simps

lemma length_wire [wire_simps]:
  "length (wire k f m t src dest payload) = FIXED_HEADER_LEN + length src + length dest + length payload"
  by (simp add: wire_def FIXED_HEADER_LEN_def)

lemma wire_bytes [wire_simps]:
  "wire k f m t src dest payload ! 0 = k" "wire k f m t src dest payload ! 1 = VERSION"
  "wire k f m t src dest payload ! Suc 0 = VERSION"
  "wire k f m t src dest payload ! 3 = m" "wire k f m t src dest payload ! 4 = t"
  by (simp_all add: wire_def numeral_3_eq_3 eval_nat_numeral)

lemma wire_set_ttl [wire_simps]:
  "(wire k f m t src dest payload)[4 := t'] = wire k f m t' src dest payload"
  by (simp add: wire_def eval_nat_numeral)

lemma slice_append: "a = length xs \<Longrightarrow> b = a + length ys \<Longrightarrow> byte_slice a b (xs @ ys @ zs) = ys"
  by (simp add: byte_slice_def)

lemma wire_slices [wire_simps]:
  "byte_slice 5 9 (wire k f m t src dest payload)
     = u32_to_be (of_nat (FIXED_HEADER_LEN + length src + length dest + length payload))"
  "byte_slice 9 11 (wire k f m t src dest payload) = u16_to_be (of_nat (length src))"
  "byte_slice 11 13 (wire k f m t src dest payload) = u16_to_be (of_nat (length dest))"
  "byte_slice FIXED_HEADER_LEN (FIXED_HEADER_LEN + length src) (wire k f m t src dest payload) = src"
  "byte_slice (FIXED_HEADER_LEN + length src) (FIXED_HEADER_LEN + length src + length dest)
     (wire k f m t src dest payload) = dest"
proof -
  let ?h = "[k, VERSION, f, m, t]"
  let ?l = "u32_to_be (of_nat (FIXED_HEADER_LEN + length src + length dest + length payload))"
  let ?s = "u16_to_be (of_nat (length src))" and ?d = "u16_to_be (of_nat (length dest))"
  have w: "wire k f m t src dest payload = ?h @ ?l @ ?s @ ?d @ src @ dest @ payload"
    by (simp add: wire_def)
  show "byte_slice 5 9 (wire k f m t src dest payload) = ?l"
    unfolding w by (rule slice_append) simp_all
  show "byte_slice 9 11 (wire k f m t src dest payload) = ?s"
    unfolding w append_assoc [symmetric, of ?h ?l] by (rule slice_append) simp_all
  show "byte_slice 11 13 (wire k f m t src dest payload) = ?d"
    unfolding w append_assoc [symmetric, of ?h ?l] append_assoc [symmetric, of "?h @ ?l" ?s]
    by (rule slice_append) simp_all
  show "byte_slice FIXED_HEADER_LEN (FIXED_HEADER_LEN + length src) (wire k f m t src dest payload) = src"
    unfolding w append_assoc [symmetric, of ?h ?l] append_assoc [symmetric, of "?h @ ?l" ?s]
      append_assoc [symmetric, of "(?h @ ?l) @ ?s" ?d]
    by (rule slice_append) (simp_all add: FIXED_HEADER_LEN_def)
  show "byte_slice (FIXED_HEADER_LEN + length src) (FIXED_HEADER_LEN + length src + length dest)
      (wire k f m t src dest payload) = dest"
    unfolding w append_assoc [symmetric, of ?h ?l] append_assoc [symmetric, of "?h @ ?l" ?s]
      append_assoc [symmetric, of "(?h @ ?l) @ ?s" ?d] append_assoc [symmetric, of "((?h @ ?l) @ ?s) @ ?d" src]
    by (rule slice_append) (simp_all add: FIXED_HEADER_LEN_def)
qed

lemma drop_wire [wire_simps]:
  "drop (FIXED_HEADER_LEN + length src + length dest) (wire k f m t src dest payload) = payload"
proof -
  let ?pre = "[k, VERSION, f, m, t]
     @ u32_to_be (of_nat (FIXED_HEADER_LEN + length src + length dest + length payload))
     @ u16_to_be (of_nat (length src)) @ u16_to_be (of_nat (length dest)) @ src @ dest"
  have "wire k f m t src dest payload = ?pre @ payload" by (simp add: wire_def)
  moreover have "length ?pre = FIXED_HEADER_LEN + length src + length dest"
    by (simp add: FIXED_HEADER_LEN_def)
  ultimately show ?thesis by (metis append_eq_conv_conj)
qed

lemma unat_of_nat_small:
  "n \<le> 4294967295 \<Longrightarrow> unat (of_nat n :: u32) = n" "n \<le> 65535 \<Longrightarrow> unat (of_nat n :: u16) = n"
  by (simp_all add: unat_of_nat)

lemma packet_parse_wire:
  assumes "wire_fits src dest payload" and "k AND 0x80 \<noteq> 0" and "utf8_valid src" and "utf8_valid dest"
  shows "packet_parse (wire k f m t src dest payload) = Inr (wire_packet k f m t src dest payload)"
proof -
  have "unat (of_nat (FIXED_HEADER_LEN + length src + length dest + length payload) :: u32)
      = FIXED_HEADER_LEN + length src + length dest + length payload"
    "unat (of_nat (length src) :: u16) = length src" "unat (of_nat (length dest) :: u16) = length dest"
    using assms(1) unfolding wire_fits_def by (auto intro!: unat_of_nat_small simp del: of_nat_add)
  moreover have "checked_add_usize FIXED_HEADER_LEN (length src) = Some (FIXED_HEADER_LEN + length src)"
    "checked_add_usize (FIXED_HEADER_LEN + length src) (length dest)
      = Some (FIXED_HEADER_LEN + length src + length dest)"
    using assms(1) by (simp_all add: wire_fits_def checked_add_usize_def usize_max_def)
  ultimately show ?thesis
    unfolding packet_parse_def wire_packet_def using assms(2-4)
    by (simp add: wire_simps be_simps Let_def)
qed

lemma packet_build_wire:
  "packet_build proto src dest ttl payload = Inr p \<longleftrightarrow>
     wire_fits (pid_bytes src) (pid_bytes dest) payload
     \<and> p = wire_packet (0x80 OR protocol_type_byte proto) 0 ttl ttl (pid_bytes src) (pid_bytes dest) payload"
proof (cases "length (pid_bytes src) > 65535 \<or> length (pid_bytes dest) > 65535")
  case True
  then show ?thesis by (auto simp: packet_build_def wire_fits_def)
next
  case False
  then have "FIXED_HEADER_LEN + length (pid_bytes src) + length (pid_bytes dest) \<le> usize_max"
    by (simp add: FIXED_HEADER_LEN_def usize_max_def)
  with False show ?thesis
    by (auto simp: packet_build_def wire_fits_def wire_packet_def wire_def checked_add_usize_def
        usize_max_def FIXED_HEADER_LEN_def Let_def)
qed

lemma kind_bits:
  "(0x80 OR protocol_type_byte proto) AND 0x80 \<noteq> 0"
  "(0x80 OR protocol_type_byte proto) AND 0x7f = protocol_type_byte proto"
  "(0x80 OR protocol_type_byte proto) AND 0x40 = 0"
  by (cases proto; simp)+

lemma protocol_type_roundtrip: "protocol_type_try_from (protocol_type_byte t) = Inr t"
  by (cases t) (simp_all add: protocol_type_try_from_def)

lemma protocol_type_try_from_Inr: "protocol_type_try_from b = Inr t \<Longrightarrow> b = protocol_type_byte t"
  by (simp add: protocol_type_try_from_def split: if_splits) 

lemma wire_packet_fields [simp]:
  "pk_src (wire_packet k f m t src dest payload) = PeerId src"
  "pk_dest (wire_packet k f m t src dest payload) = PeerId dest"
  "pk_buf (wire_packet k f m t src dest payload) = wire k f m t src dest payload"
  "packet_payload (wire_packet k f m t src dest payload) = payload"
  "packet_ttl (wire_packet k f m t src dest payload) = t"
  "packet_max_ttl (wire_packet k f m t src dest payload) = m"
  "packet_protocol (wire_packet k f m t src dest payload) = protocol_type_try_from (k AND 0x7f)"
  by (simp_all add: wire_packet_def packet_payload_def packet_ttl_def packet_max_ttl_def
      packet_protocol_def wire_simps)

lemma decrement_ttl_wire:
  "decrement_ttl (wire_packet k f m t src dest payload) =
     (if t \<le> 1 then (False, wire_packet k f m t src dest payload)
      else (True, wire_packet k f m (t - 1) src dest payload))"
  by (simp add: decrement_ttl_def wire_packet_def wire_simps)

lemma slice_drop: "i \<le> j \<Longrightarrow> drop i buf = byte_slice i j buf @ drop j buf"
  by (metis append_take_drop_id drop_drop le_add_diff_inverse2 byte_slice_def)

lemma split_slices:
  assumes "13 \<le> a" and "a \<le> b"
  shows "buf = take 5 buf @ byte_slice 5 9 buf @ byte_slice 9 11 buf @ byte_slice 11 13 buf
     @ byte_slice 13 a buf @ byte_slice a b buf @ drop b buf"
proof -
  have "drop 13 buf = byte_slice 13 a buf @ byte_slice a b buf @ drop b buf"
    using assms by (simp flip: slice_drop)
  moreover have "drop 5 buf = byte_slice 5 9 buf @ byte_slice 9 11 buf @ byte_slice 11 13 buf @ drop 13 buf"
    by (simp flip: slice_drop)
  ultimately show ?thesis by (metis append_take_drop_id)
qed

lemma take_5: "5 \<le> length buf \<Longrightarrow> take 5 buf = [buf ! 0, buf ! 1, buf ! 2, buf ! 3, buf ! 4]"
  by (rule nth_equalityI) (auto simp: less_Suc_eq nth_Cons' eval_nat_numeral)

lemma length_slice: "b \<le> length buf \<Longrightarrow> length (byte_slice a b buf) = b - a"
  by (simp add: byte_slice_def)

lemma be_of_length:
  "length bs = 4 \<Longrightarrow> unat (u32_from_be bs) = n \<Longrightarrow> u32_to_be (of_nat n) = bs"
  "length bs = 2 \<Longrightarrow> unat (u16_from_be bs) = n \<Longrightarrow> u16_to_be (of_nat n) = bs"
  using to_be_from_be [of bs] by auto

text \<open>Whatever the parser accepts is the wire image of the packet it returns.\<close>

lemma packet_parse_sound:
  assumes "packet_parse buf = Inr p"
  obtains k f m t src dest payload where "buf = wire k f m t src dest payload"
    and "p = wire_packet k f m t src dest payload" and "wire_fits src dest payload"
    and "k AND 0x80 \<noteq> 0" and "utf8_valid src" and "utf8_valid dest"
proof -
  define sl where "sl = unat (u16_from_be (byte_slice 9 11 buf))"
  define dl where "dl = unat (u16_from_be (byte_slice 11 13 buf))"
  have small: "sl < 65536" "dl < 65536" unfolding sl_def dl_def by (rule unat_bounds)+
  then have add: "checked_add_usize FIXED_HEADER_LEN sl = Some (13 + sl)"
    "checked_add_usize (13 + sl) dl = Some (13 + sl + dl)"
    by (simp_all add: checked_add_usize_def usize_max_def FIXED_HEADER_LEN_def)
  from assms have hdr: "13 \<le> length buf" "buf ! 0 AND 0x80 \<noteq> 0" "buf ! 1 = VERSION"
    "unat (u32_from_be (byte_slice 5 9 buf)) = length buf"
    by (auto simp: packet_parse_def FIXED_HEADER_LEN_def split: if_splits)
  let ?s = "byte_slice 13 (13 + sl) buf" and ?d = "byte_slice (13 + sl) (13 + sl + dl) buf"
    and ?p = "drop (13 + sl + dl) buf"
  from assms hdr add have body: "13 + sl + dl \<le> length buf" "utf8_valid ?s" "utf8_valid ?d"
    "p = \<lparr>pk_buf = buf, pk_src = PeerId ?s, pk_dest = PeerId ?d, pk_off = 13 + sl + dl\<rparr>"
    by (auto simp: packet_parse_def FIXED_HEADER_LEN_def Let_def simp flip: sl_def dl_def split: if_splits)
  have len: "length ?s = sl" "length ?d = dl" "length ?p = length buf - (13 + sl + dl)"
    using body(1) by (simp_all add: length_slice)
  then have total: "FIXED_HEADER_LEN + length ?s + length ?d + length ?p = length buf"
    using body(1) by (simp add: FIXED_HEADER_LEN_def)
  have be: "byte_slice 5 9 buf = u32_to_be (of_nat (length buf))"
    "byte_slice 9 11 buf = u16_to_be (of_nat sl)" "byte_slice 11 13 buf = u16_to_be (of_nat dl)"
    using hdr(1,4) by (rule_tac be_of_length [symmetric]; simp add: length_slice sl_def dl_def)+
  have w: "buf = wire (buf ! 0) (buf ! 2) (buf ! 3) (buf ! 4) ?s ?d ?p"
    using split_slices [of "13 + sl" "13 + sl + dl" buf] take_5 [of buf] hdr(1,3)
    unfolding wire_def total unfolding len(1,2) be by simp
  have "length buf < 4294967296" using hdr(4) by (metis unat_bounds(3))
  then have "wire_fits ?s ?d ?p"
    unfolding wire_fits_def total using small len(1,2) by simp
  moreover have "p = wire_packet (buf ! 0) (buf ! 2) (buf ! 3) (buf ! 4) ?s ?d ?p"
    using body(4) w len by (simp add: wire_packet_def FIXED_HEADER_LEN_def)
  ultimately show thesis using that [OF w] hdr(2) body(2,3) by simp
qed

section \<open>Relays\<close>

text \<open>
  What a relay does to a packet for another peer (the packet part of
  \<open>handle_transport_packet\<close> and \<open>forward_packet\<close>): parse, decrement the TTL, send the bytes on.
  The receiver takes \<open>max_ttl - ttl\<close> as the hop metric.
\<close>

definition relay_hop :: "bytes \<Rightarrow> bytes option" where
  "relay_hop buf =
     (case packet_parse buf of
        Inl _ \<Rightarrow> None
      | Inr p \<Rightarrow> (case decrement_ttl p of (True, p') \<Rightarrow> Some (pk_buf p') | (False, _) \<Rightarrow> None))"

fun relay_hops :: "nat \<Rightarrow> bytes \<Rightarrow> bytes option" where
  "relay_hops 0 buf = Some buf"
| "relay_hops (Suc n) buf = (case relay_hop buf of None \<Rightarrow> None | Some buf' \<Rightarrow> relay_hops n buf')"

definition packet_metric :: "packet \<Rightarrow> u8" where
  "packet_metric p = saturating_sub (packet_max_ttl p) (packet_ttl p)"

lemma relay_hop_wire:
  assumes "wire_fits src dest payload" and "k AND 0x80 \<noteq> 0" and "utf8_valid src" and "utf8_valid dest"
  shows "relay_hop (wire k f m t src dest payload) =
     (if t \<le> 1 then None else Some (wire k f m (t - 1) src dest payload))"
  by (simp add: relay_hop_def packet_parse_wire [OF assms] decrement_ttl_wire)

lemma unat_ttl_step: "\<not> t \<le> (1::u8) \<Longrightarrow> unat (t - 1) = unat t - 1 \<and> 1 < unat t"
  by (simp add: word_le_nat_alt unat_sub_if')

lemma relay_hops_wire:
  assumes "wire_fits src dest payload" and "k AND 0x80 \<noteq> 0" and "utf8_valid src" and "utf8_valid dest"
  shows "relay_hops n (wire k f m t src dest payload) =
     (if n = 0 \<or> n < unat t then Some (wire k f m (t - of_nat n) src dest payload) else None)"
proof (induction n arbitrary: t)
  case (Suc n)
  show ?case
  proof (cases "t \<le> 1")
    case True
    then have "unat t \<le> 1" by (simp add: word_le_nat_alt)
    with True show ?thesis by (simp add: relay_hop_wire [OF assms])
  next
    case False
    with unat_ttl_step [OF False] show ?thesis
      by (auto simp: relay_hop_wire [OF assms] Suc.IH algebra_simps)
  qed
qed simp

lemma classify_kind: "classify_packet (0x80 OR protocol_type_byte proto) = PtRustP2p (protocol_type_byte proto)"
  by (cases proto) (simp_all add: classify_packet_def)

lemma wire_first: "wire k f m t src dest payload = k # tl (wire k f m t src dest payload)"
  by (simp add: wire_def)

text \<open>What arrives after \<open>n\<close> relays.\<close>

lemma relayed_packet:
  assumes "packet_build proto src dest max_ttl payload = Inr p"
    and "utf8_valid (pid_bytes src)" and "utf8_valid (pid_bytes dest)" and "n = 0 \<or> n < unat max_ttl"
  obtains buf q where "relay_hops n (pk_buf p) = Some buf" "packet_parse buf = Inr q"
    "packet_protocol q = Inr proto" "pk_src q = src" "pk_dest q = dest" "packet_payload q = payload"
    "unat (packet_metric q) = n" "buf = (0x80 OR protocol_type_byte proto) # tl buf"
proof -
  from assms(1) have fits: "wire_fits (pid_bytes src) (pid_bytes dest) payload"
    and p: "p = wire_packet (0x80 OR protocol_type_byte proto) 0 max_ttl max_ttl
        (pid_bytes src) (pid_bytes dest) payload"
    by (simp_all add: packet_build_wire)
  note w = relay_hops_wire [OF fits kind_bits(1) assms(2,3)]
    packet_parse_wire [OF fits kind_bits(1) assms(2,3)]
  from assms(4) have n: "n \<le> unat max_ttl" by auto
  have "unat max_ttl < 256" by (rule unat_bounds)
  with n have "n < 256" by linarith
  then have "unat (of_nat n :: u8) = n" by (simp add: unat_of_nat)
  then have "unat (saturating_sub max_ttl (max_ttl - of_nat n)) = n"
    using n by (simp add: unat_saturating_sub unat_sub_if')
  with assms(4) p w wire_first show thesis
    by (intro that [OF _ w(2)]) (simp_all add: packet_metric_def kind_bits protocol_type_roundtrip)
qed

section \<open>Properties of packets\<close>

text \<open>
  C14: Packets survive the wire. A packet that \<open>build\<close> produces is parsed back to the very same
  packet; its type, source, destination, TTL and payload are those given to \<open>build\<close>; and its
  first byte sends it to the rustp2p handler, never to the QUIC, STUN or punch path.
\<close>

theorem packet_round_trip:
  assumes "packet_build proto src dest max_ttl payload = Inr p"
    and "utf8_valid (pid_bytes src)" and "utf8_valid (pid_bytes dest)"
  shows "packet_parse (pk_buf p) = Inr p \<and> packet_protocol p = Inr proto
    \<and> pk_src p = src \<and> pk_dest p = dest \<and> packet_payload p = payload
    \<and> packet_max_ttl p = max_ttl \<and> packet_ttl p = max_ttl
    \<and> classify_packet (pk_buf p ! 0) = PtRustP2p (protocol_type_byte proto)"
proof -
  from assms(1) have fits: "wire_fits (pid_bytes src) (pid_bytes dest) payload"
    and p: "p = wire_packet (0x80 OR protocol_type_byte proto) 0 max_ttl max_ttl
        (pid_bytes src) (pid_bytes dest) payload"
    by (simp_all add: packet_build_wire)
  with packet_parse_wire [OF fits kind_bits(1) assms(2,3)] show ?thesis
    by (simp add: kind_bits protocol_type_roundtrip wire_simps classify_kind)
qed

theorem packet_round_trip_witness:
  "\<exists>p. packet_build QuicRelay (PeerId [0x61]) (PeerId [0xc3, 0xa9]) 8 [1, 2, 3] = Inr p
     \<and> packet_parse (pk_buf p) = Inr p \<and> packet_payload p = [1, 2, 3]"
proof -
  obtain p where b: "packet_build QuicRelay (PeerId [0x61]) (PeerId [0xc3, 0xa9]) 8 [1, 2, 3] = Inr p"
    by (auto simp: packet_build_wire wire_fits_def FIXED_HEADER_LEN_def)
  from packet_round_trip [OF this] b show ?thesis by (simp add: utf8_cont_def)
qed

text \<open>
  \<open>build\<close> refuses exactly what the header cannot describe: a peer id of more than 65535
  bytes or a packet of more than \<open>u32::MAX\<close> bytes.
\<close>

theorem packet_build_error_iff:
  "(\<exists>e. packet_build proto src dest ttl payload = Inl e) \<longleftrightarrow>
     length (pid_bytes src) > 65535 \<or> length (pid_bytes dest) > 65535
     \<or> 13 + length (pid_bytes src) + length (pid_bytes dest) + length payload > 4294967295"
proof -
  have "(\<exists>e. packet_build proto src dest ttl payload = Inl e) \<longleftrightarrow>
      \<not> (\<exists>p. packet_build proto src dest ttl payload = Inr p)"
    by (cases "packet_build proto src dest ttl payload") auto
  then show ?thesis by (auto simp: packet_build_wire wire_fits_def FIXED_HEADER_LEN_def)
qed

text \<open>
  The parser is exact. A buffer it accepts is the wire image of a rustp2p packet of the
  current version with consistent lengths and well-formed peer ids, and those fields are what
  the packet reports, so no two different buffers are parsed to the same packet.
\<close>

theorem packet_parse_exact:
  assumes "packet_parse buf = Inr p"
  shows "buf = wire (buf ! 0) (buf ! 2) (packet_max_ttl p) (packet_ttl p)
      (pid_bytes (pk_src p)) (pid_bytes (pk_dest p)) (packet_payload p)
    \<and> buf ! 0 AND 0x80 \<noteq> 0 \<and> utf8_valid (pid_bytes (pk_src p)) \<and> utf8_valid (pid_bytes (pk_dest p))
    \<and> pk_buf p = buf"
proof -
  from assms obtain k f m t src dest payload where b: "buf = wire k f m t src dest payload"
    and p: "p = wire_packet k f m t src dest payload"
    and k: "k AND 0x80 \<noteq> 0" "utf8_valid src" "utf8_valid dest"
    by (rule packet_parse_sound)
  have "buf ! 2 = f" by (simp add: b wire_def)
  with b p k show ?thesis by (simp add: wire_simps)
qed

theorem packet_parse_exact_witness:
  "pk_buf (wire_packet 0x8c 0 8 5 [0x61] [0x62] [7]) = wire 0x8c 0 8 5 [0x61] [0x62] [7]"
  using packet_parse_exact [OF packet_parse_wire, of "[0x61]" "[0x62]" "[7]" "0x8c" 0 8 5]
  by (simp add: wire_fits_def FIXED_HEADER_LEN_def)

text \<open>
  C15: The TTL counts hops and bounds them. A packet built with TTL \<open>max_ttl\<close> passes \<open>n\<close> relays
  exactly when \<open>n < max_ttl\<close> (or \<open>n = 0\<close>); what arrives is the same packet but for the TTL byte,
  and the receiver computes the metric \<open>n\<close>, the number of relays on the way.
\<close>

theorem relay_hop_count:
  assumes "packet_build proto src dest max_ttl payload = Inr p"
    and "utf8_valid (pid_bytes src)" and "utf8_valid (pid_bytes dest)"
  shows "if n = 0 \<or> n < unat max_ttl
    then \<exists>buf q. relay_hops n (pk_buf p) = Some buf \<and> packet_parse buf = Inr q
      \<and> packet_protocol q = Inr proto \<and> pk_src q = src \<and> pk_dest q = dest
      \<and> packet_payload q = payload \<and> unat (packet_metric q) = n
    else relay_hops n (pk_buf p) = None"
proof (cases "n = 0 \<or> n < unat max_ttl")
  case True
  obtain buf q where "relay_hops n (pk_buf p) = Some buf" "packet_parse buf = Inr q"
    "packet_protocol q = Inr proto" "pk_src q = src" "pk_dest q = dest" "packet_payload q = payload"
    "unat (packet_metric q) = n" "buf = (0x80 OR protocol_type_byte proto) # tl buf"
    by (rule relayed_packet [OF assms True])
  with True show ?thesis by auto
next
  case False
  from assms(1) have "wire_fits (pid_bytes src) (pid_bytes dest) payload"
    and p: "p = wire_packet (0x80 OR protocol_type_byte proto) 0 max_ttl max_ttl
        (pid_bytes src) (pid_bytes dest) payload"
    by (simp_all add: packet_build_wire)
  from relay_hops_wire [OF this(1) kind_bits(1) assms(2,3)] False p show ?thesis by simp
qed

theorem relay_hop_count_witness:
  "\<exists>p buf q. packet_build QuicRelay (PeerId [0x61]) (PeerId [0x62]) 8 [1] = Inr p
     \<and> relay_hops 3 (pk_buf p) = Some buf \<and> packet_parse buf = Inr q \<and> unat (packet_metric q) = 3
     \<and> relay_hops 8 (pk_buf p) = None"
proof -
  obtain p where b: "packet_build QuicRelay (PeerId [0x61]) (PeerId [0x62]) 8 [1] = Inr p"
    by (auto simp: packet_build_wire wire_fits_def FIXED_HEADER_LEN_def)
  from relay_hop_count [OF b, of 3] relay_hop_count [OF b, of 8] b show ?thesis by auto
qed

end
