(* ===== verification/Addr_Text.thy ===== *)
theory Addr_Text
  imports Net_Addr
begin

text \<open>
  The text form of addresses that control payloads carry: \<open>Display\<close> and \<open>FromStr\<close> of
  \<open>Ipv4Addr\<close>, \<open>Ipv6Addr\<close> and \<open>SocketAddr\<close> of the Rust standard library (\<open>core::net\<close>), as
  functions on UTF-8 bytes. The theory shows that parsing inverts printing, except for the flow
  label of an IPv6 socket address, which the text does not carry.
\<close>

section \<open>Printing\<close>

definition digit_byte :: "nat \<Rightarrow> u8" where
  "digit_byte d = (if d < 10 then of_nat (0x30 + d) else of_nat (0x57 + d))"

function show_radix :: "nat \<Rightarrow> nat \<Rightarrow> bytes" where
  "show_radix r n = (if n < r \<or> r < 2 then [digit_byte n] else show_radix r (n div r) @ [digit_byte (n mod r)])"
  by auto
termination
  by (relation "measure snd") (auto simp: div_less_dividend)

declare show_radix.simps [simp del]

definition show_dec :: "nat \<Rightarrow> bytes" where "show_dec = show_radix 10"
definition show_hex :: "nat \<Rightarrow> bytes" where "show_hex = show_radix 16"

fun show_v4 :: "ipv4_addr \<Rightarrow> bytes" where
  "show_v4 (Ipv4Addr a b c d) =
     show_dec (unat a) @ [0x2e] @ show_dec (unat b) @ [0x2e] @ show_dec (unat c) @ [0x2e] @ show_dec (unat d)"

text \<open>Hexadecimal groups joined by colons.\<close>

fun show_groups :: "u16 list \<Rightarrow> bytes" where
  "show_groups [] = []"
| "show_groups [g] = show_hex (unat g)"
| "show_groups (g # h # gs) = show_hex (unat g) @ [0x3a] @ show_groups (h # gs)"

text \<open>The first longest run of zero groups, as its start and length.\<close>

fun zero_span :: "u16 list \<Rightarrow> nat \<Rightarrow> nat \<times> nat \<Rightarrow> nat \<times> nat \<Rightarrow> nat \<times> nat" where
  "zero_span [] i longest current = longest"
| "zero_span (g # gs) i longest current =
     (if g = 0 then
        (let current' = (if snd current = 0 then (i, 1) else (fst current, snd current + 1));
             longest' = (if snd current' > snd longest then current' else longest)
         in zero_span gs (Suc i) longest' current')
      else zero_span gs (Suc i) longest (0, 0))"

fun v6_mapped_v4 :: "ipv6_addr \<Rightarrow> ipv4_addr option" where
  "v6_mapped_v4 (Ipv6Addr a b c d e f g h) =
     (if a = 0 \<and> b = 0 \<and> c = 0 \<and> d = 0 \<and> e = 0 \<and> f = 0xffff
      then Some (Ipv4Addr (of_nat (unat g div 256)) (of_nat (unat g mod 256))
             (of_nat (unat h div 256)) (of_nat (unat h mod 256)))
      else None)"

definition show_v6 :: "ipv6_addr \<Rightarrow> bytes" where
  "show_v6 ip =
     (case v6_mapped_v4 ip of
        Some v4 \<Rightarrow> [0x3a, 0x3a, 0x66, 0x66, 0x66, 0x66, 0x3a] @ show_v4 v4
      | None \<Rightarrow>
          (let segs = v6_segments ip; (start, len) = zero_span segs 0 (0, 0) (0, 0) in
           if len > 1 then show_groups (take start segs) @ [0x3a, 0x3a] @ show_groups (drop (start + len) segs)
           else show_groups segs))"

fun show_socket_addr :: "socket_addr \<Rightarrow> bytes" where
  "show_socket_addr (SockV4 ip p) = show_v4 ip @ [0x3a] @ show_dec (unat p)"
| "show_socket_addr (SockV6 ip p flow scope) =
     [0x5b] @ show_v6 ip @ (if scope = 0 then [] else [0x25] @ show_dec (unat scope))
     @ [0x5d, 0x3a] @ show_dec (unat p)"

section \<open>Parsing\<close>

type_synonym 'a reader = "bytes \<Rightarrow> ('a \<times> bytes) option"

definition to_digit :: "nat \<Rightarrow> u8 \<Rightarrow> nat option" where
  "to_digit r b =
     (let d = (if 0x30 \<le> b \<and> b \<le> 0x39 then Some (unat b - 0x30)
               else if 0x61 \<le> b \<and> b \<le> 0x7a then Some (unat b - 0x57)
               else if 0x41 \<le> b \<and> b \<le> 0x5a then Some (unat b - 0x37)
               else None)
      in case d of Some n \<Rightarrow> if n < r then Some n else None | None \<Rightarrow> None)"

fun read_digits :: "nat \<Rightarrow> bytes \<Rightarrow> nat list \<times> bytes" where
  "read_digits r [] = ([], [])"
| "read_digits r (b # bs) =
     (case to_digit r b of
        None \<Rightarrow> ([], b # bs)
      | Some d \<Rightarrow> (let (ds, rest) = read_digits r bs in (d # ds, rest)))"

definition digits_val :: "nat \<Rightarrow> nat list \<Rightarrow> nat" where
  "digits_val r ds = foldl (\<lambda>a d. a * r + d) 0 ds"

definition read_number :: "nat \<Rightarrow> nat option \<Rightarrow> bool \<Rightarrow> nat \<Rightarrow> nat reader" where
  "read_number r max_digits allow_zero_prefix bound s =
     (let (ds, rest) = read_digits r s in
      if ds = [] then None
      else if (case max_digits of Some m \<Rightarrow> length ds > m | None \<Rightarrow> False) then None
      else if \<not> allow_zero_prefix \<and> hd ds = 0 \<and> length ds > 1 then None
      else if digits_val r ds < bound then Some (digits_val r ds, rest) else None)"

definition read_given :: "u8 \<Rightarrow> bytes \<Rightarrow> bytes option" where
  "read_given c s = (case s of b # bs \<Rightarrow> if b = c then Some bs else None | [] \<Rightarrow> None)"

definition read_separator :: "u8 \<Rightarrow> nat \<Rightarrow> 'a reader \<Rightarrow> 'a reader" where
  "read_separator sep i inner s =
     (if i > 0 then Option.bind (read_given sep s) inner else inner s)"

definition read_v4 :: "ipv4_addr reader" where
  "read_v4 s =
     (let num = read_number 10 (Some 3) False 256 in
      Option.bind (read_separator 0x2e 0 num s) (\<lambda>(a, s).
      Option.bind (read_separator 0x2e 1 num s) (\<lambda>(b, s).
      Option.bind (read_separator 0x2e 2 num s) (\<lambda>(c, s).
      Option.bind (read_separator 0x2e 3 num s) (\<lambda>(d, s).
        Some (Ipv4Addr (of_nat a) (of_nat b) (of_nat c) (of_nat d), s))))))"

text \<open>
  \<open>read_groups\<close> with \<open>k\<close> slots left at index \<open>i\<close>: the groups read, whether it ended with an
  embedded IPv4 address, and the rest of the text.
\<close>

fun read_groups :: "nat \<Rightarrow> nat \<Rightarrow> bytes \<Rightarrow> u16 list \<times> bool \<times> bytes" where
  "read_groups 0 i s = ([], False, s)"
| "read_groups (Suc k) i s =
     (case (if k > 0 then read_separator 0x3a i read_v4 s else None) of
        Some (Ipv4Addr a b c d, s') \<Rightarrow> ([u16_from_be [a, b], u16_from_be [c, d]], True, s')
      | None \<Rightarrow>
          (case read_separator 0x3a i (read_number 16 (Some 4) True 65536) s of
             None \<Rightarrow> ([], False, s)
           | Some (g, s') \<Rightarrow>
               (let (gs, v4, rest) = read_groups k (Suc i) s' in (of_nat g # gs, v4, rest))))"

definition v6_of_segments :: "u16 list \<Rightarrow> ipv6_addr" where
  "v6_of_segments gs =
     Ipv6Addr (gs ! 0) (gs ! 1) (gs ! 2) (gs ! 3) (gs ! 4) (gs ! 5) (gs ! 6) (gs ! 7)"

definition read_v6 :: "ipv6_addr reader" where
  "read_v6 s =
     (let (head, head_v4, s1) = read_groups 8 0 s in
      if length head = 8 then Some (v6_of_segments head, s1)
      else if head_v4 then None
      else Option.bind (read_given 0x3a s1) (\<lambda>s2.
        Option.bind (read_given 0x3a s2) (\<lambda>s3.
          let limit = 8 - (length head + 1); (tail, _, s4) = read_groups limit 0 s3 in
          Some (v6_of_segments (head @ replicate (8 - length head - length tail) 0 @ tail), s4))))"

definition read_port :: "u16 reader" where
  "read_port s = Option.bind (read_given 0x3a s) (\<lambda>s.
     map_option (\<lambda>(n, s). (of_nat n, s)) (read_number 10 None True 65536 s))"

definition read_scope_id :: "u32 reader" where
  "read_scope_id s = Option.bind (read_given 0x25 s) (\<lambda>s.
     map_option (\<lambda>(n, s). (of_nat n, s)) (read_number 10 None True 4294967296 s))"

definition read_socket_addr_v4 :: "socket_addr reader" where
  "read_socket_addr_v4 s = Option.bind (read_v4 s) (\<lambda>(ip, s).
     map_option (\<lambda>(p, s). (SockV4 ip p, s)) (read_port s))"

definition read_socket_addr_v6 :: "socket_addr reader" where
  "read_socket_addr_v6 s =
     Option.bind (read_given 0x5b s) (\<lambda>s.
     Option.bind (read_v6 s) (\<lambda>(ip, s).
     let (scope, s) = (case read_scope_id s of Some r \<Rightarrow> r | None \<Rightarrow> (0, s)) in
     Option.bind (read_given 0x5d s) (\<lambda>s.
       map_option (\<lambda>(p, s). (SockV6 ip p 0 scope, s)) (read_port s))))"

text \<open>\<open>parse_with\<close>: the whole text must be consumed.\<close>

definition parse_with :: "'a reader \<Rightarrow> bytes \<Rightarrow> 'a option" where
  "parse_with rd s = (case rd s of Some (x, []) \<Rightarrow> Some x | _ \<Rightarrow> None)"

definition v4_from_str :: "bytes \<Rightarrow> ipv4_addr option" where
  "v4_from_str s = (if length s > 15 then None else parse_with read_v4 s)"

definition v6_from_str :: "bytes \<Rightarrow> ipv6_addr option" where
  "v6_from_str s = parse_with read_v6 s"

definition socket_addr_from_str :: "bytes \<Rightarrow> socket_addr option" where
  "socket_addr_from_str s =
     parse_with (\<lambda>s. case read_socket_addr_v4 s of Some r \<Rightarrow> Some r | None \<Rightarrow> read_socket_addr_v6 s) s"

section \<open>Numbers\<close>

text \<open>The text after a number must not continue it.\<close>

definition stops :: "nat \<Rightarrow> bytes \<Rightarrow> bool" where
  "stops r s \<longleftrightarrow> (case s of [] \<Rightarrow> True | b # _ \<Rightarrow> to_digit r b = None)"

lemma stops_simps [simp]: "stops r []" "stops r (b # s) \<longleftrightarrow> to_digit r b = None"
  by (simp_all add: stops_def)

lemma stops_separators [simp]:
  "to_digit r 0x2e = None" "to_digit r 0x3a = None" "to_digit r 0x25 = None" "to_digit r 0x5d = None"
  by (simp_all add: to_digit_def)

lemma to_digit_digit_byte: "d < r \<Longrightarrow> r \<le> 16 \<Longrightarrow> to_digit r (digit_byte d) = Some d"
proof -
  assume d: "d < r" "r \<le> 16"
  show ?thesis
  proof (cases "d < 10")
    case True
    then have "unat (digit_byte d) = 48 + d" by (simp add: digit_byte_def unat_of_nat del: of_nat_add)
    with True d show ?thesis by (simp add: to_digit_def word_le_nat_alt)
  next
    case False
    with d have "unat (digit_byte d) = 87 + d" by (simp add: digit_byte_def unat_of_nat del: of_nat_add)
    with False d show ?thesis by (simp add: to_digit_def word_le_nat_alt)
  qed
qed

lemma read_digits_stop: "stops r s \<Longrightarrow> read_digits r s = ([], s)"
  by (cases s) simp_all

lemma read_digits_map:
  "\<forall>d \<in> set ds. d < r \<Longrightarrow> r \<le> 16 \<Longrightarrow> stops r rest \<Longrightarrow>
     read_digits r (map digit_byte ds @ rest) = (ds, rest)"
  by (induction ds) (simp_all add: to_digit_digit_byte read_digits_stop)

function radix_digits :: "nat \<Rightarrow> nat \<Rightarrow> nat list" where
  "radix_digits r n = (if n < r \<or> r < 2 then [n] else radix_digits r (n div r) @ [n mod r])"
  by auto
termination
  by (relation "measure snd") (auto simp: div_less_dividend)

declare radix_digits.simps [simp del]

lemma show_radix_digits: "show_radix r n = map digit_byte (radix_digits r n)"
  by (induction r n rule: show_radix.induct)
    (subst show_radix.simps, subst radix_digits.simps, simp)

lemma radix_digits_ne [simp]: "radix_digits r n \<noteq> []"
  by (subst radix_digits.simps) simp

lemma radix_digits_less: "2 \<le> r \<Longrightarrow> \<forall>d \<in> set (radix_digits r n). d < r"
  by (induction r n rule: radix_digits.induct) (subst radix_digits.simps, auto)

lemma digits_val_snoc: "digits_val r (ds @ [d]) = digits_val r ds * r + d"
  by (simp add: digits_val_def)

lemma digits_val_radix: "digits_val r (radix_digits r n) = n"
proof (induction r n rule: radix_digits.induct)
  case (1 r n)
  show ?case
  proof (cases "n < r \<or> r < 2")
    case True
    then show ?thesis by (subst radix_digits.simps) (simp add: digits_val_def)
  next
    case False
    with 1 show ?thesis by (subst radix_digits.simps) (simp add: digits_val_snoc)
  qed
qed

lemma length_radix_digits: "2 \<le> r \<Longrightarrow> n < r ^ Suc m \<Longrightarrow> length (radix_digits r n) \<le> Suc m"
proof (induction m arbitrary: n)
  case 0
  then show ?case by (subst radix_digits.simps) simp
next
  case (Suc m)
  show ?case
  proof (cases "n < r")
    case True
    then show ?thesis by (subst radix_digits.simps) simp
  next
    case False
    have "n div r < r ^ Suc m" using Suc.prems by (simp add: less_mult_imp_div_less mult.commute)
    with Suc False show ?thesis by (subst radix_digits.simps) simp
  qed
qed

lemma hd_radix_digits: "2 \<le> r \<Longrightarrow> hd (radix_digits r n) = 0 \<Longrightarrow> radix_digits r n = [0]"
proof (induction r n rule: radix_digits.induct)
  case (1 r n)
  show ?case
  proof (cases "n < r")
    case True
    with 1(3) show ?thesis by (subst (asm) radix_digits.simps, subst radix_digits.simps) simp
  next
    case False
    with 1(2,3) have "hd (radix_digits r (n div r)) = 0"
      by (subst (asm) radix_digits.simps) simp
    with 1 False have "radix_digits r (n div r) = [0]" by simp
    then have "n div r = 0" using digits_val_radix [of r "n div r"] by (simp add: digits_val_def)
    with False 1(2) show ?thesis by (simp add: div_eq_0_iff)
  qed
qed

lemma read_number_show:
  assumes "2 \<le> r" and "r \<le> 16" and "stops r rest" and "n < bound"
    and "\<And>m. md = Some m \<Longrightarrow> 0 < m \<and> n < r ^ m"
  shows "read_number r md zp bound (show_radix r n @ rest) = Some (n, rest)"
proof -
  have "read_digits r (show_radix r n @ rest) = (radix_digits r n, rest)"
    unfolding show_radix_digits using assms radix_digits_less by (intro read_digits_map) auto
  moreover have "length (radix_digits r n) \<le> m" if "md = Some m" for m
    using assms(1) length_radix_digits [of r n "m - 1"] assms(5) [OF that] by simp
  moreover have "hd (radix_digits r n) = 0 \<Longrightarrow> length (radix_digits r n) \<le> 1"
    using hd_radix_digits [OF assms(1), of n] by auto
  ultimately show ?thesis
    using assms(4) by (auto simp: read_number_def digits_val_radix split: option.split)
qed

lemma read_dec_byte:
  "stops 10 rest \<Longrightarrow> read_number 10 (Some 3) False 256 (show_dec (unat (b::u8)) @ rest) = Some (unat b, rest)"
  unfolding show_dec_def by (rule read_number_show) (auto intro: order.strict_trans [OF unat_bounds(1)])

lemma read_hex_group:
  "stops 16 rest \<Longrightarrow>
     read_number 16 (Some 4) True 65536 (show_hex (unat (g::u16)) @ rest) = Some (unat g, rest)"
  unfolding show_hex_def by (rule read_number_show) auto

section \<open>Addresses\<close>

lemma read_v4_show: "stops 10 rest \<Longrightarrow> read_v4 (show_v4 ip @ rest) = Some (ip, rest)"
  by (cases ip) (simp add: read_v4_def read_separator_def read_given_def read_dec_byte)

lemma read_digits_rest: "read_digits r s = (ds, rest) \<Longrightarrow> set rest \<subseteq> set s"
  by (induction r s arbitrary: ds rest rule: read_digits.induct)
    (auto split: option.splits prod.splits)

lemma read_number_rest: "read_number r md zp b s = Some (n, rest) \<Longrightarrow> set rest \<subseteq> set s"
  using read_digits_rest [of r s] by (auto simp: read_number_def Let_def split: prod.splits if_splits)

lemma read_v4_no_dot:
  assumes "0x2e \<notin> set s" shows "read_v4 s = None"
proof (cases "read_number 10 (Some 3) False 256 s")
  case (Some x)
  obtain n rest where x: "x = (n, rest)" by (cases x)
  with Some read_number_rest assms have "0x2e \<notin> set rest" by blast
  then have "read_given 0x2e rest = None" by (cases rest) (auto simp: read_given_def)
  with Some x show ?thesis by (simp add: read_v4_def read_separator_def)
qed (simp add: read_v4_def read_separator_def)

text \<open>Texts after which no further group can be read.\<close>

definition group_end :: "bytes \<Rightarrow> bool" where
  "group_end s \<longleftrightarrow> stops 16 s \<and> 0x2e \<notin> set s
     \<and> (case s of b # r \<Rightarrow> b = 0x3a \<longrightarrow> stops 16 r | [] \<Rightarrow> True)"

lemma read_number_stops: "stops r s \<Longrightarrow> read_number r md zp b s = None"
  by (simp add: read_number_def read_digits_stop)

lemma group_end_no_group: "group_end s \<Longrightarrow> read_separator 0x3a i (read_number 16 md zp b) s = None"
  by (cases s) (auto simp: group_end_def read_separator_def read_given_def read_number_stops)

lemma no_dot_separator: "0x2e \<notin> set s \<Longrightarrow> read_separator 0x3a i read_v4 s = None"
  by (cases s) (auto simp: read_separator_def read_given_def read_v4_no_dot)

lemma show_radix_no_dot: "2 \<le> r \<Longrightarrow> r \<le> 16 \<Longrightarrow> 0x2e \<notin> set (show_radix r n)"
proof
  assume r: "2 \<le> r" "r \<le> 16" and "0x2e \<in> set (show_radix r n)"
  then obtain d where "d < r" "digit_byte d = 0x2e"
    unfolding show_radix_digits using radix_digits_less [OF r(1)] by force
  with to_digit_digit_byte [of d r] r(2) show False by simp
qed

abbreviation show_tail :: "u16 list \<Rightarrow> bytes" where
  "show_tail gs \<equiv> concat (map (\<lambda>g. 0x3a # show_hex (unat g)) gs)"

lemma show_groups_tail: "show_groups (g # gs) = show_hex (unat g) @ show_tail gs"
  by (induction gs arbitrary: g) simp_all

lemma show_hex_no_dot: "0x2e \<notin> set (show_hex n)"
  by (simp add: show_hex_def show_radix_no_dot)

lemma show_tail_no_dot: "0x2e \<notin> set (show_tail gs)"
  by (induction gs) (auto simp: show_hex_no_dot)

lemma stops_tail: "stops 16 rest \<Longrightarrow> stops 16 (show_tail gs @ rest)"
  by (cases gs) simp_all

lemma read_groups_tail:
  "length gs \<le> k \<Longrightarrow> group_end rest \<Longrightarrow> 0 < i \<Longrightarrow>
     read_groups k i (show_tail gs @ rest) = (gs, False, rest)"
proof (induction gs arbitrary: k i)
  case Nil
  then show ?case
    by (cases k) (simp_all add: group_end_no_group no_dot_separator group_end_def)
next
  case (Cons g gs)
  then obtain k' where k: "k = Suc k'" by (cases k) auto
  let ?s = "show_tail (g # gs) @ rest"
  have nd: "0x2e \<notin> set ?s" using Cons.prems(2) show_tail_no_dot [of "g # gs"] by (auto simp: group_end_def)
  have "read_separator 0x3a i (read_number 16 (Some 4) True 65536) ?s
      = Some (unat g, show_tail gs @ rest)"
    using Cons.prems(2,3) read_hex_group [of "show_tail gs @ rest" g] stops_tail [of rest gs]
    by (simp add: read_separator_def read_given_def group_end_def)
  with nd Cons k show ?case by (auto simp: no_dot_separator simp del: concat.simps list.map)
qed

lemma read_groups_show:
  assumes "length gs \<le> k" and "group_end rest"
  shows "read_groups k 0 (show_groups gs @ rest) = (gs, False, rest)"
proof (cases gs)
  case Nil
  with assms show ?thesis
    by (cases k) (simp_all add: group_end_no_group no_dot_separator group_end_def)
next
  case (Cons g gs')
  then obtain k' where k: "k = Suc k'" using assms(1) by (cases k) auto
  let ?s = "show_groups gs @ rest"
  have nd: "0x2e \<notin> set ?s"
    using assms(2) show_tail_no_dot [of gs'] show_hex_no_dot unfolding Cons show_groups_tail
    by (auto simp: group_end_def)
  have "read_separator 0x3a 0 (read_number 16 (Some 4) True 65536) ?s = Some (unat g, show_tail gs' @ rest)"
    using assms(2) read_hex_group [of "show_tail gs' @ rest" g] stops_tail [of rest gs']
    unfolding Cons show_groups_tail by (simp add: read_separator_def group_end_def)
  with nd Cons k assms show ?thesis
    by (auto simp: no_dot_separator read_groups_tail)
qed

text \<open>The span \<open>show_v6\<close> elides lies within the address and is all zeros.\<close>

definition zeros_at :: "u16 list \<Rightarrow> nat \<times> nat \<Rightarrow> bool" where
  "zeros_at segs sp \<longleftrightarrow> fst sp + snd sp \<le> length segs
     \<and> take (snd sp) (drop (fst sp) segs) = replicate (snd sp) 0"

lemma zeros_at_extend:
  assumes "zeros_at segs (a, n)" and "a + n < length segs" and "segs ! (a + n) = 0"
  shows "zeros_at segs (a, Suc n)"
  using assms by (simp add: zeros_at_def take_Suc_conv_app_nth replicate_append_same)

lemma zero_span_zeros:
  "zeros_at segs longest \<Longrightarrow> zeros_at segs current \<Longrightarrow> snd current = 0 \<or> fst current + snd current = i \<Longrightarrow>
   i \<le> length segs \<Longrightarrow> gs = drop i segs \<Longrightarrow> zeros_at segs (zero_span gs i longest current)"
proof (induction gs i longest current rule: zero_span.induct)
  case (2 g gs i longest current)
  have lt: "i < length segs"
    using "2.prems"(5) by (metis drop_all list.distinct(1) not_le)
  have i: "segs ! i = g" "gs = drop (Suc i) segs"
    using Cons_nth_drop_Suc [OF lt] "2.prems"(5) by (metis list.inject)+
  show ?case
  proof (cases "g = 0")
    case True
    let ?c = "if snd current = 0 then (i, 1) else (fst current, snd current + 1)"
    have "zeros_at segs (i, 0)" using lt by (simp add: zeros_at_def)
    then have c: "zeros_at segs ?c"
      using zeros_at_extend [of segs i 0] zeros_at_extend [of segs "fst current" "snd current"]
        "2.prems"(2,3) lt i True
      by auto
    have e: "fst ?c + snd ?c = Suc i" using "2.prems"(3) by auto
    define c' where "c' = ?c"
    define l' where "l' = (if snd c' > snd longest then c' else longest)"
    have "zeros_at segs (zero_span gs (Suc i) l' c')"
      using "2.IH"(1) [OF True c'_def l'_def] "2.prems"(1) c e lt i(2) by (simp add: c'_def l'_def)
    with True show ?thesis unfolding l'_def c'_def by (auto simp: Let_def)
  next
    case False
    have "zeros_at segs (0, 0)" by (simp add: zeros_at_def)
    with "2.IH"(2) [OF False] "2.prems"(1) lt i False show ?thesis by simp
  qed
qed simp

lemma zeros_at_split:
  "zeros_at segs (a, n) \<Longrightarrow> segs = take a segs @ replicate n 0 @ drop (a + n) segs"
  by (metis append_take_drop_id drop_drop add.commute fst_conv snd_conv zeros_at_def)

lemma v6_segments_inverse: "v6_of_segments (v6_segments ip) = ip" "length (v6_segments ip) = 8"
  by (cases ip; simp add: v6_of_segments_def eval_nat_numeral)+

lemma show_v4_starts_digit: "\<exists>b bs. show_v4 ip = b # bs \<and> b \<noteq> 0x3a \<and> to_digit 10 b \<noteq> None"
proof -
  obtain a b c d where ip: "ip = Ipv4Addr a b c d" by (cases ip)
  obtain x xs where "radix_digits 10 (unat a) = x # xs" by (meson neq_Nil_conv radix_digits_ne)
  moreover then have "x < 10" using radix_digits_less [of 10 "unat a"] by simp
  ultimately show ?thesis
    using to_digit_digit_byte [of x 10] by (auto simp: ip show_dec_def show_radix_digits)
qed

lemma read_v6_full:
  assumes "length segs = 8" and "group_end rest"
  shows "read_v6 (show_groups segs @ rest) = Some (v6_of_segments segs, rest)"
  using assms read_groups_show [of segs 8 rest] by (simp add: read_v6_def)

lemma show_groups_no_dot: "0x2e \<notin> set (show_groups gs)"
  by (cases gs) (auto simp: show_groups_tail show_hex_no_dot simp del: show_groups.simps(2,3)
      dest: show_tail_no_dot [THEN notE, rotated])

lemma read_v6_elided:
  assumes "segs = hs @ replicate n 0 @ ts" and "length segs = 8" and "1 < n" and "group_end rest"
  shows "read_v6 (show_groups hs @ [0x3a, 0x3a] @ show_groups ts @ rest) = Some (v6_of_segments segs, rest)"
proof -
  have len: "length hs + n + length ts = 8" using assms(1,2) by simp
  have "group_end ([0x3a, 0x3a] @ show_groups ts @ rest)"
    using assms(4) show_groups_no_dot by (auto simp: group_end_def)
  with len assms(3) have h: "read_groups 8 0 (show_groups hs @ [0x3a, 0x3a] @ show_groups ts @ rest)
      = (hs, False, [0x3a, 0x3a] @ show_groups ts @ rest)"
    by (intro read_groups_show) auto
  have t: "read_groups (8 - (length hs + 1)) 0 (show_groups ts @ rest) = (ts, False, rest)"
    using len assms(3,4) by (intro read_groups_show) auto
  have "8 - length hs - length ts = n" using len by simp
  with len assms(1,3) h t show ?thesis
    by (simp add: read_v6_def read_given_def del: show_groups.simps)
qed

lemma read_groups_none:
  "read_v4 s = None \<Longrightarrow> read_number 16 (Some 4) True 65536 s = None \<Longrightarrow>
     read_groups (Suc k) 0 s = ([], False, s)"
  by (simp add: read_separator_def)

lemma read_groups_hex:
  "read_v4 s = None \<Longrightarrow> read_number 16 (Some 4) True 65536 s = Some (g, s') \<Longrightarrow>
     read_groups k 1 s' = (gs, v4, rest) \<Longrightarrow> read_groups (Suc k) 0 s = (of_nat g # gs, v4, rest)"
  by (cases k) (simp_all add: read_separator_def)

lemma read_groups_v4:
  "read_v4 s = Some (Ipv4Addr a b c d, rest) \<Longrightarrow>
     read_groups (Suc (Suc k)) (Suc i) (0x3a # s) = ([u16_from_be [a, b], u16_from_be [c, d]], True, rest)"
  by (simp add: read_separator_def read_given_def)

lemma read_v4_stops: "stops 10 s \<Longrightarrow> read_v4 s = None"
  by (simp add: read_v4_def read_separator_def read_number_stops)

lemma read_v6_mapped:
  assumes "stops 10 rest"
  shows "read_v6 ([0x3a, 0x3a, 0x66, 0x66, 0x66, 0x66, 0x3a] @ show_v4 (Ipv4Addr a b c d) @ rest)
    = Some (Ipv6Addr 0 0 0 0 0 0xffff (u16_from_be [a, b]) (u16_from_be [c, d]), rest)"
proof -
  define v4 where "v4 = show_v4 (Ipv4Addr a b c d) @ rest"
  have suc: "(8::nat) = Suc 7" "(7::nat) = Suc 6" "(6::nat) = Suc (Suc 4)" by simp_all
  have h: "read_groups 8 0 (0x3a # s) = ([], False, 0x3a # s)" for s
    unfolding suc(1) by (rule read_groups_none) (simp_all add: read_v4_stops read_number_stops)
  have d: "to_digit 16 0x66 = Some 15" "to_digit 10 0x66 = None" by (simp_all add: to_digit_def)
  have "read_groups 6 1 (0x3a # v4) = ([u16_from_be [a, b], u16_from_be [c, d]], True, rest)"
    unfolding suc(3) One_nat_def v4_def by (intro read_groups_v4 read_v4_show assms)
  then have t: "read_groups 7 0 (0x66 # 0x66 # 0x66 # 0x66 # 0x3a # v4)
      = (of_nat 65535 # [u16_from_be [a, b], u16_from_be [c, d]], True, rest)"
    unfolding suc(2) by (intro read_groups_hex) (simp_all add: read_v4_stops read_number_def d digits_val_def)
  have "replicate 5 (0::u16) = [0, 0, 0, 0, 0]" by (simp add: eval_nat_numeral)
  with t show ?thesis unfolding v4_def [symmetric]
    by (simp add: read_v6_def h read_given_def v6_of_segments_def nth_Cons_numeral)
qed

lemma read_v6_show:
  assumes "group_end rest" and "stops 10 rest"
  shows "read_v6 (show_v6 ip @ rest) = Some (ip, rest)"
proof (cases "v6_mapped_v4 ip")
  case (Some v4)
  obtain a b c d e f g h where ip: "ip = Ipv6Addr a b c d e f g h" by (cases ip)
  have be: "u16_from_be [of_nat (unat w div 256), of_nat (unat w mod 256)] = w" for w :: u16
    using from_be_to_be(1) [of w] unat_bounds(2) [of w] by (simp add: u16_to_be_def be_bytes_unroll)
  from Some ip have v4: "a = 0" "b = 0" "c = 0" "d = 0" "e = 0" "f = 0xffff"
    "v4 = Ipv4Addr (of_nat (unat g div 256)) (of_nat (unat g mod 256))
             (of_nat (unat h div 256)) (of_nat (unat h mod 256))"
    by (auto split: if_splits)
  show ?thesis
    using read_v6_mapped [OF assms(2)] unfolding show_v6_def Some v4(7)
    by (simp only: option.case append.assoc) (simp only: be ip v4(1-6))
next
  case None
  let ?segs = "v6_segments ip"
  obtain start len where z: "zero_span ?segs 0 (0, 0) (0, 0) = (start, len)" by (metis surj_pair)
  have "zeros_at ?segs (start, len)"
    using zero_span_zeros [of ?segs "(0, 0)" "(0, 0)" 0 ?segs] z by (simp add: zeros_at_def)
  then have split: "?segs = take start ?segs @ replicate len 0 @ drop (start + len) ?segs"
    by (rule zeros_at_split)
  show ?thesis
  proof (cases "1 < len")
    case True
    with read_v6_elided [OF split v6_segments_inverse(2) True assms(1)] None z show ?thesis
      by (simp add: show_v6_def Let_def v6_segments_inverse(1))
  next
    case False
    with read_v6_full [OF v6_segments_inverse(2) assms(1)] None z show ?thesis
      by (simp add: show_v6_def Let_def v6_segments_inverse(1))
  qed
qed

lemma read_port_show: "stops 10 rest \<Longrightarrow> read_port (0x3a # show_dec (unat p) @ rest) = Some (p, rest)"
  using read_number_show [of 10 rest "unat p" 65536 None True]
  by (simp add: read_port_def show_dec_def read_given_def)

lemma read_scope_show:
  "stops 10 rest \<Longrightarrow> read_scope_id (0x25 # show_dec (unat w) @ rest) = Some (w, rest)"
  using read_number_show [of 10 rest "unat w" 4294967296 None True]
  by (simp add: read_scope_id_def show_dec_def read_given_def)

section \<open>Round trips\<close>

lemma length_show_v4: "length (show_v4 ip) \<le> 15"
proof -
  have "length (show_dec (unat b)) \<le> 3" for b :: u8
  proof -
    have "unat b < 10 ^ Suc 2" by (rule order.strict_trans [OF unat_bounds(1)]) simp
    then have "length (radix_digits 10 (unat b)) \<le> Suc 2" by (intro length_radix_digits) simp_all
    then show ?thesis by (simp add: show_dec_def show_radix_digits)
  qed
  note b = this
  show ?thesis
  proof (cases ip)
    case (Ipv4Addr p q r s)
    with b [of p] b [of q] b [of r] b [of s] show ?thesis by simp
  qed
qed

text \<open>
  The text form of an address parses back to the address; a socket address loses only its
  IPv6 flow label.
\<close>

fun without_flowinfo :: "socket_addr \<Rightarrow> socket_addr" where
  "without_flowinfo (SockV4 ip p) = SockV4 ip p"
| "without_flowinfo (SockV6 ip p flow scope) = SockV6 ip p 0 scope"

lemma v4_text_roundtrip: "v4_from_str (show_v4 ip) = Some ip"
  using length_show_v4 [of ip] read_v4_show [of "[]" ip] by (simp add: v4_from_str_def parse_with_def)

lemma v6_text_roundtrip: "v6_from_str (show_v6 ip) = Some ip"
  using read_v6_show [of "[]" ip] by (simp add: v6_from_str_def parse_with_def group_end_def)

lemma read_socket_addr_v6_show:
  "read_socket_addr_v6 (show_socket_addr (SockV6 ip p flow scope)) = Some (SockV6 ip p 0 scope, [])"
proof -
  have nd: "0x2e \<notin> set (show_dec n)" for n by (simp add: show_dec_def show_radix_no_dot)
  have port: "read_port (0x3a # show_dec (unat p)) = Some (p, [])"
    using read_port_show [of "[]" p] by simp
  show ?thesis
  proof (cases "scope = 0")
    case True
    have "read_v6 (show_v6 ip @ 0x5d # 0x3a # show_dec (unat p)) = Some (ip, 0x5d # 0x3a # show_dec (unat p))"
      by (rule read_v6_show) (simp_all add: group_end_def nd)
    with True port show ?thesis
      by (simp add: read_socket_addr_v6_def read_given_def read_scope_id_def)
  next
    case False
    let ?r = "0x25 # show_dec (unat scope) @ 0x5d # 0x3a # show_dec (unat p)"
    have "read_v6 (show_v6 ip @ ?r) = Some (ip, ?r)"
      by (rule read_v6_show) (simp_all add: group_end_def nd)
    moreover have "read_scope_id ?r = Some (scope, 0x5d # 0x3a # show_dec (unat p))"
      by (rule read_scope_show) simp
    ultimately show ?thesis
      using False port by (simp add: read_socket_addr_v6_def read_given_def)
  qed
qed

lemma socket_addr_text_roundtrip:
  "socket_addr_from_str (show_socket_addr a) = Some (without_flowinfo a)"
proof (cases a)
  case (SockV4 ip p)
  have "read_v4 (show_v4 ip @ 0x3a # show_dec (unat p)) = Some (ip, 0x3a # show_dec (unat p))"
    by (rule read_v4_show) simp
  with SockV4 read_port_show [of "[]" p] show ?thesis
    by (simp add: socket_addr_from_str_def parse_with_def read_socket_addr_v4_def)
next
  case (SockV6 ip p flow scope)
  have "read_socket_addr_v4 (show_socket_addr a) = None"
    unfolding SockV6 by (simp add: read_socket_addr_v4_def read_v4_stops to_digit_def)
  with SockV6 read_socket_addr_v6_show [of ip p flow scope] show ?thesis
    by (simp add: socket_addr_from_str_def parse_with_def)
qed

end
