(* ===== verification/Payload.thy ===== *)
theory Payload
  imports Nat_Info Packet Addr_Text
begin

text \<open>
  The control payloads of \<open>rustp2p-quic/src/protocol.rs\<close> and \<open>PeerInfo\<close> of
  \<open>rustp2p-quic/src/transport.rs\<close>: the payload types, their protobuf messages
  (\<open>rustp2p-quic/proto\<close>), the conversions both ways with every check they make, and the frames
  of user traffic. The protobuf wire format itself (generated code) is a parameter, the record
  \<open>pb_codec\<close>. The theory shows that conversion round-trips.
\<close>

section \<open>Payloads\<close>

record peer_info =
  pi_id :: peer_id
  pi_addrs :: "socket_addr list"
  pi_relay_hint :: "peer_id option"
  pi_last_seen :: u64
  pi_is_direct :: bool
  pi_nat :: "nat_info option"

definition peer_info_new :: "u64 \<Rightarrow> peer_id \<Rightarrow> peer_info" where
  "peer_info_new now p =
     \<lparr>pi_id = p, pi_addrs = [], pi_relay_hint = None, pi_last_seen = now, pi_is_direct = False, pi_nat = None\<rparr>"

definition with_addr :: "peer_info \<Rightarrow> socket_addr \<Rightarrow> peer_info" where
  "with_addr p a = p\<lparr>pi_addrs := pi_addrs p @ [a], pi_is_direct := True\<rparr>"

datatype observed_protocol = ObsUdp | ObsTcp

record nat_observation =
  no_protocol :: observed_protocol
  no_addr :: socket_addr
  no_observer :: peer_id
  no_at :: u64

record route_entry =
  re_peer :: peer_info
  re_metric :: u8

record hello_payload =
  hp_peer :: peer_info
  hp_peers :: "route_entry list"
  hp_observed :: "nat_observation option"

record punch_payload =
  pp_request_id :: u64
  pp_src :: peer_id
  pp_dest :: peer_id
  pp_nat :: nat_info

datatype stream_frame = StreamUser (sf_src: peer_id) (sf_dest: peer_id)

datatype datagram_frame = DatagramUser (df_id: u64) (df_src: peer_id) (df_dest: peer_id) (df_payload: bytes)

section \<open>Protobuf messages\<close>

record pb_nat_info =
  pbn_type :: int
  pbn_public_ips :: "bytes list"
  pbn_public_udp_ports :: "u32 list"
  pbn_mapping_tcp_addr :: "bytes list"
  pbn_mapping_udp_addr :: "bytes list"
  pbn_public_port_range :: u32
  pbn_local_ipv4 :: bytes
  pbn_local_ipv4s :: "bytes list"
  pbn_ipv6 :: bytes
  pbn_local_udp_ports :: "u32 list"
  pbn_local_tcp_port :: u32
  pbn_public_tcp_port :: u32
  pbn_stun_mapped_ports :: "u32 list"

record pb_peer_info =
  pbp_id :: bytes
  pbp_addrs :: "bytes list"
  pbp_relay_hint :: bytes
  pbp_last_seen :: u64
  pbp_is_direct :: bool
  pbp_nat :: "pb_nat_info option"

record pb_nat_observation =
  pbo_protocol :: int
  pbo_addr :: bytes
  pbo_observer :: bytes
  pbo_at :: u64

record pb_route_entry =
  pbr_peer :: "pb_peer_info option"
  pbr_metric :: u32

record pb_hello =
  pbh_peer :: "pb_peer_info option"
  pbh_peers :: "pb_route_entry list"
  pbh_observed :: "pb_nat_observation option"

record pb_punch =
  pbc_request_id :: u64
  pbc_src :: bytes
  pbc_dest :: bytes
  pbc_nat :: "pb_nat_info option"

type_synonym pb_stream_frame = "(bytes \<times> bytes) option"
type_synonym pb_datagram_frame = "(u64 \<times> bytes \<times> bytes \<times> bytes) option"

text \<open>
  \<open>encode_to_vec\<close> and \<open>decode\<close> of the generated message types. A decoding error is any error;
  \<open>decode_msg\<close> maps it to \<open>InvalidData\<close>.
\<close>

record pb_codec =
  enc_hello :: "pb_hello \<Rightarrow> bytes"
  dec_hello :: "bytes \<Rightarrow> pb_hello option"
  enc_route_reply :: "pb_route_entry list \<Rightarrow> bytes"
  dec_route_reply :: "bytes \<Rightarrow> pb_route_entry list option"
  enc_punch :: "pb_punch \<Rightarrow> bytes"
  dec_punch :: "bytes \<Rightarrow> pb_punch option"
  enc_observe_reply :: "pb_nat_observation option \<Rightarrow> bytes"
  dec_observe_reply :: "bytes \<Rightarrow> pb_nat_observation option option"
  enc_stream :: "pb_stream_frame \<Rightarrow> bytes"
  dec_stream :: "bytes \<Rightarrow> pb_stream_frame option"
  enc_datagram :: "pb_datagram_frame \<Rightarrow> bytes"
  dec_datagram :: "bytes \<Rightarrow> pb_datagram_frame option"

definition decode_msg :: "(bytes \<Rightarrow> 'm option) \<Rightarrow> bytes \<Rightarrow> 'm io_result" where
  "decode_msg dec payload = ok_or (dec payload) (IoError InvalidData ''protobuf'')"

section \<open>Field checks\<close>

definition required :: "string \<Rightarrow> 'a option \<Rightarrow> 'a io_result" where
  "required field v = ok_or v (IoError InvalidData (''missing protobuf field: '' @ field))"

definition parse_socket_addr :: "string \<Rightarrow> bytes \<Rightarrow> socket_addr io_result" where
  "parse_socket_addr field v = ok_or (socket_addr_from_str v) (IoError InvalidData (''invalid '' @ field))"

definition parse_ipv4 :: "string \<Rightarrow> bytes \<Rightarrow> ipv4_addr io_result" where
  "parse_ipv4 field v = ok_or (v4_from_str v) (IoError InvalidData (''invalid '' @ field))"

definition parse_ipv4_or_unspecified :: "string \<Rightarrow> bytes \<Rightarrow> ipv4_addr io_result" where
  "parse_ipv4_or_unspecified field v = (if v = [] then Inr v4_unspecified else parse_ipv4 field v)"

definition parse_ipv6 :: "string \<Rightarrow> bytes \<Rightarrow> ipv6_addr io_result" where
  "parse_ipv6 field v = ok_or (v6_from_str v) (IoError InvalidData (''invalid '' @ field))"

definition checked_u16 :: "string \<Rightarrow> u32 \<Rightarrow> u16 io_result" where
  "checked_u16 field v =
     (if unat v \<le> 65535 then Inr (of_nat (unat v)) else Inl (IoError InvalidData (field @ '' exceeds u16'')))"

definition checked_u8 :: "string \<Rightarrow> u32 \<Rightarrow> u8 io_result" where
  "checked_u8 field v =
     (if unat v \<le> 255 then Inr (of_nat (unat v)) else Inl (IoError InvalidData (field @ '' exceeds u8'')))"

definition checked_u16_vec :: "string \<Rightarrow> u32 list \<Rightarrow> u16 list io_result" where
  "checked_u16_vec field vs = collect_results (checked_u16 field) vs"

text \<open>\<open>Option::map(f).transpose()?\<close>.\<close>

definition map_transpose :: "('a \<Rightarrow> 'b io_result) \<Rightarrow> 'a option \<Rightarrow> 'b option io_result" where
  "map_transpose f x = (case x of None \<Rightarrow> Inr None | Some y \<Rightarrow> and_then (f y) (\<lambda>z. Inr (Some z)))"

section \<open>Conversions\<close>

definition u16_to_u32 :: "u16 \<Rightarrow> u32" where "u16_to_u32 w = of_nat (unat w)"
definition u8_to_u32 :: "u8 \<Rightarrow> u32" where "u8_to_u32 w = of_nat (unat w)"

definition nat_info_to_pb :: "nat_info \<Rightarrow> pb_nat_info" where
  "nat_info_to_pb info =
     \<lparr>pbn_type = (case ni_type info of Cone \<Rightarrow> 0 | Symmetric \<Rightarrow> 1),
      pbn_public_ips = map show_v4 (public_ips info),
      pbn_public_udp_ports = map u16_to_u32 (public_udp_ports info),
      pbn_mapping_tcp_addr = map show_socket_addr (mapping_tcp_addr info),
      pbn_mapping_udp_addr = map show_socket_addr (mapping_udp_addr info),
      pbn_public_port_range = u16_to_u32 (public_port_range info),
      pbn_local_ipv4 = show_v4 (ni_local_ipv4 info),
      pbn_local_ipv4s = map show_v4 (ni_local_ipv4s info),
      pbn_ipv6 = (case ni_ipv6 info of Some ip \<Rightarrow> show_v6 ip | None \<Rightarrow> []),
      pbn_local_udp_ports = map u16_to_u32 (local_udp_ports info),
      pbn_local_tcp_port = u16_to_u32 (local_tcp_port info),
      pbn_public_tcp_port = u16_to_u32 (public_tcp_port info),
      pbn_stun_mapped_ports = map u16_to_u32 (stun_mapped_ports info)\<rparr>"

definition nat_info_from_pb :: "pb_nat_info \<Rightarrow> nat_info io_result" where
  "nat_info_from_pb info =
     and_then (if pbn_type info = 0 then Inr Cone else if pbn_type info = 1 then Inr Symmetric
               else Inl (IoError InvalidData ''invalid nat type'')) (\<lambda>ty.
     and_then (collect_results (parse_ipv4 ''nat.public_ips'') (pbn_public_ips info)) (\<lambda>ips.
     and_then (checked_u16_vec ''nat.public_udp_ports'' (pbn_public_udp_ports info)) (\<lambda>udp_ports.
     and_then (collect_results (parse_socket_addr ''nat.mapping_tcp_addr'') (pbn_mapping_tcp_addr info)) (\<lambda>mtcp.
     and_then (collect_results (parse_socket_addr ''nat.mapping_udp_addr'') (pbn_mapping_udp_addr info)) (\<lambda>mudp.
     and_then (checked_u16 ''nat.public_port_range'' (pbn_public_port_range info)) (\<lambda>range.
     and_then (parse_ipv4_or_unspecified ''nat.local_ipv4'' (pbn_local_ipv4 info)) (\<lambda>lip.
     and_then (collect_results (parse_ipv4 ''nat.local_ipv4s'') (pbn_local_ipv4s info)) (\<lambda>lips.
     and_then (if pbn_ipv6 info = [] then Inr None
               else and_then (parse_ipv6 ''nat.ipv6'' (pbn_ipv6 info)) (\<lambda>ip. Inr (Some ip))) (\<lambda>v6.
     and_then (checked_u16_vec ''nat.local_udp_ports'' (pbn_local_udp_ports info)) (\<lambda>lports.
     and_then (checked_u16 ''nat.local_tcp_port'' (pbn_local_tcp_port info)) (\<lambda>ltcp.
     and_then (checked_u16 ''nat.public_tcp_port'' (pbn_public_tcp_port info)) (\<lambda>ptcp.
     and_then (checked_u16_vec ''nat.stun_mapped_ports'' (pbn_stun_mapped_ports info)) (\<lambda>stun.
       Inr \<lparr>ni_type = ty, public_ips = ips, public_udp_ports = udp_ports, mapping_tcp_addr = mtcp,
            mapping_udp_addr = mudp, public_port_range = range, ni_local_ipv4 = lip,
            ni_local_ipv4s = lips, ni_ipv6 = v6, local_udp_ports = lports, local_tcp_port = ltcp,
            public_tcp_port = ptcp, stun_mapped_ports = stun\<rparr>)))))))))))))"

definition peer_info_to_pb :: "peer_info \<Rightarrow> pb_peer_info" where
  "peer_info_to_pb peer =
     \<lparr>pbp_id = pid_bytes (pi_id peer),
      pbp_addrs = map show_socket_addr (pi_addrs peer),
      pbp_relay_hint = (case pi_relay_hint peer of Some p \<Rightarrow> pid_bytes p | None \<Rightarrow> []),
      pbp_last_seen = pi_last_seen peer,
      pbp_is_direct = pi_is_direct peer,
      pbp_nat = map_option nat_info_to_pb (pi_nat peer)\<rparr>"

definition peer_info_from_pb :: "pb_peer_info \<Rightarrow> peer_info io_result" where
  "peer_info_from_pb peer =
     and_then (collect_results (parse_socket_addr ''peer.addrs'') (pbp_addrs peer)) (\<lambda>addrs.
     and_then (map_transpose nat_info_from_pb (pbp_nat peer)) (\<lambda>n.
       Inr \<lparr>pi_id = PeerId (pbp_id peer), pi_addrs = addrs,
            pi_relay_hint = (if pbp_relay_hint peer = [] then None else Some (PeerId (pbp_relay_hint peer))),
            pi_last_seen = pbp_last_seen peer, pi_is_direct = pbp_is_direct peer, pi_nat = n\<rparr>))"

definition route_entry_to_pb :: "route_entry \<Rightarrow> pb_route_entry" where
  "route_entry_to_pb e =
     \<lparr>pbr_peer = Some (peer_info_to_pb (re_peer e)), pbr_metric = u8_to_u32 (re_metric e)\<rparr>"

definition route_entry_from_pb :: "pb_route_entry \<Rightarrow> route_entry io_result" where
  "route_entry_from_pb e =
     and_then (and_then (required ''route_entry.peer'' (pbr_peer e)) peer_info_from_pb) (\<lambda>p.
     and_then (checked_u8 ''route_entry.metric'' (pbr_metric e)) (\<lambda>m.
       Inr \<lparr>re_peer = p, re_metric = m\<rparr>))"

definition nat_observation_to_pb :: "nat_observation \<Rightarrow> pb_nat_observation" where
  "nat_observation_to_pb ob =
     \<lparr>pbo_protocol = (case no_protocol ob of ObsUdp \<Rightarrow> 0 | ObsTcp \<Rightarrow> 1),
      pbo_addr = show_socket_addr (no_addr ob),
      pbo_observer = pid_bytes (no_observer ob), pbo_at = no_at ob\<rparr>"

definition nat_observation_from_pb :: "pb_nat_observation \<Rightarrow> nat_observation io_result" where
  "nat_observation_from_pb ob =
     and_then (if pbo_protocol ob = 0 then Inr ObsUdp else if pbo_protocol ob = 1 then Inr ObsTcp
               else Inl (IoError InvalidData ''invalid observed protocol'')) (\<lambda>pr.
     and_then (parse_socket_addr ''nat_observation.observed_addr'' (pbo_addr ob)) (\<lambda>a.
       Inr \<lparr>no_protocol = pr, no_addr = a, no_observer = PeerId (pbo_observer ob), no_at = pbo_at ob\<rparr>))"

definition hello_payload_to_pb :: "hello_payload \<Rightarrow> pb_hello" where
  "hello_payload_to_pb h =
     \<lparr>pbh_peer = Some (peer_info_to_pb (hp_peer h)), pbh_peers = map route_entry_to_pb (hp_peers h),
      pbh_observed = map_option nat_observation_to_pb (hp_observed h)\<rparr>"

definition hello_payload_from_pb :: "pb_hello \<Rightarrow> hello_payload io_result" where
  "hello_payload_from_pb h =
     and_then (and_then (required ''hello.peer'' (pbh_peer h)) peer_info_from_pb) (\<lambda>p.
     and_then (collect_results route_entry_from_pb (pbh_peers h)) (\<lambda>ps.
     and_then (map_transpose nat_observation_from_pb (pbh_observed h)) (\<lambda>ob.
       Inr \<lparr>hp_peer = p, hp_peers = ps, hp_observed = ob\<rparr>)))"

definition route_reply_to_pb :: "route_entry list \<Rightarrow> pb_route_entry list" where
  "route_reply_to_pb peers = map route_entry_to_pb peers"

definition route_reply_from_pb :: "pb_route_entry list \<Rightarrow> route_entry list io_result" where
  "route_reply_from_pb peers = collect_results route_entry_from_pb peers"

definition punch_payload_to_pb :: "punch_payload \<Rightarrow> pb_punch" where
  "punch_payload_to_pb p =
     \<lparr>pbc_request_id = pp_request_id p, pbc_src = pid_bytes (pp_src p), pbc_dest = pid_bytes (pp_dest p),
      pbc_nat = Some (nat_info_to_pb (pp_nat p))\<rparr>"

definition punch_payload_from_pb :: "pb_punch \<Rightarrow> punch_payload io_result" where
  "punch_payload_from_pb p =
     and_then (and_then (required ''punch.nat_info'' (pbc_nat p)) nat_info_from_pb) (\<lambda>n.
       Inr \<lparr>pp_request_id = pbc_request_id p, pp_src = PeerId (pbc_src p), pp_dest = PeerId (pbc_dest p),
            pp_nat = n\<rparr>)"

definition observe_reply_to_pb :: "nat_observation \<Rightarrow> pb_nat_observation option" where
  "observe_reply_to_pb ob = Some (nat_observation_to_pb ob)"

definition observe_reply_from_pb :: "pb_nat_observation option \<Rightarrow> nat_observation io_result" where
  "observe_reply_from_pb ob =
     and_then (required ''nat_observe_reply.observation'' ob) nat_observation_from_pb"

section \<open>Encoding and decoding\<close>

definition encode_hello_payload :: "pb_codec \<Rightarrow> hello_payload \<Rightarrow> bytes" where
  "encode_hello_payload cd h = enc_hello cd (hello_payload_to_pb h)"

definition decode_hello_payload :: "pb_codec \<Rightarrow> bytes \<Rightarrow> hello_payload io_result" where
  "decode_hello_payload cd b = and_then (decode_msg (dec_hello cd) b) hello_payload_from_pb"

definition encode_route_reply_payload :: "pb_codec \<Rightarrow> route_entry list \<Rightarrow> bytes" where
  "encode_route_reply_payload cd r = enc_route_reply cd (route_reply_to_pb r)"

definition decode_route_reply_payload :: "pb_codec \<Rightarrow> bytes \<Rightarrow> route_entry list io_result" where
  "decode_route_reply_payload cd b = and_then (decode_msg (dec_route_reply cd) b) route_reply_from_pb"

definition encode_punch_payload :: "pb_codec \<Rightarrow> punch_payload \<Rightarrow> bytes" where
  "encode_punch_payload cd p = enc_punch cd (punch_payload_to_pb p)"

definition decode_punch_payload :: "pb_codec \<Rightarrow> bytes \<Rightarrow> punch_payload io_result" where
  "decode_punch_payload cd b = and_then (decode_msg (dec_punch cd) b) punch_payload_from_pb"

definition encode_nat_observe_reply_payload :: "pb_codec \<Rightarrow> nat_observation \<Rightarrow> bytes" where
  "encode_nat_observe_reply_payload cd ob = enc_observe_reply cd (observe_reply_to_pb ob)"

definition decode_nat_observe_reply_payload :: "pb_codec \<Rightarrow> bytes \<Rightarrow> nat_observation io_result" where
  "decode_nat_observe_reply_payload cd b = and_then (decode_msg (dec_observe_reply cd) b) observe_reply_from_pb"

definition encode_stream_frame :: "pb_codec \<Rightarrow> stream_frame \<Rightarrow> bytes" where
  "encode_stream_frame cd f = enc_stream cd (Some (pid_bytes (sf_src f), pid_bytes (sf_dest f)))"

definition decode_stream_frame :: "pb_codec \<Rightarrow> bytes \<Rightarrow> stream_frame io_result" where
  "decode_stream_frame cd b =
     and_then (and_then (decode_msg (dec_stream cd) b) (required ''stream_frame.frame''))
       (\<lambda>(s, d). Inr (StreamUser (PeerId s) (PeerId d)))"

definition encode_datagram_frame :: "pb_codec \<Rightarrow> datagram_frame \<Rightarrow> bytes" where
  "encode_datagram_frame cd f =
     enc_datagram cd (Some (df_id f, pid_bytes (df_src f), pid_bytes (df_dest f), df_payload f))"

definition decode_datagram_frame :: "pb_codec \<Rightarrow> bytes \<Rightarrow> datagram_frame io_result" where
  "decode_datagram_frame cd b =
     and_then (and_then (decode_msg (dec_datagram cd) b) (required ''datagram_frame.frame''))
       (\<lambda>(i, s, d, p). Inr (DatagramUser i (PeerId s) (PeerId d) p))"

section \<open>NAT observations\<close>

definition push_new :: "'a \<Rightarrow> 'a list \<Rightarrow> 'a list" where
  "push_new x xs = (if x \<in> set xs then xs else xs @ [x])"

record stun_result =
  sr_nat_type :: nat_type
  sr_public_ipv4 :: "ipv4_addr list"
  sr_public_ipv6 :: "ipv6_addr option"
  sr_public_udp_ports :: "u16 list"
  sr_port_range :: u16

definition apply_stun_result_to_nat_info :: "stun_result \<Rightarrow> nat_info \<Rightarrow> nat_info" where
  "apply_stun_result_to_nat_info r info =
     info\<lparr>ni_type := sr_nat_type r, public_port_range := sr_port_range r,
          stun_mapped_ports := sr_public_udp_ports r\<rparr>"

definition observed_port :: "observed_protocol \<Rightarrow> u16 \<Rightarrow> nat_info \<Rightarrow> nat_info" where
  "observed_port pr port info =
     (case pr of
        ObsUdp \<Rightarrow> info\<lparr>public_udp_ports := push_new port (public_udp_ports info)\<rparr>
      | ObsTcp \<Rightarrow> info\<lparr>public_tcp_port := port\<rparr>)"

definition apply_observation_to_nat_info :: "nat_observation \<Rightarrow> nat_info \<Rightarrow> nat_info" where
  "apply_observation_to_nat_info ob info =
     (case no_addr ob of
        SockV4 ip port \<Rightarrow>
          observed_port (no_protocol ob) port (info\<lparr>public_ips := push_new ip (public_ips info)\<rparr>)
      | SockV6 ip port flow scope \<Rightarrow>
          observed_port (no_protocol ob) port (info\<lparr>ni_ipv6 := Some ip\<rparr>))"

section \<open>Round trips\<close>

text \<open>What conversion loses: IPv6 flow labels, and a relay hint that is the empty peer id.\<close>

definition nat_info_norm :: "nat_info \<Rightarrow> nat_info" where
  "nat_info_norm info =
     info\<lparr>mapping_tcp_addr := map without_flowinfo (mapping_tcp_addr info),
          mapping_udp_addr := map without_flowinfo (mapping_udp_addr info)\<rparr>"

definition hint_norm :: "peer_id option \<Rightarrow> peer_id option" where
  "hint_norm h = (if h = Some peer_unspecified then None else h)"

definition peer_info_norm :: "peer_info \<Rightarrow> peer_info" where
  "peer_info_norm p =
     p\<lparr>pi_addrs := map without_flowinfo (pi_addrs p), pi_relay_hint := hint_norm (pi_relay_hint p),
       pi_nat := map_option nat_info_norm (pi_nat p)\<rparr>"

definition route_entry_norm :: "route_entry \<Rightarrow> route_entry" where
  "route_entry_norm e = e\<lparr>re_peer := peer_info_norm (re_peer e)\<rparr>"

definition observation_norm :: "nat_observation \<Rightarrow> nat_observation" where
  "observation_norm ob = ob\<lparr>no_addr := without_flowinfo (no_addr ob)\<rparr>"

definition hello_norm :: "hello_payload \<Rightarrow> hello_payload" where
  "hello_norm h = h\<lparr>hp_peer := peer_info_norm (hp_peer h), hp_peers := map route_entry_norm (hp_peers h),
     hp_observed := map_option observation_norm (hp_observed h)\<rparr>"

definition punch_norm :: "punch_payload \<Rightarrow> punch_payload" where
  "punch_norm p = p\<lparr>pp_nat := nat_info_norm (pp_nat p)\<rparr>"

named_theorems pb_simps

lemma collect_results_map:
  "(\<And>x. x \<in> set xs \<Longrightarrow> f (g x) = Inr (h x)) \<Longrightarrow> collect_results f (map g xs) = Inr (map h xs)"
  by (induction xs) auto

lemma checked_ports [pb_simps]:
  "checked_u16 field (u16_to_u32 w) = Inr w" "checked_u8 field (u8_to_u32 b) = Inr b"
  "checked_u16_vec field (map u16_to_u32 ws) = Inr ws"
proof -
  have le: "unat w \<le> 65535" "unat b \<le> 255" for w :: u16 and b :: u8
    using unat_bounds(2) [of w] unat_bounds(1) [of b] by linarith+
  have w: "unat (u16_to_u32 w) = unat w" for w
    unfolding u16_to_u32_def using le(1) [of w] by (intro unat_of_nat_small) linarith
  have b: "unat (u8_to_u32 b) = unat b"
    unfolding u8_to_u32_def using le(2) [of b] by (intro unat_of_nat_small) linarith
  show c: "checked_u16 field (u16_to_u32 w) = Inr w" for w by (simp add: checked_u16_def w le)
  show "checked_u8 field (u8_to_u32 b) = Inr b" by (simp add: checked_u8_def b le)
  show "checked_u16_vec field (map u16_to_u32 ws) = Inr ws"
    unfolding checked_u16_vec_def by (rule collect_results_inverse) (rule c)
qed

lemma parse_addrs [pb_simps]:
  "collect_results (parse_ipv4 field) (map show_v4 ips) = Inr ips"
  "collect_results (parse_socket_addr field) (map show_socket_addr as) = Inr (map without_flowinfo as)"
  "parse_socket_addr field (show_socket_addr a) = Inr (without_flowinfo a)"
  by (simp_all add: collect_results_inverse parse_ipv4_def v4_text_roundtrip
      collect_results_map parse_socket_addr_def socket_addr_text_roundtrip)

lemma show_v4_ne [simp]: "show_v4 ip \<noteq> []"
  by (cases ip) simp

lemma show_v6_ne [simp]: "show_v6 ip \<noteq> []"
proof
  assume "show_v6 ip = []"
  then have "v6_from_str [] = Some ip" using v6_text_roundtrip [of ip] by simp
  moreover have "v6_from_str [] = None"
    using read_groups_show [of "[]" 8 "[]"]
    by (simp add: v6_from_str_def parse_with_def read_v6_def read_given_def group_end_def)
  ultimately show False by simp
qed

lemma nat_info_pb_roundtrip [pb_simps]: "nat_info_from_pb (nat_info_to_pb info) = Inr (nat_info_norm info)"
  by (cases "ni_type info"; cases "ni_ipv6 info")
    (simp_all add: nat_info_from_pb_def nat_info_to_pb_def nat_info_norm_def pb_simps
      parse_ipv4_or_unspecified_def parse_ipv4_def v4_text_roundtrip parse_ipv6_def v6_text_roundtrip)

lemma map_transpose_map [pb_simps]:
  "(\<And>x. f (g x) = Inr (h x)) \<Longrightarrow> map_transpose f (map_option g y) = Inr (map_option h y)"
  by (cases y) (simp_all add: map_transpose_def)

lemma peer_info_pb_roundtrip [pb_simps]: "peer_info_from_pb (peer_info_to_pb p) = Inr (peer_info_norm p)"
proof -
  have "hint_norm h = (if (case h of Some p \<Rightarrow> pid_bytes p | None \<Rightarrow> []) = [] then None
      else Some (PeerId (case h of Some p \<Rightarrow> pid_bytes p | None \<Rightarrow> [])))" for h
    by (cases h) (auto simp: hint_norm_def peer_unspecified_def, metis peer_id.collapse)
  then show ?thesis
    by (simp add: peer_info_from_pb_def peer_info_to_pb_def peer_info_norm_def pb_simps)
qed

lemma route_entry_pb_roundtrip [pb_simps]:
  "route_entry_from_pb (route_entry_to_pb e) = Inr (route_entry_norm e)"
  by (simp add: route_entry_from_pb_def route_entry_to_pb_def route_entry_norm_def required_def pb_simps)

lemma observation_pb_roundtrip [pb_simps]:
  "nat_observation_from_pb (nat_observation_to_pb ob) = Inr (observation_norm ob)"
  by (cases "no_protocol ob")
    (simp_all add: nat_observation_from_pb_def nat_observation_to_pb_def observation_norm_def pb_simps)

lemma hello_pb_roundtrip [pb_simps]: "hello_payload_from_pb (hello_payload_to_pb h) = Inr (hello_norm h)"
  by (simp add: hello_payload_from_pb_def hello_payload_to_pb_def hello_norm_def required_def pb_simps
      collect_results_map)

lemma punch_pb_roundtrip [pb_simps]: "punch_payload_from_pb (punch_payload_to_pb p) = Inr (punch_norm p)"
  by (simp add: punch_payload_from_pb_def punch_payload_to_pb_def punch_norm_def required_def pb_simps)

section \<open>Properties of payloads\<close>

text \<open>
  C18: Control payloads survive the wire. When the protobuf codec decodes what it encoded, each
  of the four control payloads is decoded to what was encoded, up to IPv6 flow labels and an
  empty relay hint: no address, port, metric or NAT field is lost, changed or rejected.
\<close>

theorem control_payload_round_trip:
  assumes "dec_hello cd (enc_hello cd (hello_payload_to_pb h)) = Some (hello_payload_to_pb h)"
    and "dec_route_reply cd (enc_route_reply cd (route_reply_to_pb rs)) = Some (route_reply_to_pb rs)"
    and "dec_punch cd (enc_punch cd (punch_payload_to_pb p)) = Some (punch_payload_to_pb p)"
    and "dec_observe_reply cd (enc_observe_reply cd (observe_reply_to_pb ob)) = Some (observe_reply_to_pb ob)"
  shows "decode_hello_payload cd (encode_hello_payload cd h) = Inr (hello_norm h)
    \<and> decode_route_reply_payload cd (encode_route_reply_payload cd rs) = Inr (map route_entry_norm rs)
    \<and> decode_punch_payload cd (encode_punch_payload cd p) = Inr (punch_norm p)
    \<and> decode_nat_observe_reply_payload cd (encode_nat_observe_reply_payload cd ob) = Inr (observation_norm ob)"
  using assms
  by (simp add: decode_hello_payload_def encode_hello_payload_def decode_route_reply_payload_def
      encode_route_reply_payload_def decode_punch_payload_def encode_punch_payload_def
      decode_nat_observe_reply_payload_def encode_nat_observe_reply_payload_def decode_msg_def pb_simps
      observe_reply_from_pb_def observe_reply_to_pb_def required_def route_reply_from_pb_def
      route_reply_to_pb_def collect_results_map)

definition sample_peer :: peer_info where
  "sample_peer =
     \<lparr>pi_id = PeerId [0x61], pi_addrs = [SockV6 (Ipv6Addr 0x2001 0xdb8 0 0 0 0 0 1) 9000 0 0],
      pi_relay_hint = Some (PeerId [0x72]), pi_last_seen = 123, pi_is_direct = True,
      pi_nat = Some (nat_info_default\<lparr>public_ips := [Ipv4Addr 203 0 113 1], public_udp_ports := [4567]\<rparr>)\<rparr>"

definition sample_hello :: hello_payload where
  "sample_hello = \<lparr>hp_peer = sample_peer, hp_peers = [\<lparr>re_peer = sample_peer, re_metric = 2\<rparr>], hp_observed = None\<rparr>"

definition sample_punch :: punch_payload where
  "sample_punch = \<lparr>pp_request_id = 99, pp_src = PeerId [0x61], pp_dest = PeerId [0x62], pp_nat = nat_info_default\<rparr>"

definition sample_observation :: nat_observation where
  "sample_observation = \<lparr>no_protocol = ObsTcp, no_addr = SockV4 (Ipv4Addr 203 0 113 2) 7788,
     no_observer = PeerId [0x6f], no_at = 1\<rparr>"

definition sample_codec :: pb_codec where
  "sample_codec =
     \<lparr>enc_hello = (\<lambda>_. [1]), dec_hello = (\<lambda>_. Some (hello_payload_to_pb sample_hello)),
      enc_route_reply = (\<lambda>_. [2]), dec_route_reply = (\<lambda>_. Some (route_reply_to_pb (hp_peers sample_hello))),
      enc_punch = (\<lambda>_. [3]), dec_punch = (\<lambda>_. Some (punch_payload_to_pb sample_punch)),
      enc_observe_reply = (\<lambda>_. [4]), dec_observe_reply = (\<lambda>_. Some (observe_reply_to_pb sample_observation)),
      enc_stream = (\<lambda>_. [5]), dec_stream = (\<lambda>_. None), enc_datagram = (\<lambda>_. [6]), dec_datagram = (\<lambda>_. None)\<rparr>"

theorem control_payload_round_trip_witness:
  "decode_hello_payload sample_codec (encode_hello_payload sample_codec sample_hello) = Inr sample_hello
   \<and> decode_punch_payload sample_codec (encode_punch_payload sample_codec sample_punch) = Inr sample_punch
   \<and> decode_nat_observe_reply_payload sample_codec
       (encode_nat_observe_reply_payload sample_codec sample_observation) = Inr sample_observation"
proof -
  have "hello_norm sample_hello = sample_hello" "punch_norm sample_punch = sample_punch"
    "observation_norm sample_observation = sample_observation"
    by (simp_all add: hello_norm_def sample_hello_def route_entry_norm_def peer_info_norm_def
        sample_peer_def hint_norm_def peer_unspecified_def nat_info_norm_def nat_info_default_def
        punch_norm_def sample_punch_def observation_norm_def sample_observation_def)
  then show ?thesis
    using control_payload_round_trip [of sample_codec sample_hello "hp_peers sample_hello" sample_punch
        sample_observation]
    by (simp add: sample_codec_def)
qed

lemma set_push_new [simp]: "set (push_new x xs) = insert x (set xs)"
  by (auto simp: push_new_def)

lemma distinct_push_new [simp]: "distinct (push_new x xs) = distinct xs"
  by (auto simp: push_new_def)

lemma push_new_prefix: "\<exists>ys. push_new x xs = xs @ ys"
  by (simp add: push_new_def)

lemma push_new_idem [simp]: "push_new x (push_new x xs) = push_new x xs"
  by (simp add: push_new_def)

lemma observation_ips:
  "public_ips (apply_observation_to_nat_info ob info) =
     (case no_addr ob of SockV4 ip _ \<Rightarrow> push_new ip (public_ips info) | _ \<Rightarrow> public_ips info)"
  "public_udp_ports (apply_observation_to_nat_info ob info) =
     (if no_protocol ob = ObsUdp then push_new (sa_port (no_addr ob)) (public_udp_ports info)
      else public_udp_ports info)"
  by (auto simp: apply_observation_to_nat_info_def observed_port_def
      split: socket_addr.split observed_protocol.split)

fun nat_update :: "nat_observation + stun_result \<Rightarrow> nat_info \<Rightarrow> nat_info" where
  "nat_update (Inl ob) info = apply_observation_to_nat_info ob info"
| "nat_update (Inr r) info = apply_stun_result_to_nat_info r info"

lemma nat_update_step:
  "(\<exists>ys. public_ips (nat_update u info) = public_ips info @ ys
      \<and> (\<forall>ip \<in> set ys. \<exists>ob. u = Inl ob \<and> sa_ip (no_addr ob) = IpV4 ip))
   \<and> (\<exists>ys. public_udp_ports (nat_update u info) = public_udp_ports info @ ys
      \<and> (\<forall>p \<in> set ys. \<exists>ob. u = Inl ob \<and> no_protocol ob = ObsUdp \<and> sa_port (no_addr ob) = p))
   \<and> distinct (public_ips (nat_update u info)) = distinct (public_ips info)
   \<and> distinct (public_udp_ports (nat_update u info)) = distinct (public_udp_ports info)"
proof (cases u)
  case (Inl ob)
  then show ?thesis
    by (auto simp: observation_ips push_new_def split: socket_addr.split)
qed (simp add: apply_stun_result_to_nat_info_def)

text \<open>
  What a node believes of its public addresses only grows, and only by observation. Over
  any sequence of observations and STUN results, the known public IPs and UDP ports are
  extended at the end, never reordered or dropped, stay free of duplicates, and contain
  nothing that was neither there at the start nor observed.
\<close>

theorem public_addresses_grow:
  "(\<exists>ys. public_ips (fold nat_update us info) = public_ips info @ ys
      \<and> (\<forall>ip \<in> set ys. \<exists>ob. Inl ob \<in> set us \<and> sa_ip (no_addr ob) = IpV4 ip))
   \<and> (\<exists>ys. public_udp_ports (fold nat_update us info) = public_udp_ports info @ ys
      \<and> (\<forall>p \<in> set ys. \<exists>ob. Inl ob \<in> set us \<and> no_protocol ob = ObsUdp \<and> sa_port (no_addr ob) = p))
   \<and> distinct (public_ips (fold nat_update us info)) = distinct (public_ips info)
   \<and> distinct (public_udp_ports (fold nat_update us info)) = distinct (public_udp_ports info)"
proof (induction us arbitrary: info)
  case (Cons u us)
  note step = nat_update_step [of u info] and IH = Cons.IH [of "nat_update u info"]
  from step obtain as where "public_ips (nat_update u info) = public_ips info @ as"
    "\<forall>ip \<in> set as. \<exists>ob. u = Inl ob \<and> sa_ip (no_addr ob) = IpV4 ip" by blast
  moreover from step obtain bs where "public_udp_ports (nat_update u info) = public_udp_ports info @ bs"
    "\<forall>p \<in> set bs. \<exists>ob. u = Inl ob \<and> no_protocol ob = ObsUdp \<and> sa_port (no_addr ob) = p" by blast
  ultimately show ?case using IH step by (fastforce simp: append_assoc)
qed simp

theorem public_addresses_grow_witness:
  "distinct (public_ips (fold nat_update [Inl sample_observation, Inl sample_observation] nat_info_default))"
  using public_addresses_grow [of "[Inl sample_observation, Inl sample_observation]" nat_info_default]
  by (simp add: nat_info_default_def)

end
