(* ===== verification/Transport.thy ===== *)
theory Transport
  imports Route_Selection Payload
begin

text \<open>
  \<open>rustp2p-quic/src/transport.rs\<close>: the peer store, the confirmed routes, the cache of tunnel
  actors and the ways to send. State is threaded explicitly; what the outside world answers
  (whether an actor's queue is open, whether a UDP send succeeds) and the clocks come from an
  environment record.
\<close>

section \<open>Environment and state\<close>

record env =
  en_ms :: u64
  en_secs :: u64
  en_instant :: instant
  en_rand :: "nat \<Rightarrow> u64"
  en_codec :: pb_codec
  en_actor_open :: "u64 \<Rightarrow> bool"
  en_udp_send :: "bytes \<Rightarrow> socket_addr \<Rightarrow> unit io_result"
  en_punch :: "unit io_result"

text \<open>What leaves the node: bytes handed to the actor of a tunnel, or sent from the main socket.\<close>

datatype out_event = OutTunnel route_key u64 bytes | OutUdp bytes socket_addr

datatype core_outbound = PeerPacket peer_id bytes | RoutePacket route_key bytes

record transport =
  tr_id :: peer_id
  tr_closed :: bool
  tr_peers :: "(peer_id, peer_info) dashmap"
  tr_routes :: "peer_id route_table"
  tr_attached :: bool
  tr_tunnels :: "(route_key, u64) dashmap"
  tr_next_tunnel_id :: u64
  tr_local :: socket_addr
  tr_raw_local :: socket_addr
  tr_local_tcp :: "socket_addr option"
  tr_outbound :: "core_outbound list"
  tr_sender_open :: bool
  tr_out :: "out_event list"

datatype link_mode = Direct | Relay

record link_info =
  li_peer :: peer_id
  li_mode :: link_mode
  li_metric :: u8

definition normalize_local_addr :: "socket_addr \<Rightarrow> socket_addr \<Rightarrow> socket_addr" where
  "normalize_local_addr actual requested =
     (if ip_is_unspecified (sa_ip requested) \<or> \<not> ip_is_unspecified (sa_ip actual) then actual
      else sa_new (sa_ip requested) (sa_port actual))"

text \<open>The state \<open>bind\<close> builds once the core has bound its sockets.\<close>

definition transport_bind ::
  "peer_id \<Rightarrow> load_balance \<Rightarrow> socket_addr \<Rightarrow> socket_addr \<Rightarrow> socket_addr option \<Rightarrow> transport" where
  "transport_bind p lb bind_addr raw_local core_tcp =
     \<lparr>tr_id = p, tr_closed = False, tr_peers = [], tr_routes = route_table_new lb, tr_attached = True,
      tr_tunnels = [], tr_next_tunnel_id = 1, tr_local = normalize_local_addr raw_local bind_addr,
      tr_raw_local = raw_local, tr_local_tcp = map_option (\<lambda>a. normalize_local_addr a bind_addr) core_tcp,
      tr_outbound = [], tr_sender_open = True, tr_out = []\<rparr>"

section \<open>Sending\<close>

definition try_send_packet :: "peer_id \<Rightarrow> bytes \<Rightarrow> transport \<Rightarrow> unit io_result \<times> transport" where
  "try_send_packet dest data t =
     (if tr_sender_open t then (Inr (), t\<lparr>tr_outbound := tr_outbound t @ [PeerPacket dest data]\<rparr>)
      else (Inl (IoError BrokenPipe ''transport sender closed''), t))"

definition try_send_route :: "route_key \<Rightarrow> bytes \<Rightarrow> transport \<Rightarrow> unit io_result \<times> transport" where
  "try_send_route k data t =
     (if tr_sender_open t then (Inr (), t\<lparr>tr_outbound := tr_outbound t @ [RoutePacket k data]\<rparr>)
      else (Inl (IoError BrokenPipe ''transport sender closed''), t))"

definition send_raw_to_addr :: "env \<Rightarrow> bytes \<Rightarrow> socket_addr \<Rightarrow> transport \<Rightarrow> unit io_result \<times> transport" where
  "send_raw_to_addr env data a t =
     (case en_udp_send env data a of
        Inr u \<Rightarrow> (Inr u, t\<lparr>tr_out := tr_out t @ [OutUdp data a]\<rparr>)
      | Inl e \<Rightarrow> (Inl e, t))"

definition send_to_route :: "env \<Rightarrow> route_key \<Rightarrow> bytes \<Rightarrow> transport \<Rightarrow> unit io_result \<times> transport" where
  "send_to_route env k data t =
     (let actor = dm_get (tr_tunnels t) k in
      if (case actor of Some i \<Rightarrow> en_actor_open env i | None \<Rightarrow> False)
      then (Inr (), t\<lparr>tr_out := tr_out t @ [OutTunnel k (the actor) data]\<rparr>)
      else
        (let t' = (case actor of
             Some i \<Rightarrow> t\<lparr>tr_tunnels := dm_remove_if k (\<lambda>j. j = i) (tr_tunnels t)\<rparr>
           | None \<Rightarrow> t)
         in if protocol_is_tcp (rk_protocol k)
            then (Inl (IoError NotFound ''TCP tunnel is no longer active''), t')
            else send_raw_to_addr env data (rk_peer k) t'))"

definition send_packet_to_peer :: "env \<Rightarrow> peer_id \<Rightarrow> bytes \<Rightarrow> transport \<Rightarrow> unit io_result \<times> transport" where
  "send_packet_to_peer env p data t =
     (if \<not> tr_attached t then (Inl (IoError NotFound ''route table not attached''), t)
      else (case get_route_by_id (tr_routes t) p of
          (Inl e, rt) \<Rightarrow> (Inl e, t\<lparr>tr_routes := rt\<rparr>)
        | (Inr r, rt) \<Rightarrow> send_to_route env (r_key r) data (t\<lparr>tr_routes := rt\<rparr>)))"

text \<open>The sender task takes queued packets in order; a failed send is only logged.\<close>

fun core_send_one :: "env \<Rightarrow> core_outbound \<Rightarrow> transport \<Rightarrow> transport" where
  "core_send_one env (PeerPacket dest data) t = snd (send_packet_to_peer env dest data t)"
| "core_send_one env (RoutePacket k data) t = snd (send_to_route env k data t)"

definition core_sender_step :: "env \<Rightarrow> transport \<Rightarrow> transport" where
  "core_sender_step env t =
     (case tr_outbound t of [] \<Rightarrow> t | p # ps \<Rightarrow> core_send_one env p (t\<lparr>tr_outbound := ps\<rparr>))"

section \<open>Tunnel actors\<close>

text \<open>
  \<open>start_tunnel_actor\<close> registers the actor under its route key with a fresh id; when the actor
  ends (end of stream, send error, receiver gone, idle timeout) it unregisters that id only.
\<close>

definition start_tunnel_actor :: "route_key \<Rightarrow> transport \<Rightarrow> u64 \<times> transport" where
  "start_tunnel_actor k t =
     (let i = tr_next_tunnel_id t in
      (i, t\<lparr>tr_next_tunnel_id := i + 1, tr_tunnels := dm_insert k i (tr_tunnels t)\<rparr>))"

definition end_tunnel_actor :: "route_key \<Rightarrow> u64 \<Rightarrow> transport \<Rightarrow> transport" where
  "end_tunnel_actor k i t = t\<lparr>tr_tunnels := dm_remove_if k (\<lambda>j. j = i) (tr_tunnels t)\<rparr>"

datatype actor_event =
    ActorRecv "bytes option"
  | ActorOutbound "bytes option"
  | ActorIdle

datatype actor_action = ActorContinue | ActorDeliver bytes | ActorWrite bytes | ActorStop

text \<open>
  One turn of the actor's loop: what it does with an event, and whether its idle timer is
  reset. The nested waits (handing a packet over, writing one) end the actor as well when the
  idle timer fires or the other end is gone; that is \<open>ok = False\<close>.
\<close>

fun actor_turn :: "actor_event \<Rightarrow> bool \<Rightarrow> actor_action list \<times> bool" where
  "actor_turn (ActorRecv None) ok = ([ActorStop], False)"
| "actor_turn (ActorRecv (Some data)) ok =
     (if data = [] then ([ActorContinue], True)
      else if ok then ([ActorDeliver data], True) else ([ActorStop], True))"
| "actor_turn (ActorOutbound None) ok = ([ActorStop], False)"
| "actor_turn (ActorOutbound (Some data)) ok =
     (if ok then ([ActorWrite data], False) else ([ActorStop], False))"
| "actor_turn ActorIdle ok = ([ActorStop], False)"

section \<open>Routes and peers\<close>

definition known_peers :: "transport \<Rightarrow> peer_info list" where
  "known_peers t = map snd (tr_peers t)"

definition transport_routes :: "transport \<Rightarrow> peer_id \<Rightarrow> route list" where
  "transport_routes t p = (case routes_of (tr_routes t) p of None \<Rightarrow> [] | Some rs \<Rightarrow> rs)"

definition link_info_of :: "transport \<Rightarrow> peer_id \<Rightarrow> link_info option" where
  "link_info_of t p =
     (case route_one (tr_routes t) p of
        None \<Rightarrow> None
      | Some r \<Rightarrow> Some \<lparr>li_peer = p, li_mode = (if r_metric r = 0 then Direct else Relay), li_metric = r_metric r\<rparr>)"

definition link_mode_of :: "transport \<Rightarrow> peer_id \<Rightarrow> link_mode option" where
  "link_mode_of t p = map_option li_mode (link_info_of t p)"

definition route_for :: "peer_id \<Rightarrow> transport \<Rightarrow> route io_result \<times> transport" where
  "route_for p t = (let (r, rt) = get_route_by_id (tr_routes t) p in (r, t\<lparr>tr_routes := rt\<rparr>))"

definition route_metric_for :: "peer_id \<Rightarrow> transport \<Rightarrow> (route \<times> u8) io_result \<times> transport" where
  "route_metric_for p t =
     (let (r, t') = route_for p t in (and_then r (\<lambda>r. Inr (r, r_metric r)), t'))"

definition confirm_route :: "env \<Rightarrow> peer_id \<Rightarrow> route_key \<Rightarrow> u8 \<Rightarrow> transport \<Rightarrow> transport" where
  "confirm_route env p k metric t =
     t\<lparr>tr_routes := snd (add_route (en_instant env) p (route_from_default_rt k metric) (tr_routes t))\<rparr>"

definition update_route_read_time :: "env \<Rightarrow> peer_id \<Rightarrow> route_key \<Rightarrow> transport \<Rightarrow> transport" where
  "update_route_read_time env p k t =
     t\<lparr>tr_routes := snd (update_read_time (en_instant env) p k (tr_routes t))\<rparr>"

definition transport_route_to_id :: "transport \<Rightarrow> route_key \<Rightarrow> peer_id option" where
  "transport_route_to_id t k = route_to_id (tr_routes t) k"

definition update_route_rtt :: "peer_id \<Rightarrow> route_key \<Rightarrow> u32 \<Rightarrow> transport \<Rightarrow> transport" where
  "update_route_rtt p k rtt t = t\<lparr>tr_routes := update_rtt p k rtt (tr_routes t)\<rparr>"

definition addr_usable :: "socket_addr \<Rightarrow> bool" where
  "addr_usable a \<longleftrightarrow> \<not> ip_is_unspecified (sa_ip a)"

definition merge_peer_info :: "peer_info \<Rightarrow> peer_info \<Rightarrow> peer_info" where
  "merge_peer_info existing merged =
     (let addrs = foldl (\<lambda>as a. if addr_usable a \<and> a \<notin> set as then as @ [a] else as)
            (pi_addrs merged) (pi_addrs existing);
          direct = (pi_is_direct merged \<or> pi_is_direct existing)
      in merged\<lparr>pi_addrs := addrs, pi_is_direct := direct,
           pi_relay_hint := (if direct then None
             else if pi_relay_hint merged = None then pi_relay_hint existing else pi_relay_hint merged),
           pi_nat := (if pi_nat merged = None then pi_nat existing else pi_nat merged)\<rparr>)"

definition upsert_peer_info :: "env \<Rightarrow> peer_info \<Rightarrow> transport \<Rightarrow> transport" where
  "upsert_peer_info env peer t =
     (if pi_id peer = tr_id t then t
      else
        (let merged = peer\<lparr>pi_last_seen := en_ms env, pi_addrs := filter addr_usable (pi_addrs peer)\<rparr>;
             merged' = (case dm_get (tr_peers t) (pi_id peer) of
                 Some existing \<Rightarrow> merge_peer_info existing merged
               | None \<Rightarrow> merged)
         in t\<lparr>tr_peers := dm_insert (pi_id merged') merged' (tr_peers t)\<rparr>))"

text \<open>What \<open>confirm_peer_route\<close> makes of the peer information before it stores it.\<close>

definition confirmed_peer :: "peer_info \<Rightarrow> route_key \<Rightarrow> u8 \<Rightarrow> transport \<Rightarrow> peer_info" where
  "confirmed_peer peer k metric t =
     (if metric = 0 then
        peer\<lparr>pi_is_direct := True, pi_relay_hint := None,
          pi_addrs := (if rk_peer k \<in> set (pi_addrs peer) then pi_addrs peer
                       else pi_addrs peer @ [rk_peer k])\<rparr>
      else
        peer\<lparr>pi_is_direct := False, pi_addrs := [],
          pi_relay_hint := (if pi_relay_hint peer = None then transport_route_to_id t k
                            else pi_relay_hint peer)\<rparr>)"

definition confirm_peer_route :: "env \<Rightarrow> peer_info \<Rightarrow> route_key \<Rightarrow> u8 \<Rightarrow> transport \<Rightarrow> transport" where
  "confirm_peer_route env peer k metric t =
     upsert_peer_info env (confirmed_peer peer k metric t) (confirm_route env (pi_id peer) k metric t)"

definition transport_close :: "transport \<Rightarrow> transport" where
  "transport_close t = t\<lparr>tr_closed := True\<rparr>"

section \<open>The invariant\<close>

definition peers_ok :: "transport \<Rightarrow> bool" where
  "peers_ok t \<longleftrightarrow> dm_wf (tr_peers t) \<and>
     (\<forall>p info. dm_get (tr_peers t) p = Some info \<longrightarrow>
        pi_id info = p \<and> p \<noteq> tr_id t \<and> (\<forall>a \<in> set (pi_addrs info). addr_usable a))"

definition tr_inv :: "transport \<Rightarrow> bool" where
  "tr_inv t \<longleftrightarrow> peers_ok t \<and> rt_inv (tr_routes t)"

inductive tr_step :: "transport \<Rightarrow> transport \<Rightarrow> bool" where
  "tr_step t (upsert_peer_info env peer t)"
| "tr_step t (confirm_peer_route env peer k metric t)"
| "tr_step t (confirm_route env p k metric t)"
| "tr_step t (update_route_read_time env p k t)"
| "tr_step t (update_route_rtt p k rtt t)"
| "tr_step t (snd (route_for p t))"
| "tr_step t (snd (send_to_route env k data t))"
| "tr_step t (snd (send_packet_to_peer env p data t))"
| "tr_step t (snd (send_raw_to_addr env data a t))"
| "tr_step t (snd (try_send_packet p data t))"
| "tr_step t (snd (try_send_route k data t))"
| "tr_step t (core_sender_step env t)"
| "tr_step t (snd (start_tunnel_actor k t))"
| "tr_step t (end_tunnel_actor k i t)"
| "tr_step t (transport_close t)"

inductive_cases tr_stepE: "tr_step t t'"

inductive tr_reachable :: "load_balance \<Rightarrow> transport \<Rightarrow> bool" for lb where
  tr_init: "tr_reachable lb (transport_bind p lb bind_addr raw tcp)"
| tr_next: "tr_reachable lb t \<Longrightarrow> tr_step t t' \<Longrightarrow> tr_reachable lb t'"

text \<open>
  The peer store and the route table are independent parts: most operations leave one or both
  alone. \<open>same_peers\<close> and \<open>routes_step\<close> say so.
\<close>

definition same_peers :: "transport \<Rightarrow> transport \<Rightarrow> bool" where
  "same_peers t t' \<longleftrightarrow> tr_peers t' = tr_peers t \<and> tr_id t' = tr_id t"

definition routes_step :: "transport \<Rightarrow> transport \<Rightarrow> bool" where
  "routes_step t t' \<longleftrightarrow> tr_routes t' = tr_routes t \<or> rt_step (tr_routes t) (tr_routes t')"

lemma send_raw_frame: "same_peers t (snd (send_raw_to_addr env data a t))"
  "tr_routes (snd (send_raw_to_addr env data a t)) = tr_routes t"
  by (simp_all add: send_raw_to_addr_def same_peers_def split: sum.split)

lemma send_to_route_frame: "same_peers t (snd (send_to_route env k data t))"
  "tr_routes (snd (send_to_route env k data t)) = tr_routes t"
  by (auto simp: send_to_route_def Let_def same_peers_def send_raw_to_addr_def
      split: option.split sum.split)

lemma send_packet_frame: "same_peers t (snd (send_packet_to_peer env p data t))"
  "routes_step t (snd (send_packet_to_peer env p data t))"
proof -
  obtain r rt where g: "get_route_by_id (tr_routes t) p = (r, rt)" by (metis surj_pair)
  have "rt_step (tr_routes t) rt" using step_get [of "tr_routes t" p] g by simp
  with g send_to_route_frame [where t = "t\<lparr>tr_routes := rt\<rparr>" and env = env and data = data]
  show "same_peers t (snd (send_packet_to_peer env p data t))"
    "routes_step t (snd (send_packet_to_peer env p data t))"
    by (auto simp: send_packet_to_peer_def same_peers_def routes_step_def split: sum.split)
qed

lemma route_for_frame: "same_peers t (snd (route_for p t))" "routes_step t (snd (route_for p t))"
  using step_get [of "tr_routes t" p]
  by (auto simp: route_for_def same_peers_def routes_step_def case_prod_beta Let_def)

lemma core_sender_frame: "same_peers t (core_sender_step env t)" "routes_step t (core_sender_step env t)"
proof -
  have "same_peers t (core_sender_step env t) \<and> routes_step t (core_sender_step env t)"
  proof (cases "tr_outbound t")
    case (Cons p ps)
    then show ?thesis
      using send_packet_frame [where t = "t\<lparr>tr_outbound := ps\<rparr>" and env = env]
        send_to_route_frame [where t = "t\<lparr>tr_outbound := ps\<rparr>" and env = env]
      by (cases p) (auto simp: core_sender_step_def same_peers_def routes_step_def)
  qed (simp add: core_sender_step_def same_peers_def routes_step_def)
  then show "same_peers t (core_sender_step env t)" "routes_step t (core_sender_step env t)" by simp_all
qed

lemma upsert_frame [simp]:
  "tr_routes (upsert_peer_info env peer t) = tr_routes t" "tr_id (upsert_peer_info env peer t) = tr_id t"
  by (simp_all add: upsert_peer_info_def Let_def)

lemma merged_addrs_usable:
  assumes "\<forall>a \<in> set as. addr_usable a"
  shows "\<forall>a \<in> set (foldl (\<lambda>as a. if addr_usable a \<and> a \<notin> set as then as @ [a] else as) as bs). addr_usable a"
  using assms
proof (induction bs arbitrary: as)
  case (Cons b bs)
  from Cons.prems have "\<forall>a \<in> set (if addr_usable b \<and> b \<notin> set as then as @ [b] else as). addr_usable a"
    by (auto split: if_splits)
  from Cons.IH [OF this] show ?case unfolding foldl.simps by assumption
qed simp

lemma merge_peer_info_id [simp]: "pi_id (merge_peer_info e m) = pi_id m"
  by (simp add: merge_peer_info_def Let_def)

lemma merge_peer_info_usable:
  "\<forall>a \<in> set (pi_addrs m). addr_usable a \<Longrightarrow> \<forall>a \<in> set (pi_addrs (merge_peer_info e m)). addr_usable a"
  unfolding merge_peer_info_def Let_def using merged_addrs_usable [of "pi_addrs m" "pi_addrs e"] by simp

lemma peers_ok_upsert:
  assumes "peers_ok t" shows "peers_ok (upsert_peer_info env peer t)"
proof (cases "pi_id peer = tr_id t")
  case False
  define m where "m = peer\<lparr>pi_last_seen := en_ms env, pi_addrs := filter addr_usable (pi_addrs peer)\<rparr>"
  define m' where "m' = (case dm_get (tr_peers t) (pi_id peer) of Some e \<Rightarrow> merge_peer_info e m | None \<Rightarrow> m)"
  have m: "pi_id m = pi_id peer" "\<forall>a \<in> set (pi_addrs m). addr_usable a" by (simp_all add: m_def)
  then have id: "pi_id m' = pi_id peer" by (simp add: m'_def split: option.split)
  have use: "\<forall>a \<in> set (pi_addrs m'). addr_usable a"
    using m(2) merge_peer_info_usable [OF m(2)] by (simp add: m'_def split: option.split)
  have "upsert_peer_info env peer t = t\<lparr>tr_peers := dm_insert (pi_id m') m' (tr_peers t)\<rparr>"
    using False by (simp only: upsert_peer_info_def Let_def if_False m_def m'_def)
  then have "upsert_peer_info env peer t = t\<lparr>tr_peers := dm_insert (pi_id peer) m' (tr_peers t)\<rparr>"
    using id by simp
  with False assms id use show ?thesis by (auto simp: peers_ok_def)
qed (use assms in \<open>simp add: upsert_peer_info_def\<close>)

lemma peers_ok_same: "same_peers t t' \<Longrightarrow> peers_ok t \<Longrightarrow> peers_ok t'"
  by (simp add: peers_ok_def same_peers_def)

lemma rt_inv_routes_step: "routes_step t t' \<Longrightarrow> rt_inv (tr_routes t) \<Longrightarrow> rt_inv (tr_routes t') \<and> rt_lb (tr_routes t') = rt_lb (tr_routes t)"
  by (auto simp: routes_step_def dest: rt_inv_step rt_step_lb)

lemma confirm_route_frame: "same_peers t (confirm_route env p k m t)" "routes_step t (confirm_route env p k m t)"
  by (simp_all add: confirm_route_def same_peers_def routes_step_def step_add)

lemma tr_step_frame:
  assumes "tr_step t t'"
  shows "(peers_ok t \<longrightarrow> peers_ok t') \<and> routes_step t t'"
  using assms
proof (cases rule: tr_step.cases)
  case (1 env peer)
  then show ?thesis by (simp add: peers_ok_upsert routes_step_def)
next
  case (2 env peer k m)
  have "peers_ok t \<Longrightarrow> peers_ok (confirm_route env (pi_id peer) k m t)"
    using peers_ok_same [OF confirm_route_frame(1)] .
  then show ?thesis
    using confirm_route_frame(2) [of t env "pi_id peer" k m] peers_ok_upsert 2
    by (simp add: routes_step_def confirm_peer_route_def)
next
  case (4 env p k)
  then show ?thesis
    by (simp add: update_route_read_time_def routes_step_def peers_ok_def step_read_time)
next
  case (5 p k rtt)
  then show ?thesis by (simp add: update_route_rtt_def routes_step_def peers_ok_def step_rtt)
next
  case (7 env k data)
  then show ?thesis
    using send_to_route_frame [where t = t and env = env and k = k and data = data]
      peers_ok_same by (auto simp: routes_step_def)
next
  case (9 env data a)
  then show ?thesis
    using send_raw_frame [where t = t and env = env and data = data and a = a]
      peers_ok_same by (auto simp: routes_step_def)
next
  case (10 p data)
  then show ?thesis by (simp add: try_send_packet_def routes_step_def peers_ok_def)
next
  case (11 k data)
  then show ?thesis by (simp add: try_send_route_def routes_step_def peers_ok_def)
next
  case (3 env p k m)
  then show ?thesis using peers_ok_same [OF confirm_route_frame(1)] confirm_route_frame(2) by simp
next
  case (6 p)
  then show ?thesis using peers_ok_same [OF route_for_frame(1)] route_for_frame(2) by simp
next
  case (8 env p data)
  then show ?thesis using peers_ok_same [OF send_packet_frame(1)] send_packet_frame(2) by simp
next
  case (12 env)
  then show ?thesis using peers_ok_same [OF core_sender_frame(1)] core_sender_frame(2) by simp
qed (simp_all add: start_tunnel_actor_def end_tunnel_actor_def transport_close_def routes_step_def
    peers_ok_def Let_def)

lemma tr_reachable_inv: "tr_reachable lb t \<Longrightarrow> tr_inv t \<and> rt_lb (tr_routes t) = lb"
proof (induction rule: tr_reachable.induct)
  case (tr_init p ba raw tcp)
  then show ?case by (simp add: transport_bind_def tr_inv_def peers_ok_def rt_inv_new)
next
  case (tr_next t t')
  then show ?case using tr_step_frame [of t t'] rt_inv_routes_step [of t t'] by (simp add: tr_inv_def)
qed

section \<open>Properties of the transport\<close>

lemma first_route_direct_iff:
  assumes "rt_inv rt" and "rt_lb rt = MinHopLowestLatency \<or> rt_lb rt = RoundRobin"
    and "dm_get (rt_routes rt) p = Some (c, (r, n) # rs)"
  shows "is_direct r \<longleftrightarrow> (\<exists>k. has_direct rt p k)"
proof -
  have s: "sorted (map (r_metric \<circ> fst) ((r, n) # rs))"
    using assms(2) rt_inv_list [OF assms(1,3)]
    by (elim disjE) (simp_all add: route_list_ok_def route_order_def)
  show ?thesis
  proof
    assume "is_direct r" with assms(3) show "\<exists>k. has_direct rt p k" by (auto simp: has_direct_def)
  next
    assume "\<exists>k. has_direct rt p k"
    with assms(3) have "\<exists>e \<in> set ((r, n) # rs). is_direct (fst e)"
      by (auto simp: has_direct_def)
    then obtain e where e: "e \<in> set ((r, n) # rs)" "r_metric (fst e) = 0"
      unfolding is_direct_def by (rule bexE)
    from s e(1) have "r_metric r \<le> r_metric (fst e)" by auto
    with e(2) show "is_direct r" by (simp add: is_direct_def)
  qed
qed

text \<open>
  C17: In every reachable state of the transport the peer store is keyed by peer id, never holds
  the node itself nor an unspecified (0.0.0.0 or ::) address, whatever peers advertise, and the
  route table satisfies its invariant.
\<close>

theorem transport_invariant:
  assumes "tr_reachable lb t"
  shows "peers_ok t \<and> rt_inv (tr_routes t) \<and> rt_lb (tr_routes t) = lb"
  using tr_reachable_inv [OF assms] by (simp add: tr_inv_def)

definition sample_env :: env where
  "sample_env = \<lparr>en_ms = 1000000, en_secs = 1000, en_instant = 5, en_rand = (\<lambda>n. of_nat (n + 77)),
     en_codec = sample_codec, en_actor_open = (\<lambda>_. True), en_udp_send = (\<lambda>_ _. Inr ()), en_punch = Inr ()\<rparr>"

definition sample_transport :: "load_balance \<Rightarrow> transport" where
  "sample_transport lb = transport_bind (PeerId [0x6d]) lb (SockV4 (Ipv4Addr 10 0 0 1) 0)
     (SockV4 (Ipv4Addr 0 0 0 0) 4000) None"

lemma sample_transport_reachable: "tr_reachable lb (sample_transport lb)"
  unfolding sample_transport_def by (rule tr_init)

theorem transport_invariant_witness:
  "peers_ok (upsert_peer_info sample_env (with_addr sample_peer (SockV4 (Ipv4Addr 0 0 0 0) 9))
     (sample_transport MostRecent))"
  using transport_invariant [OF tr_next [OF sample_transport_reachable [of MostRecent] tr_step.intros(1)]] by blast

text \<open>
  The link mode is truthful under the hop-count strategies: it is \<open>Direct\<close> exactly when
  the peer has a confirmed direct route, and confirming a direct route makes it \<open>Direct\<close>.
\<close>

theorem link_mode_direct_iff:
  assumes "tr_reachable lb t" and "lb = MinHopLowestLatency \<or> lb = RoundRobin"
  shows "(link_mode_of t p = Some Direct \<longleftrightarrow> (\<exists>k. has_direct (tr_routes t) p k))
    \<and> link_mode_of (confirm_peer_route env peer k 0 t) (pi_id peer) = Some Direct"
proof -
  have iff: "link_mode_of t p = Some Direct \<longleftrightarrow> (\<exists>k. has_direct (tr_routes t) p k)"
    if "tr_reachable lb t" for t p
  proof (cases "dm_get (rt_routes (tr_routes t)) p")
    case None
    then show ?thesis
      by (simp add: link_mode_of_def link_info_of_def route_one_def has_direct_def)
  next
    case (Some e)
    have inv: "rt_inv (tr_routes t)" "rt_lb (tr_routes t) = lb"
      using tr_reachable_inv [OF that] by (simp_all add: tr_inv_def)
    obtain c r n rs where e: "e = (c, (r, n) # rs)"
      using rt_inv_nonempty [OF inv(1), of p] Some by (metis list.exhaust surj_pair)
    have "link_mode_of t p = Some Direct \<longleftrightarrow> is_direct r"
      using Some e by (simp add: link_mode_of_def link_info_of_def route_one_def is_direct_def)
    with first_route_direct_iff [OF inv(1)] inv(2) assms(2) Some e show ?thesis by simp
  qed
  have "has_direct (tr_routes (confirm_peer_route env peer k 0 t)) (pi_id peer) k"
    using rts.add_direct [of "route_from_default_rt k 0" "en_instant env" "pi_id peer" "tr_routes t"]
    by (simp add: confirm_peer_route_def confirm_route_def direct_in_keys route_from_default_rt_def is_direct_def)
  moreover have "tr_reachable lb (confirm_peer_route env peer k 0 t)"
    using assms(1) by (rule tr_next) (rule tr_step.intros(2))
  ultimately show ?thesis using iff assms(1) by blast
qed

theorem link_mode_direct_iff_witness:
  "link_mode_of (confirm_peer_route sample_env sample_peer (sample_key 1) 0 (sample_transport RoundRobin))
     (pi_id sample_peer) = Some Direct"
  using link_mode_direct_iff [OF sample_transport_reachable, of RoundRobin "pi_id sample_peer" sample_env
      sample_peer "sample_key 1"] by blast

text \<open>
  Under \<open>LowestLatency\<close> the link mode can contradict routing: there is a reachable state in
  which packets to a peer take a direct route while \<open>link_mode\<close> says \<open>Relay\<close>.
\<close>

theorem link_mode_disagrees_with_routing:
  "\<exists>t p r. tr_reachable LowestLatency t \<and> link_mode_of t p = Some Relay
     \<and> fst (route_for p t) = Inr r \<and> is_direct r"
proof -
  let ?p = "pi_id sample_peer"
  let ?t1 = "confirm_route sample_env ?p (sample_key 1) 0 (sample_transport LowestLatency)"
  let ?t2 = "confirm_route sample_env ?p (sample_key 2) 1 ?t1"
  let ?t = "update_route_rtt ?p (sample_key 2) 5 ?t2"
  have "tr_reachable LowestLatency ?t"
    by (intro tr_next [OF _ tr_step.intros(3)] tr_next [OF _ tr_step.intros(5)] sample_transport_reachable)
  moreover have "link_mode_of ?t ?p = Some Relay"
    by (simp add: link_mode_of_def link_info_of_def route_one_def update_route_rtt_def confirm_route_def
        sample_transport_def transport_bind_def update_rtt_def route_from_default_rt_def sample_simps)
  moreover have "fst (route_for ?p ?t) = Inr (route_from_default_rt (sample_key 1) 0)"
    by (simp add: route_for_def get_route_by_id_def update_route_rtt_def confirm_route_def
        sample_transport_def transport_bind_def update_rtt_def route_from_default_rt_def sample_simps)
  ultimately show ?thesis by (intro exI conjI) (auto simp: route_from_default_rt_def is_direct_def)
qed

text \<open>
  The end of a tunnel actor never unregisters its successor: when an actor for a route is
  replaced by a later one, the clean-up of the first leaves the second in place.
\<close>

theorem stale_actor_end_harmless:
  assumes "start_tunnel_actor k t = (i, t1)" and "unat i < unat (tr_next_tunnel_id t2)"
    and "start_tunnel_actor k t2 = (j, t3)"
  shows "dm_get (tr_tunnels (end_tunnel_actor k i t3)) k = Some j
    \<and> dm_get (tr_tunnels (end_tunnel_actor k j t3)) k = None"
  using assms by (auto simp: start_tunnel_actor_def end_tunnel_actor_def Let_def)

theorem stale_actor_end_harmless_witness:
  "dm_get (tr_tunnels (end_tunnel_actor (sample_key 1) 1
      (snd (start_tunnel_actor (sample_key 1) (snd (start_tunnel_actor (sample_key 1) (sample_transport MostRecent)))))))
     (sample_key 1) = Some 2"
  using stale_actor_end_harmless [of "sample_key 1" "sample_transport MostRecent" 1
      "snd (start_tunnel_actor (sample_key 1) (sample_transport MostRecent))"
      "snd (start_tunnel_actor (sample_key 1) (sample_transport MostRecent))" 2
      "snd (start_tunnel_actor (sample_key 1) (snd (start_tunnel_actor (sample_key 1) (sample_transport MostRecent))))"]
  by (simp add: start_tunnel_actor_def sample_transport_def transport_bind_def Let_def)

text \<open>
  A send on a route is one event or an error. If \<open>send_to_route\<close> succeeds, exactly one
  packet left: to the actor registered for the route, or, for a UDP route whose actor is gone,
  from the main socket to the route's peer address. If it fails, nothing left; a TCP route
  without a live actor always fails. A dead actor does not stay registered.
\<close>

theorem send_to_route_spec:
  "case send_to_route env k data t of
     (Inr _, t') \<Rightarrow>
       (\<exists>i. dm_get (tr_tunnels t) k = Some i \<and> en_actor_open env i \<and> tr_out t' = tr_out t @ [OutTunnel k i data])
       \<or> (rk_protocol k = UDP \<and> tr_out t' = tr_out t @ [OutUdp data (rk_peer k)] \<and> dm_get (tr_tunnels t') k = None)
   | (Inl e, t') \<Rightarrow> tr_out t' = tr_out t \<and> dm_get (tr_tunnels t') k = None
       \<and> (rk_protocol k = TCP \<or> en_udp_send env data (rk_peer k) = Inl e)"
proof (cases "dm_get (tr_tunnels t) k")
  case None
  then show ?thesis
    by (cases "rk_protocol k"; cases "en_udp_send env data (rk_peer k)")
      (simp_all add: send_to_route_def Let_def send_raw_to_addr_def protocol_is_tcp_def)
next
  case (Some i)
  then show ?thesis
    by (cases "en_actor_open env i"; cases "rk_protocol k"; cases "en_udp_send env data (rk_peer k)")
      (simp_all add: send_to_route_def Let_def send_raw_to_addr_def protocol_is_tcp_def)
qed

end
