(* ===== verification/Protocol_Layer.thy ===== *)
theory Protocol_Layer
  imports Transport
begin

text \<open>
  The \<open>ProtocolLayer\<close> of \<open>rustp2p-quic/src/protocol.rs\<close>: its state, the handler of every packet
  type, hole-punch consultation, route discovery, bootstrap, and one tick of each background
  loop. Operations are functions on the state that end with a value, with an error, or stuck
  on a full bounded queue. A handler runs as one step; the clocks and what the outside world
  answers during it come from the environment. A task that is spawned and not awaited is put
  on a list and runs as a step of its own.
\<close>

section \<open>State and effects\<close>

record node =
  pr_transport :: transport
  pr_id :: peer_id
  pr_max_ttl :: u8
  pr_closed :: bool
  pr_hello :: "(socket_addr \<times> peer_id) list"
  pr_quic :: "(peer_id \<times> bytes) list"
  pr_whitelist :: "peer_id set option"
  pr_observers :: "peer_id set"
  pr_nat :: nat_info
  pr_peer_nat :: "(peer_id, nat_info) dashmap"
  pr_pending_hello :: "route_key set"
  pr_pending_observe :: "(peer_id, route_key) dashmap"
  pr_pending_punch :: "(u64, peer_id) dashmap"
  pr_candidates :: "(peer_id, route_key) dashmap"
  pr_last_punch :: "(peer_id, u64) dashmap"
  pr_pending_echo :: "(peer_id, u64) dashmap"
  pr_probes :: "(peer_id \<times> route_key) list"
  pr_punches :: "(peer_id \<times> bytes \<times> nat_info) list"
  pr_nat_model :: "nat_type option"
  pr_draws :: nat

text \<open>
  The last four fields are not in the struct: the spawned round-trip probes that have not run
  yet, the calls of \<open>transport.punch\<close> and of \<open>apply_nat_model\<close>, and the number of random request
  ids drawn so far.
\<close>

definition HELLO_QUEUE :: nat where "HELLO_QUEUE = 128"
definition QUIC_QUEUE :: nat where "QUIC_QUEUE = 512"

definition protocol_new ::
  "peer_id \<Rightarrow> transport \<Rightarrow> u8 \<Rightarrow> peer_id list option \<Rightarrow> peer_id list \<Rightarrow> nat_info \<Rightarrow> node" where
  "protocol_new p t ttl wl observers info =
     \<lparr>pr_transport = t, pr_id = p, pr_max_ttl = max ttl 1, pr_closed = False, pr_hello = [], pr_quic = [],
      pr_whitelist = map_option set wl, pr_observers = set observers, pr_nat = info, pr_peer_nat = [],
      pr_pending_hello = {}, pr_pending_observe = [], pr_pending_punch = [], pr_candidates = [],
      pr_last_punch = [], pr_pending_echo = [], pr_probes = [], pr_punches = [], pr_nat_model = None,
      pr_draws = 0\<rparr>"

datatype 'a eff = Done 'a | Fail io_error | Stuck

type_synonym 'a act = "node \<Rightarrow> 'a eff \<times> node"

definition ret :: "'a \<Rightarrow> 'a act" where
  "ret x n = (Done x, n)"

definition upd :: "(node \<Rightarrow> node) \<Rightarrow> unit act" where
  "upd f n = (Done (), f n)"

definition lift :: "'a io_result \<Rightarrow> 'a act" where
  "lift r n = (case r of Inl e \<Rightarrow> (Fail e, n) | Inr x \<Rightarrow> (Done x, n))"

definition bind :: "'a act \<Rightarrow> ('a \<Rightarrow> 'b act) \<Rightarrow> 'b act" where
  "bind m f n = (case m n of (Done x, n') \<Rightarrow> f x n' | (Fail e, n') \<Rightarrow> (Fail e, n') | (Stuck, n') \<Rightarrow> (Stuck, n'))"

text \<open>\<open>let _ = m\<close>, or an error that is only logged.\<close>

definition attempt :: "'a act \<Rightarrow> unit act" where
  "attempt m n = (case m n of (Stuck, n') \<Rightarrow> (Stuck, n') | (_, n') \<Rightarrow> (Done (), n'))"

fun for_each :: "('a \<Rightarrow> unit act) \<Rightarrow> 'a list \<Rightarrow> unit act" where
  "for_each f [] = ret ()"
| "for_each f (x # xs) = bind (f x) (\<lambda>_. for_each f xs)"

definition on_transport :: "(transport \<Rightarrow> 'a io_result \<times> transport) \<Rightarrow> 'a act" where
  "on_transport f n =
     (case f (pr_transport n) of (r, t) \<Rightarrow> lift r (n\<lparr>pr_transport := t\<rparr>))"

definition upd_transport :: "(transport \<Rightarrow> transport) \<Rightarrow> unit act" where
  "upd_transport f = upd (\<lambda>n. n\<lparr>pr_transport := f (pr_transport n)\<rparr>)"

text \<open>\<open>send_async\<close> on the two bounded queues waits while the queue is full.\<close>

definition send_hello :: "socket_addr \<Rightarrow> peer_id \<Rightarrow> unit act" where
  "send_hello a p n =
     (if length (pr_hello n) < HELLO_QUEUE then (Done (), n\<lparr>pr_hello := pr_hello n @ [(a, p)]\<rparr>)
      else (Stuck, n))"

definition send_quic :: "peer_id \<Rightarrow> bytes \<Rightarrow> unit act" where
  "send_quic p data n =
     (if length (pr_quic n) < QUIC_QUEUE then (Done (), n\<lparr>pr_quic := pr_quic n @ [(p, data)]\<rparr>)
      else (Stuck, n))"

section \<open>Queries\<close>

definition has_direct_route :: "node \<Rightarrow> peer_id \<Rightarrow> bool" where
  "has_direct_route n p = list_ex is_direct (transport_routes (pr_transport n) p)"

definition should_observe_with :: "node \<Rightarrow> peer_id \<Rightarrow> bool" where
  "should_observe_with n p \<longleftrightarrow> pr_observers n = {} \<or> p \<in> pr_observers n"

definition punch_allowed :: "node \<Rightarrow> peer_id \<Rightarrow> bool" where
  "punch_allowed n p = (case pr_whitelist n of None \<Rightarrow> True | Some S \<Rightarrow> p \<in> S)"

fun observed_protocol_from :: "protocol \<Rightarrow> observed_protocol" where
  "observed_protocol_from UDP = ObsUdp"
| "observed_protocol_from TCP = ObsTcp"

definition observation_from_route :: "env \<Rightarrow> node \<Rightarrow> route_key \<Rightarrow> nat_observation" where
  "observation_from_route env n k =
     \<lparr>no_protocol = observed_protocol_from (rk_protocol k), no_addr = rk_peer k, no_observer = pr_id n,
      no_at = en_ms env\<rparr>"

definition peer_info_from_packet :: "env \<Rightarrow> node \<Rightarrow> peer_id \<Rightarrow> route_key \<Rightarrow> u8 \<Rightarrow> peer_info" where
  "peer_info_from_packet env n src k metric =
     \<lparr>pi_id = src, pi_addrs = (if metric = 0 then [rk_peer k] else []),
      pi_relay_hint = (if metric > 0 then transport_route_to_id (pr_transport n) k else None),
      pi_last_seen = en_ms env, pi_is_direct = False, pi_nat = dm_get (pr_peer_nat n) src\<rparr>"

definition advertised_ip :: "node \<Rightarrow> ip_addr option" where
  "advertised_ip n =
     (let local = tr_local (pr_transport n) in
      if \<not> ip_is_unspecified (sa_ip local) then Some (sa_ip local)
      else (case public_ips (pr_nat n) of [] \<Rightarrow> None | ip # _ \<Rightarrow> Some (IpV4 ip)))"

definition self_peer_info :: "env \<Rightarrow> node \<Rightarrow> peer_info" where
  "self_peer_info env n =
     (let local = tr_local (pr_transport n);
          ad = advertised_ip n;
          addrs = (case ad of None \<Rightarrow> [] | Some ip \<Rightarrow> [sa_new ip (sa_port local)]);
          tcp = (case tr_local_tcp (pr_transport n) of
              None \<Rightarrow> None
            | Some a \<Rightarrow> if ip_is_unspecified (sa_ip a) then map_option (\<lambda>ip. sa_new ip (sa_port a)) ad
                        else Some a)
      in \<lparr>pi_id = pr_id n,
          pi_addrs = (case tcp of None \<Rightarrow> addrs | Some a \<Rightarrow> if a \<in> set addrs then addrs else addrs @ [a]),
          pi_relay_hint = None, pi_last_seen = en_ms env, pi_is_direct = True, pi_nat = Some (pr_nat n)\<rparr>)"

definition discovery_entries :: "env \<Rightarrow> node \<Rightarrow> peer_id \<Rightarrow> route_entry list" where
  "discovery_entries env n requester =
     \<lparr>re_peer = self_peer_info env n, re_metric = 0\<rparr>
     # List.map_filter (\<lambda>peer.
         if pi_id peer = requester then None
         else (case transport_routes (pr_transport n) (pi_id peer) of
             [] \<Rightarrow> None
           | r # _ \<Rightarrow> Some \<lparr>re_peer = peer, re_metric = r_metric r\<rparr>))
       (known_peers (pr_transport n))"

definition make_hello_payload :: "env \<Rightarrow> node \<Rightarrow> peer_id \<Rightarrow> nat_observation option \<Rightarrow> hello_payload" where
  "make_hello_payload env n requester observed =
     \<lparr>hp_peer = self_peer_info env n, hp_peers = discovery_entries env n requester, hp_observed = observed\<rparr>"

definition punch_payload_with_request_id :: "node \<Rightarrow> peer_id \<Rightarrow> u64 \<Rightarrow> punch_payload" where
  "punch_payload_with_request_id n dest i =
     \<lparr>pp_request_id = i, pp_src = pr_id n, pp_dest = dest, pp_nat = pr_nat n\<rparr>"

definition make_punch_payload :: "env \<Rightarrow> peer_id \<Rightarrow> punch_payload act" where
  "make_punch_payload env dest n =
     (Done (punch_payload_with_request_id n dest (en_rand env (pr_draws n))), n\<lparr>pr_draws := pr_draws n + 1\<rparr>)"

definition is_confirmed_or_candidate :: "node \<Rightarrow> peer_id \<Rightarrow> route_key \<Rightarrow> u8 \<Rightarrow> bool" where
  "is_confirmed_or_candidate n p k metric =
     (if metric \<noteq> 0 then False
      else list_ex (\<lambda>r. r_key r = k \<and> is_direct r) (transport_routes (pr_transport n) p)
        \<or> dm_get (pr_candidates n) p = Some k)"

definition is_confirmed_or_pending_nat_observe :: "peer_id \<Rightarrow> route_key \<Rightarrow> u8 \<Rightarrow> bool act" where
  "is_confirmed_or_pending_nat_observe p k metric n =
     (if is_confirmed_or_candidate n p k metric then (Done True, n)
      else if metric = 0 then
        (Done (dm_get (pr_pending_observe n) p = Some k),
         n\<lparr>pr_pending_observe := dm_remove p (pr_pending_observe n)\<rparr>)
      else (Done False, n))"

section \<open>Sending control packets\<close>

definition send_protocol :: "env \<Rightarrow> peer_id \<Rightarrow> protocol_type \<Rightarrow> bytes \<Rightarrow> unit act" where
  "send_protocol env dest proto payload n =
     bind (lift (packet_build proto (pr_id n) dest (pr_max_ttl n) payload))
       (\<lambda>p. on_transport (send_packet_to_peer env dest (pk_buf p))) n"

definition send_protocol_to_route :: "env \<Rightarrow> peer_id \<Rightarrow> route_key \<Rightarrow> protocol_type \<Rightarrow> bytes \<Rightarrow> unit act" where
  "send_protocol_to_route env dest k proto payload n =
     bind (lift (packet_build proto (pr_id n) dest (pr_max_ttl n) payload))
       (\<lambda>p. on_transport (send_to_route env k (pk_buf p))) n"

definition query_routes :: "env \<Rightarrow> peer_id \<Rightarrow> unit act" where
  "query_routes env p = send_protocol env p IDRouteQuery []"

definition forward_packet :: "env \<Rightarrow> packet \<Rightarrow> unit act" where
  "forward_packet env pkt =
     (case decrement_ttl pkt of
        (False, _) \<Rightarrow> ret ()
      | (True, pkt') \<Rightarrow> on_transport (send_packet_to_peer env (pk_dest pkt') (pk_buf pkt')))"

section \<open>Confirming routes\<close>

definition apply_observation :: "nat_observation \<Rightarrow> unit act" where
  "apply_observation ob = upd (\<lambda>n. n\<lparr>pr_nat := apply_observation_to_nat_info ob (pr_nat n)\<rparr>)"

definition spawn_probe_rtt :: "peer_id \<Rightarrow> route_key \<Rightarrow> unit act" where
  "spawn_probe_rtt p k = upd (\<lambda>n.
     if list_ex (\<lambda>r. r_key r = k \<and> route_rtt r \<noteq> None) (transport_routes (pr_transport n) p) then n
     else n\<lparr>pr_probes := pr_probes n @ [(p, k)]\<rparr>)"

text \<open>The body of the spawned task.\<close>

definition echo_probe :: "env \<Rightarrow> peer_id \<times> route_key \<Rightarrow> unit act" where
  "echo_probe env pk =
     bind (upd (\<lambda>n. n\<lparr>pr_pending_echo := dm_insert (fst pk) (en_ms env) (pr_pending_echo n)\<rparr>))
       (\<lambda>_. attempt (send_protocol_to_route env (fst pk) (snd pk) EchoRequest (u64_to_be (en_ms env))))"

definition run_probe :: "env \<Rightarrow> unit act" where
  "run_probe env n =
     (case pr_probes n of [] \<Rightarrow> (Done (), n) | pk # pks \<Rightarrow> echo_probe env pk (n\<lparr>pr_probes := pks\<rparr>))"

definition confirm_direct_and_promote :: "env \<Rightarrow> peer_info \<Rightarrow> route_key \<Rightarrow> unit act" where
  "confirm_direct_and_promote env peer k =
     bind (upd_transport (confirm_peer_route env peer k 0)) (\<lambda>_.
     bind (upd (\<lambda>n. n\<lparr>pr_candidates := dm_remove (pi_id peer) (pr_candidates n)\<rparr>)) (\<lambda>_.
     spawn_probe_rtt (pi_id peer) k))"

definition confirm_tcp_route :: "env \<Rightarrow> peer_info \<Rightarrow> route_key \<Rightarrow> u8 \<Rightarrow> unit act" where
  "confirm_tcp_route env peer k metric =
     (if protocol_is_tcp (rk_protocol k) \<and> metric = 0 then confirm_direct_and_promote env peer k
      else ret ())"

definition confirm_relay_route_from_control :: "env \<Rightarrow> peer_info \<Rightarrow> route_key \<Rightarrow> u8 \<Rightarrow> unit act" where
  "confirm_relay_route_from_control env peer k metric =
     (if metric > 0 then upd_transport (confirm_peer_route env peer k metric) else ret ())"

definition ingest_route_entry :: "env \<Rightarrow> route_key \<Rightarrow> route_entry \<Rightarrow> unit act" where
  "ingest_route_entry env via item n =
     (if pi_id (re_peer item) = pr_id n \<or> is_unspecified (pi_id (re_peer item)) then (Done (), n)
      else bind
        (case pi_nat (re_peer item) of
           None \<Rightarrow> ret ()
         | Some info \<Rightarrow> upd (\<lambda>n. n\<lparr>pr_peer_nat := dm_insert (pi_id (re_peer item)) info (pr_peer_nat n)\<rparr>))
        (\<lambda>_. upd_transport (confirm_peer_route env (re_peer item) via (saturating_add (re_metric item) 1))) n)"

definition ingest_route_entries :: "env \<Rightarrow> route_entry list \<Rightarrow> route_key \<Rightarrow> unit act" where
  "ingest_route_entries env entries via = for_each (ingest_route_entry env via) entries"

section \<open>Hole punching\<close>

text \<open>
  \<open>transport.punch\<close> hands the packet and the peer's NAT information to the puncher; the call is
  recorded and its result comes from the environment.
\<close>

definition transport_punch :: "env \<Rightarrow> peer_id \<Rightarrow> bytes \<Rightarrow> nat_info \<Rightarrow> unit act" where
  "transport_punch env p data info n = lift (en_punch env) (n\<lparr>pr_punches := pr_punches n @ [(p, data, info)]\<rparr>)"

definition execute_punch :: "env \<Rightarrow> peer_id \<Rightarrow> nat_info \<Rightarrow> unit act" where
  "execute_punch env p info =
     bind (make_punch_payload env p) (\<lambda>payload.
     bind (upd (\<lambda>n. n\<lparr>pr_pending_punch := dm_insert (pp_request_id payload) p (pr_pending_punch n)\<rparr>)) (\<lambda>_ n.
     bind (lift (packet_build PunchRequest (pr_id n) p (pr_max_ttl n) (encode_punch_payload (en_codec env) payload)))
       (\<lambda>pkt. transport_punch env p (pk_buf pkt) info) n))"

definition inject_direct_addr :: "route_key \<Rightarrow> u8 \<Rightarrow> nat_info \<Rightarrow> nat_info" where
  "inject_direct_addr k metric info =
     (if metric = 0 then
        (case rk_peer k of
           SockV4 ip port \<Rightarrow> info\<lparr>public_ips := push_new ip (public_ips info),
                                public_udp_ports := push_new port (public_udp_ports info)\<rparr>
         | SockV6 _ _ _ _ \<Rightarrow> info)
      else info)"

definition try_execute_punch :: "env \<Rightarrow> peer_id \<Rightarrow> nat_info \<Rightarrow> route_key \<Rightarrow> u8 \<Rightarrow> unit act" where
  "try_execute_punch env src info k metric n =
     (if has_direct_route n src then (Done (), n)
      else if metric > 0 \<and> (case dm_get (pr_last_punch n) src of
            Some prev \<Rightarrow> saturating_sub (en_secs env) prev < 5 | None \<Rightarrow> False)
      then (Done (), n)
      else
        (let n' = (if metric > 0 then n\<lparr>pr_last_punch := dm_insert src (en_secs env) (pr_last_punch n)\<rparr> else n)
         in attempt (execute_punch env src (inject_direct_addr k metric info)) n'))"

definition handle_punch_payload :: "env \<Rightarrow> bytes \<Rightarrow> punch_payload act" where
  "handle_punch_payload env data =
     bind (lift (decode_punch_payload (en_codec env) data)) (\<lambda>payload.
     bind (upd (\<lambda>n. n\<lparr>pr_peer_nat := dm_insert (pp_src payload) (pp_nat payload) (pr_peer_nat n)\<rparr>)) (\<lambda>_.
     ret payload))"

definition handle_punch_consult_request :: "env \<Rightarrow> packet \<Rightarrow> route_key \<Rightarrow> unit act" where
  "handle_punch_consult_request env pkt k =
     bind (handle_punch_payload env (packet_payload pkt)) (\<lambda>payload n.
       if \<not> punch_allowed n (pp_src payload) then (Done (), n)
       else bind (make_punch_payload env (pp_src payload)) (\<lambda>reply.
         send_protocol_to_route env (pp_src payload) k PunchConsultReply
           (encode_punch_payload (en_codec env) reply)) n)"

definition punch :: "env \<Rightarrow> peer_id \<Rightarrow> unit act" where
  "punch env p n =
     (if \<not> punch_allowed n p then (Fail (IoError PermissionDenied ''peer is not in punch whitelist''), n)
      else bind (make_punch_payload env p) (\<lambda>payload.
        bind (upd (\<lambda>n. n\<lparr>pr_pending_punch := dm_insert (pp_request_id payload) p (pr_pending_punch n)\<rparr>)) (\<lambda>_.
        bind (send_protocol env p PunchRequest (encode_punch_payload (en_codec env) payload)) (\<lambda>_ n.
          case dm_get (pr_peer_nat n) p of
            Some info \<Rightarrow> execute_punch env p info n
          | None \<Rightarrow> (Done (), n)))) n)"

definition allow_punch :: "peer_id \<Rightarrow> node \<Rightarrow> node" where
  "allow_punch p n = (case pr_whitelist n of Some S \<Rightarrow> n\<lparr>pr_whitelist := Some (insert p S)\<rparr> | None \<Rightarrow> n)"

definition deny_punch :: "peer_id \<Rightarrow> node \<Rightarrow> node" where
  "deny_punch p n =
     (case pr_whitelist n of Some S \<Rightarrow> n\<lparr>pr_whitelist := Some (S - {p})\<rparr> | None \<Rightarrow> n\<lparr>pr_whitelist := Some {}\<rparr>)"

definition set_punch_whitelist :: "peer_id list option \<Rightarrow> node \<Rightarrow> node" where
  "set_punch_whitelist peers n = n\<lparr>pr_whitelist := map_option set peers\<rparr>"

section \<open>QUIC payloads\<close>

definition node_route_metric_for :: "peer_id \<Rightarrow> (route_key \<times> u8) act" where
  "node_route_metric_for p n =
     (case route_metric_for p (pr_transport n) of
        (Inr (r, metric), t) \<Rightarrow> (Done (r_key r, metric), n\<lparr>pr_transport := t\<rparr>)
      | (Inl e, t) \<Rightarrow>
          (case dm_get (pr_candidates n) p of
             Some k \<Rightarrow> (Done (k, 0), n\<lparr>pr_transport := t\<rparr>)
           | None \<Rightarrow> (Fail e, n\<lparr>pr_transport := t\<rparr>)))"

definition try_send_quic_payload :: "peer_id \<Rightarrow> bytes \<Rightarrow> unit act" where
  "try_send_quic_payload p payload n =
     bind (lift (packet_build QuicRelay (pr_id n) p (pr_max_ttl n) payload)) (\<lambda>pkt n.
       case route_metric_for p (pr_transport n) of
         (Inr (r, metric), t) \<Rightarrow>
           if metric = 0 then on_transport (try_send_route (r_key r) (pk_buf pkt)) (n\<lparr>pr_transport := t\<rparr>)
           else on_transport (try_send_packet p (pk_buf pkt)) (n\<lparr>pr_transport := t\<rparr>)
       | (Inl _, t) \<Rightarrow>
           (case dm_get (pr_candidates n) p of
              Some k \<Rightarrow> on_transport (try_send_route k (pk_buf pkt)) (n\<lparr>pr_transport := t\<rparr>)
            | None \<Rightarrow> (Fail (IoError NotFound ''peer route not found''), n\<lparr>pr_transport := t\<rparr>))) n"

definition try_send_quic_payload_via :: "peer_id \<Rightarrow> route_key \<Rightarrow> bytes \<Rightarrow> unit act" where
  "try_send_quic_payload_via p k payload n =
     bind (lift (packet_build QuicRelay (pr_id n) p (pr_max_ttl n) payload))
       (\<lambda>pkt. on_transport (try_send_route k (pk_buf pkt))) n"

definition recv_quic_payload :: "node \<Rightarrow> (peer_id \<times> bytes) option \<times> node" where
  "recv_quic_payload n =
     (case pr_quic n of [] \<Rightarrow> (None, n) | m # ms \<Rightarrow> (Some m, n\<lparr>pr_quic := ms\<rparr>))"

definition ensure_peer_reachable :: "peer_id \<Rightarrow> unit act" where
  "ensure_peer_reachable p = bind (on_transport (route_for p)) (\<lambda>_. ret ())"

section \<open>Packet handlers\<close>

text \<open>
  One definition per branch of \<open>handle_transport_packet\<close>. \<open>peer\<close> is what was derived from the
  packet, \<open>k\<close> the route it arrived on and \<open>metric\<close> the hops it took.
\<close>

definition on_hello_request :: "env \<Rightarrow> peer_info \<Rightarrow> peer_id \<Rightarrow> route_key \<Rightarrow> u8 \<Rightarrow> unit act" where
  "on_hello_request env peer src k metric =
     bind (if metric = 0 then confirm_direct_and_promote env peer k else confirm_tcp_route env peer k metric)
       (\<lambda>_ n. send_protocol_to_route env src k HelloReply
          (encode_hello_payload (en_codec env)
            (make_hello_payload env n src (Some (observation_from_route env n k)))) n)"

definition on_hello_reply :: "env \<Rightarrow> bytes \<Rightarrow> route_key \<Rightarrow> u8 \<Rightarrow> unit act" where
  "on_hello_reply env data k metric =
     bind (lift (decode_hello_payload (en_codec env) data)) (\<lambda>hello.
       let p = pi_id (hp_peer hello) in
       bind (case pi_nat (hp_peer hello) of
           None \<Rightarrow> ret ()
         | Some info \<Rightarrow> upd (\<lambda>n. n\<lparr>pr_peer_nat := dm_insert p info (pr_peer_nat n)\<rparr>)) (\<lambda>_.
       bind (case hp_observed hello of
           Some ob \<Rightarrow> if metric = 0 then apply_observation ob else ret ()
         | None \<Rightarrow> ret ()) (\<lambda>_ n.
       let pending = (k \<in> pr_pending_hello n) in
       bind (upd (\<lambda>n. n\<lparr>pr_pending_hello := pr_pending_hello n - {k}\<rparr>)) (\<lambda>_.
       bind (if metric = 0 \<and> pending then confirm_direct_and_promote env (hp_peer hello) k
             else upd_transport (upsert_peer_info env (hp_peer hello))) (\<lambda>_.
       bind (send_hello (rk_peer k) p) (\<lambda>_.
       ingest_route_entries env (hp_peers hello) k))) n)))"

definition on_id_route_query :: "env \<Rightarrow> peer_info \<Rightarrow> peer_id \<Rightarrow> route_key \<Rightarrow> u8 \<Rightarrow> unit act" where
  "on_id_route_query env peer src k metric =
     bind (confirm_relay_route_from_control env peer k metric) (\<lambda>_ n.
       send_protocol_to_route env src k IDRouteReply
         (encode_route_reply_payload (en_codec env) (discovery_entries env n src)) n)"

definition on_id_route_reply :: "env \<Rightarrow> peer_info \<Rightarrow> bytes \<Rightarrow> route_key \<Rightarrow> u8 \<Rightarrow> unit act" where
  "on_id_route_reply env peer data k metric =
     bind (lift (decode_route_reply_payload (en_codec env) data)) (\<lambda>entries.
     bind (confirm_tcp_route env peer k metric) (\<lambda>_.
     bind (confirm_relay_route_from_control env peer k metric) (\<lambda>_.
     ingest_route_entries env entries k)))"

text \<open>A punch packet that came straight from the peer opens the route, once.\<close>

definition confirm_punched :: "env \<Rightarrow> peer_id \<Rightarrow> route_key \<Rightarrow> u8 \<Rightarrow> unit act" where
  "confirm_punched env src k metric n =
     (if \<not> has_direct_route n src
      then confirm_direct_and_promote env (peer_info_from_packet env n src k metric) k n
      else (Done (), n))"

definition answer_punch :: "env \<Rightarrow> punch_payload \<Rightarrow> route_key \<Rightarrow> u8 \<Rightarrow> unit act" where
  "answer_punch env payload k metric n =
     (if punch_allowed n (pp_src payload) then
        bind (try_execute_punch env (pp_src payload) (pp_nat payload) k metric) (\<lambda>_ n.
          send_protocol_to_route env (pp_src payload) k PunchReply
            (encode_punch_payload (en_codec env)
              (punch_payload_with_request_id n (pp_src payload) (pp_request_id payload))) n) n
      else (Done (), n))"

definition on_punch_request :: "env \<Rightarrow> bytes \<Rightarrow> route_key \<Rightarrow> u8 \<Rightarrow> unit act" where
  "on_punch_request env data k metric =
     bind (handle_punch_payload env data) (\<lambda>payload.
     bind (if metric = 0 then
         bind (confirm_punched env (pp_src payload) k metric) (\<lambda>_.
           upd (\<lambda>n. n\<lparr>pr_candidates := dm_insert (pp_src payload) k (pr_candidates n)\<rparr>))
       else ret ()) (\<lambda>_.
     answer_punch env payload k metric))"

definition match_punch_reply :: "env \<Rightarrow> punch_payload \<Rightarrow> route_key \<Rightarrow> u8 \<Rightarrow> unit act" where
  "match_punch_reply env payload k metric n =
     (case dm_get (pr_pending_punch n) (pp_request_id payload) of
        None \<Rightarrow> (Done (), n)
      | Some p \<Rightarrow>
          (let n' = n\<lparr>pr_pending_punch := dm_remove (pp_request_id payload) (pr_pending_punch n)\<rparr> in
           if p = pp_src payload \<and> metric = 0 then confirm_punched env (pp_src payload) k metric n'
           else (Done (), n')))"

definition on_punch_reply :: "env \<Rightarrow> bytes \<Rightarrow> route_key \<Rightarrow> u8 \<Rightarrow> unit act" where
  "on_punch_reply env data k metric =
     bind (handle_punch_payload env data) (\<lambda>payload.
     bind (match_punch_reply env payload k metric) (\<lambda>_ n.
       if punch_allowed n (pp_src payload)
       then try_execute_punch env (pp_src payload) (pp_nat payload) k metric n
       else (Done (), n)))"

definition on_echo_request :: "env \<Rightarrow> peer_info \<Rightarrow> peer_id \<Rightarrow> bytes \<Rightarrow> route_key \<Rightarrow> u8 \<Rightarrow> unit act" where
  "on_echo_request env peer src data k metric =
     bind (confirm_tcp_route env peer k metric) (\<lambda>_.
     send_protocol_to_route env src k EchoReply data)"

definition on_echo_reply :: "env \<Rightarrow> peer_id \<Rightarrow> bytes \<Rightarrow> route_key \<Rightarrow> u8 \<Rightarrow> unit act" where
  "on_echo_reply env src data k metric =
     (if metric = 0 \<and> length data \<ge> 8 then
        (let sent = u64_from_be (take 8 data); now = en_ms env in
         if now > sent \<and> now - sent < 60000
         then upd_transport (update_route_rtt src k (ucast (now - sent)))
         else ret ())
      else ret ())"

definition on_timestamp_request :: "env \<Rightarrow> peer_info \<Rightarrow> peer_id \<Rightarrow> bytes \<Rightarrow> route_key \<Rightarrow> u8 \<Rightarrow> unit act" where
  "on_timestamp_request env peer src data k metric =
     bind (confirm_tcp_route env peer k metric) (\<lambda>_.
     send_protocol_to_route env src k TimestampReply data)"

definition on_nat_observe_request :: "env \<Rightarrow> peer_id \<Rightarrow> route_key \<Rightarrow> u8 \<Rightarrow> unit act" where
  "on_nat_observe_request env src k metric n =
     (if is_confirmed_or_candidate n src k metric then
        send_protocol_to_route env src k NatObserveReply
          (encode_nat_observe_reply_payload (en_codec env) (observation_from_route env n k)) n
      else (Done (), n))"

definition on_nat_observe_reply :: "env \<Rightarrow> peer_info \<Rightarrow> peer_id \<Rightarrow> bytes \<Rightarrow> route_key \<Rightarrow> u8 \<Rightarrow> unit act" where
  "on_nat_observe_reply env peer src data k metric =
     bind (is_confirmed_or_pending_nat_observe src k metric) (\<lambda>ok.
       if ok then
         bind (lift (decode_nat_observe_reply_payload (en_codec env) data)) (\<lambda>ob n.
           if no_observer ob = src \<and> should_observe_with n src then
             bind (apply_observation ob) (\<lambda>_.
               if metric = 0 then confirm_direct_and_promote env peer k else ret ()) n
           else (Done (), n))
       else ret ())"

definition handle_local :: "env \<Rightarrow> packet \<Rightarrow> peer_info \<Rightarrow> route_key \<Rightarrow> u8 \<Rightarrow> protocol_type \<Rightarrow> unit act" where
  "handle_local env pkt peer k metric ty =
     (let src = pk_src pkt; data = packet_payload pkt in
      case ty of
        HelloRequest \<Rightarrow> on_hello_request env peer src k metric
      | HelloReply \<Rightarrow> on_hello_reply env data k metric
      | IDRouteQuery \<Rightarrow> on_id_route_query env peer src k metric
      | IDRouteReply \<Rightarrow> on_id_route_reply env peer data k metric
      | QuicRelay \<Rightarrow> send_quic src data
      | PunchConsultRequest \<Rightarrow> handle_punch_consult_request env pkt k
      | PunchConsultReply \<Rightarrow> bind (handle_punch_payload env data) (\<lambda>_. ret ())
      | PunchRequest \<Rightarrow> on_punch_request env data k metric
      | PunchReply \<Rightarrow> on_punch_reply env data k metric
      | EchoRequest \<Rightarrow> on_echo_request env peer src data k metric
      | EchoReply \<Rightarrow> on_echo_reply env src data k metric
      | TimestampRequest \<Rightarrow> on_timestamp_request env peer src data k metric
      | NatObserveRequest \<Rightarrow> on_nat_observe_request env src k metric
      | NatObserveReply \<Rightarrow> on_nat_observe_reply env peer src data k metric
      | MessageData \<Rightarrow> ret ()
      | RangeBroadcast \<Rightarrow> ret ()
      | TimestampReply \<Rightarrow> ret ())"

text \<open>What every accepted packet does before it is dispatched.\<close>

definition note_source :: "env \<Rightarrow> packet \<Rightarrow> peer_info \<Rightarrow> route_key \<Rightarrow> u8 \<Rightarrow> unit act" where
  "note_source env pkt peer k metric =
     bind (upd_transport (upsert_peer_info env peer)) (\<lambda>_.
       if metric = 0 then upd (\<lambda>n. n\<lparr>pr_candidates := dm_insert (pk_src pkt) k (pr_candidates n)\<rparr>)
       else ret ())"

definition handle_packet :: "env \<Rightarrow> packet \<Rightarrow> route_key \<Rightarrow> unit act" where
  "handle_packet env pkt k n =
     (let src = pk_src pkt; metric = packet_metric pkt in
      if src = pr_id n \<or> is_unspecified src then (Done (), n)
      else bind (upd_transport (update_route_read_time env src k)) (\<lambda>_ n.
        let peer = peer_info_from_packet env n src k metric in
        bind (note_source env pkt peer k metric) (\<lambda>_ n.
          if pk_dest pkt \<noteq> pr_id n \<and> \<not> is_broadcast (pk_dest pkt) then forward_packet env pkt n
          else bind (lift (packet_protocol pkt)) (handle_local env pkt peer k metric) n) n) n)"

definition handle_transport_packet :: "env \<Rightarrow> bytes \<Rightarrow> route_key \<Rightarrow> unit act" where
  "handle_transport_packet env data k =
     (case data of
        [] \<Rightarrow> ret ()
      | first # _ \<Rightarrow>
          (case classify_packet first of
             PtRustP2p _ \<Rightarrow> bind (lift (packet_parse data)) (\<lambda>pkt. handle_packet env pkt k)
           | _ \<Rightarrow> ret ()))"

text \<open>
  One turn of the dispatcher: \<open>None\<close> ends it (the node is closed or the transport is gone),
  otherwise the effect of the handler, whose errors are only logged.
\<close>

definition dispatcher_turn :: "env \<Rightarrow> (bytes \<times> route_key) io_result \<Rightarrow> node \<Rightarrow> (unit eff \<times> node) option" where
  "dispatcher_turn env received n =
     (if pr_closed n then None
      else (case received of
          Inl _ \<Rightarrow> None
        | Inr (data, k) \<Rightarrow> Some (attempt (handle_transport_packet env data k) n)))"

section \<open>Bootstrap\<close>

fun take_hello :: "socket_addr \<Rightarrow> (socket_addr \<times> peer_id) list \<Rightarrow> peer_id option \<times> (socket_addr \<times> peer_id) list" where
  "take_hello addr [] = (None, [])"
| "take_hello addr ((a, p) # q) = (if a = addr then (Some p, q) else take_hello addr q)"

text \<open>
  The wait for the hello: \<open>others\<close> is what the other tasks do, one state change after another,
  between two looks at the queue, until the thirty seconds are over.
\<close>

fun bootstrap_wait :: "socket_addr \<Rightarrow> (node \<Rightarrow> node) list \<Rightarrow> peer_id act" where
  "bootstrap_wait addr others n =
     (case take_hello addr (pr_hello n) of
        (Some p, q) \<Rightarrow> (Done p, n\<lparr>pr_hello := q\<rparr>)
      | (None, q) \<Rightarrow>
          (case others of
             [] \<Rightarrow> (Fail (IoError TimedOut ''bootstrap hello timed out''), n\<lparr>pr_hello := q\<rparr>)
           | f # fs \<Rightarrow> bootstrap_wait addr fs (f (n\<lparr>pr_hello := q\<rparr>))))"

definition add_bootstrap_once :: "env \<Rightarrow> (node \<Rightarrow> node) list \<Rightarrow> socket_addr \<Rightarrow> peer_id act" where
  "add_bootstrap_once env others addr n =
     bind (lift (packet_build HelloRequest (pr_id n) peer_broadcast (pr_max_ttl n) [])) (\<lambda>pkt.
     bind (on_transport (send_raw_to_addr env (pk_buf pkt) addr)) (\<lambda>_.
     bind (upd (\<lambda>n. n\<lparr>pr_pending_hello :=
         insert (route_key_new UDP (tr_raw_local (pr_transport n)) addr) (pr_pending_hello n)\<rparr>)) (\<lambda>_.
     bootstrap_wait addr others))) n"

definition add_bootstrap ::
  "env \<Rightarrow> (node \<Rightarrow> node) list \<Rightarrow> env \<Rightarrow> (node \<Rightarrow> node) list \<Rightarrow> socket_addr \<Rightarrow> peer_id act" where
  "add_bootstrap env1 others1 env2 others2 addr n =
     (case add_bootstrap_once env1 others1 addr n of
        (Fail e, n') \<Rightarrow> add_bootstrap_once env2 others2 addr n'
      | r \<Rightarrow> r)"

section \<open>Background loops\<close>

text \<open>Each loop body once its timer has fired; a closed node ends every loop but that of the STUN query.\<close>

definition stun_tick :: "stun_result io_result \<Rightarrow> unit act" where
  "stun_tick r =
     (case r of
        Inl _ \<Rightarrow> ret ()
      | Inr res \<Rightarrow> upd (\<lambda>n. n\<lparr>pr_nat := apply_stun_result_to_nat_info res (pr_nat n),
                              pr_nat_model := Some (sr_nat_type res)\<rparr>))"

definition observe_peer :: "env \<Rightarrow> peer_info \<Rightarrow> unit act" where
  "observe_peer env peer n =
     (if should_observe_with n (pi_id peer) \<and> has_direct_route n (pi_id peer) then
        bind (\<lambda>n. case route_for (pi_id peer) (pr_transport n) of
            (Inr r, t) \<Rightarrow> (Done (), n\<lparr>pr_transport := t,
               pr_pending_observe := dm_insert (pi_id peer) (r_key r) (pr_pending_observe n)\<rparr>)
          | (Inl _, t) \<Rightarrow> (Done (), n\<lparr>pr_transport := t\<rparr>))
          (\<lambda>_. attempt (send_protocol env (pi_id peer) NatObserveRequest [])) n
      else (Done (), n))"

definition observe_tick :: "env \<Rightarrow> unit act" where
  "observe_tick env n =
     (if pr_closed n then (Done (), n)
      else for_each (observe_peer env) (known_peers (pr_transport n)) n)"

definition maintain_routes :: "env \<Rightarrow> peer_info \<Rightarrow> unit act" where
  "maintain_routes env peer n =
     (if pi_id peer \<noteq> pr_id n then attempt (query_routes env (pi_id peer)) n else (Done (), n))"

definition probe_candidate :: "env \<Rightarrow> peer_id \<times> route_key \<Rightarrow> unit act" where
  "probe_candidate env c n =
     (case route_for (fst c) (pr_transport n) of
        (Inr _, t) \<Rightarrow> (Done (), n\<lparr>pr_transport := t\<rparr>)
      | (Inl _, t) \<Rightarrow>
          attempt (send_protocol_to_route env (fst c) (snd c) HelloRequest [])
            (n\<lparr>pr_transport := t, pr_pending_hello := insert (snd c) (pr_pending_hello n)\<rparr>))"

definition can_execute :: "nat_info option \<Rightarrow> bool" where
  "can_execute info =
     (case info of None \<Rightarrow> False | Some i \<Rightarrow> public_ips i \<noteq> [] \<and> public_udp_ports i \<noteq> [])"

definition auto_punch_send :: "env \<Rightarrow> peer_id \<Rightarrow> unit act" where
  "auto_punch_send env p n =
     (let info = dm_get (pr_peer_nat n) p in
      bind (upd (\<lambda>n. n\<lparr>pr_last_punch := dm_insert p (en_secs env) (pr_last_punch n)\<rparr>)) (\<lambda>_.
      bind (make_punch_payload env p) (\<lambda>payload.
      bind (upd (\<lambda>n. n\<lparr>pr_pending_punch := dm_insert (pp_request_id payload) p (pr_pending_punch n)\<rparr>)) (\<lambda>_.
      bind (attempt (send_protocol env p PunchRequest (encode_punch_payload (en_codec env) payload))) (\<lambda>_.
      if can_execute info then attempt (execute_punch env p (the info)) else ret ())))) n)"

definition auto_punch_peer :: "env \<Rightarrow> peer_info \<Rightarrow> unit act" where
  "auto_punch_peer env peer n =
     (let p = pi_id peer in
      if p = pr_id n \<or> \<not> punch_allowed n p then (Done (), n)
      else (case route_metric_for p (pr_transport n) of
          (r, t) \<Rightarrow>
            (let n = n\<lparr>pr_transport := t\<rparr> in
             if (case r of Inr (_, metric) \<Rightarrow> metric = 0 | Inl _ \<Rightarrow> False)
                \<or> (case dm_get (pr_last_punch n) p of
                     Some prev \<Rightarrow> saturating_sub (en_secs env) prev < 10 | None \<Rightarrow> False)
             then (Done (), n)
             else auto_punch_send env p n)))"

definition maintenance_tick :: "env \<Rightarrow> unit act" where
  "maintenance_tick env n =
     (if pr_closed n then (Done (), n)
      else bind (for_each (maintain_routes env) (known_peers (pr_transport n))) (\<lambda>_ n.
        bind (for_each (probe_candidate env) (filter (\<lambda>c. fst c \<noteq> pr_id n) (pr_candidates n))) (\<lambda>_ n.
          for_each (auto_punch_peer env) (known_peers (pr_transport n)) n) n) n)"

definition heartbeat_targets :: "node \<Rightarrow> (peer_id \<times> route_key) list" where
  "heartbeat_targets n =
     List.map_filter (\<lambda>peer. map_option (\<lambda>r. (pi_id peer, r_key r))
         (find is_direct (transport_routes (pr_transport n) (pi_id peer))))
       (filter (\<lambda>peer. pi_id peer \<noteq> pr_id n) (known_peers (pr_transport n)))"

definition heartbeat_tick :: "env \<Rightarrow> unit act" where
  "heartbeat_tick env n =
     (if pr_closed n then (Done (), n) else for_each (echo_probe env) (heartbeat_targets n) n)"

definition protocol_close :: "node \<Rightarrow> node" where
  "protocol_close n = n\<lparr>pr_closed := True\<rparr>"

end
