(* ===== verification/Protocol_Safety.thy ===== *)
theory Protocol_Safety
  imports Protocol_Layer
begin

text \<open>
  What holds of every operation of the protocol layer. The locale \<open>node_relation\<close> states what a
  relation between the states before and after has to satisfy for the primitive effects and
  derives it for every handler and every background loop; it is interpreted for the steps of
  the transport, for the direct routes a packet may add, and for the punches a whitelist allows.
\<close>

section \<open>Shape of the effects\<close>

lemma snd_ret [simp]: "snd (ret x n) = n" by (simp add: ret_def)
lemma snd_upd [simp]: "snd (upd f n) = f n" by (simp add: upd_def)
lemma snd_lift [simp]: "snd (lift r n) = n" by (simp add: lift_def split: sum.split)
lemma fst_lift_Inr [simp]: "lift (Inr x) n = (Done x, n)" by (simp add: lift_def)
lemma fst_lift_Inl [simp]: "lift (Inl e) n = (Fail e, n)" by (simp add: lift_def)

lemma snd_on_transport [simp]:
  "snd (on_transport f n) = n\<lparr>pr_transport := snd (f (pr_transport n))\<rparr>"
  by (simp add: on_transport_def case_prod_beta)

lemma snd_upd_transport [simp]: "snd (upd_transport f n) = n\<lparr>pr_transport := f (pr_transport n)\<rparr>"
  by (simp add: upd_transport_def)

lemma snd_attempt [simp]: "snd (attempt m n) = snd (m n)"
  by (simp add: attempt_def split: prod.split eff.split)

lemma bind_Done: "m n = (Done x, n') \<Longrightarrow> bind m f n = f x n'"
  by (simp add: bind_def)

lemma bind_simps [simp]:
  "bind (ret x) f n = f x n" "bind (upd g) h n = h () (g n)"
  "bind (upd_transport g') h n = h () (n\<lparr>pr_transport := g' (pr_transport n)\<rparr>)"
  "bind (lift (Inr y)) l n = l y n" "bind (lift (Inl e)) l n = (Fail e, n)"
  by (simp_all add: bind_def ret_def upd_def upd_transport_def)

lemma snd_bind_lift: "snd (bind (lift r) f n) = (case r of Inl _ \<Rightarrow> n | Inr x \<Rightarrow> snd (f x n))"
  by (cases r) simp_all

lemma bind_make_punch_payload [simp]:
  "bind (make_punch_payload env p) f n =
     f (punch_payload_with_request_id n p (en_rand env (pr_draws n))) (n\<lparr>pr_draws := pr_draws n + 1\<rparr>)"
  by (simp add: bind_def make_punch_payload_def)

lemma snd_transport_punch [simp]:
  "snd (transport_punch env p data info n) = n\<lparr>pr_punches := pr_punches n @ [(p, data, info)]\<rparr>"
  by (simp add: transport_punch_def)

lemma punch_allowed_cong: "pr_whitelist n' = pr_whitelist n \<Longrightarrow> punch_allowed n' p = punch_allowed n p"
  by (simp add: punch_allowed_def)

lemma bind_option_upd:
  "bind (case x of None \<Rightarrow> ret () | Some i \<Rightarrow> upd (g i)) f n = f () (case x of None \<Rightarrow> n | Some i \<Rightarrow> g i n)"
  by (cases x) simp_all

lemma bind_option_observe:
  "bind (case x of Some ob \<Rightarrow> if b then apply_observation ob else ret () | None \<Rightarrow> ret ()) f n =
     f () (case x of None \<Rightarrow> n
       | Some ob \<Rightarrow> if b then n\<lparr>pr_nat := apply_observation_to_nat_info ob (pr_nat n)\<rparr> else n)"
  by (cases x) (simp_all add: apply_observation_def)

text \<open>The control sends touch nothing but the transport.\<close>

definition built_send ::
  "packet io_result \<Rightarrow> (bytes \<Rightarrow> transport \<Rightarrow> unit io_result \<times> transport) \<Rightarrow> transport \<Rightarrow> transport" where
  "built_send r send t = (case r of Inl _ \<Rightarrow> t | Inr p \<Rightarrow> snd (send (pk_buf p) t))"

lemma snd_send_protocol [simp]:
  "snd (send_protocol env dest ty payload n) = n\<lparr>pr_transport :=
     built_send (packet_build ty (pr_id n) dest (pr_max_ttl n) payload) (send_packet_to_peer env dest) (pr_transport n)\<rparr>"
  by (simp add: send_protocol_def snd_bind_lift built_send_def split: sum.split)

lemma snd_send_protocol_to_route [simp]:
  "snd (send_protocol_to_route env dest k ty payload n) = n\<lparr>pr_transport :=
     built_send (packet_build ty (pr_id n) dest (pr_max_ttl n) payload) (send_to_route env k) (pr_transport n)\<rparr>"
  by (simp add: send_protocol_to_route_def snd_bind_lift built_send_def split: sum.split)

lemma peer_info_from_packet_id [simp]: "pi_id (peer_info_from_packet env n src k metric) = src"
  by (simp add: peer_info_from_packet_def)

lemma confirm_direct_parts [simp]:
  "fst (confirm_direct_and_promote env peer k n) = Done ()"
  "pr_transport (snd (confirm_direct_and_promote env peer k n)) = confirm_peer_route env peer k 0 (pr_transport n)"
  "pr_hello (snd (confirm_direct_and_promote env peer k n)) = pr_hello n"
  "pr_id (snd (confirm_direct_and_promote env peer k n)) = pr_id n"
  "pr_max_ttl (snd (confirm_direct_and_promote env peer k n)) = pr_max_ttl n"
  "pr_nat (snd (confirm_direct_and_promote env peer k n)) = pr_nat n"
  by (simp_all add: confirm_direct_and_promote_def spawn_probe_rtt_def upd_def)

lemma bind_fst_Done: "fst (m n) = Done x \<Longrightarrow> bind m f n = f x (snd (m n))"
  by (cases "m n") (simp add: bind_def)

text \<open>A hello reply up to the point where its sender is put on the queue.\<close>

definition hello_applied :: "env \<Rightarrow> hello_payload \<Rightarrow> route_key \<Rightarrow> u8 \<Rightarrow> node \<Rightarrow> node" where
  "hello_applied env hello k metric n =
     (let n1 = (case pi_nat (hp_peer hello) of None \<Rightarrow> n
            | Some info \<Rightarrow> n\<lparr>pr_peer_nat := dm_insert (pi_id (hp_peer hello)) info (pr_peer_nat n)\<rparr>);
          n2 = (case hp_observed hello of None \<Rightarrow> n1
            | Some ob \<Rightarrow> if metric = 0 then n1\<lparr>pr_nat := apply_observation_to_nat_info ob (pr_nat n1)\<rparr> else n1);
          n3 = n2\<lparr>pr_pending_hello := pr_pending_hello n2 - {k}\<rparr>
      in if metric = 0 \<and> k \<in> pr_pending_hello n
         then snd (confirm_direct_and_promote env (hp_peer hello) k n3)
         else n3\<lparr>pr_transport := upsert_peer_info env (hp_peer hello) (pr_transport n3)\<rparr>)"

lemma on_hello_reply_eval:
  assumes "decode_hello_payload (en_codec env) data = Inr hello"
  shows "on_hello_reply env data k metric n =
    bind (send_hello (rk_peer k) (pi_id (hp_peer hello))) (\<lambda>_. ingest_route_entries env (hp_peers hello) k)
      (hello_applied env hello k metric n)"
proof -
  define n1 where "n1 = (case pi_nat (hp_peer hello) of None \<Rightarrow> n
    | Some info \<Rightarrow> n\<lparr>pr_peer_nat := dm_insert (pi_id (hp_peer hello)) info (pr_peer_nat n)\<rparr>)"
  define n2 where "n2 = (case hp_observed hello of None \<Rightarrow> n1
    | Some ob \<Rightarrow> if metric = 0 then n1\<lparr>pr_nat := apply_observation_to_nat_info ob (pr_nat n1)\<rparr> else n1)"
  have p: "pr_pending_hello n2 = pr_pending_hello n" by (simp add: n2_def n1_def split: option.split)
  show ?thesis
    unfolding on_hello_reply_def assms hello_applied_def bind_simps Let_def bind_option_upd bind_option_observe
      n1_def [symmetric] n2_def [symmetric] p
    by (simp add: bind_fst_Done upd_transport_def upd_def)
qed

text \<open>The state once a packet's sender has been recorded, and what was recorded of it.\<close>

definition seen_peer :: "env \<Rightarrow> packet \<Rightarrow> route_key \<Rightarrow> node \<Rightarrow> peer_info" where
  "seen_peer env pkt k n = peer_info_from_packet env
     (n\<lparr>pr_transport := update_route_read_time env (pk_src pkt) k (pr_transport n)\<rparr>) (pk_src pkt) k (packet_metric pkt)"

definition seen :: "env \<Rightarrow> packet \<Rightarrow> route_key \<Rightarrow> node \<Rightarrow> node" where
  "seen env pkt k n = n\<lparr>
     pr_transport := upsert_peer_info env (seen_peer env pkt k n)
       (update_route_read_time env (pk_src pkt) k (pr_transport n)),
     pr_candidates := if packet_metric pkt = 0 then dm_insert (pk_src pkt) k (pr_candidates n) else pr_candidates n\<rparr>"

lemma seen_peer_id [simp]: "pi_id (seen_peer env pkt k n) = pk_src pkt"
  by (simp add: seen_peer_def)

lemma handle_packet_seen:
  assumes "pk_src pkt \<noteq> pr_id n" and "\<not> is_unspecified (pk_src pkt)"
  shows "handle_packet env pkt k n =
    (if pk_dest pkt \<noteq> pr_id n \<and> \<not> is_broadcast (pk_dest pkt) then forward_packet env pkt (seen env pkt k n)
     else bind (lift (packet_protocol pkt)) (handle_local env pkt (seen_peer env pkt k n) k (packet_metric pkt))
       (seen env pkt k n))"
proof -
  have note_eq: "note_source env pkt peer k metric m = (Done (), m\<lparr>pr_transport := upsert_peer_info env peer (pr_transport m),
      pr_candidates := if metric = 0 then dm_insert (pk_src pkt) k (pr_candidates m) else pr_candidates m\<rparr>)"
    for peer metric and m :: node
    by (simp add: note_source_def ret_def upd_def)
  show ?thesis
    unfolding handle_packet_def Let_def bind_simps bind_Done [OF note_eq] seen_def seen_peer_def
    using assms by simp
qed

section \<open>Which packets may confirm a direct route\<close>

text \<open>
  The peers a packet that arrived on route \<open>k\<close> may turn into direct peers: only packets that
  crossed no relay, and of those only the types that complete an exchange.
\<close>

definition confirms :: "env \<Rightarrow> node \<Rightarrow> packet \<Rightarrow> route_key \<Rightarrow> peer_id \<Rightarrow> bool" where
  "confirms env n pkt k p \<longleftrightarrow> packet_metric pkt = 0 \<and>
     (case packet_protocol pkt of
        Inl _ \<Rightarrow> False
      | Inr ty \<Rightarrow>
          (case ty of
             HelloRequest \<Rightarrow> p = pk_src pkt
           | HelloReply \<Rightarrow> k \<in> pr_pending_hello n
               \<and> (case decode_hello_payload (en_codec env) (packet_payload pkt) of
                    Inr h \<Rightarrow> p = pi_id (hp_peer h) | Inl _ \<Rightarrow> False)
           | PunchRequest \<Rightarrow>
               (case decode_punch_payload (en_codec env) (packet_payload pkt) of
                  Inr pl \<Rightarrow> p = pp_src pl | Inl _ \<Rightarrow> False)
           | PunchReply \<Rightarrow>
               (case decode_punch_payload (en_codec env) (packet_payload pkt) of
                  Inr pl \<Rightarrow> p = pp_src pl \<and> dm_get (pr_pending_punch n) (pp_request_id pl) = Some p
                | Inl _ \<Rightarrow> False)
           | NatObserveReply \<Rightarrow> p = pk_src pkt \<and> should_observe_with n p
               \<and> (case decode_nat_observe_reply_payload (en_codec env) (packet_payload pkt) of
                    Inr ob \<Rightarrow> no_observer ob = p | Inl _ \<Rightarrow> False)
           | IDRouteReply \<Rightarrow> rk_protocol k = TCP \<and> p = pk_src pkt
           | EchoRequest \<Rightarrow> rk_protocol k = TCP \<and> p = pk_src pkt
           | TimestampRequest \<Rightarrow> rk_protocol k = TCP \<and> p = pk_src pkt
           | _ \<Rightarrow> False))"

lemma confirms_cong:
  assumes "pr_pending_hello n' = pr_pending_hello n" "pr_pending_punch n' = pr_pending_punch n"
    "pr_observers n' = pr_observers n"
  shows "confirms env n' pkt k p = confirms env n pkt k p"
  using assms by (simp add: confirms_def should_observe_with_def cong: sum.case_cong protocol_type.case_cong)

section \<open>Relations kept by every operation\<close>

definition same_core :: "node \<Rightarrow> node \<Rightarrow> bool" where
  "same_core n n' \<longleftrightarrow> pr_transport n' = pr_transport n \<and> pr_id n' = pr_id n \<and> pr_max_ttl n' = pr_max_ttl n
     \<and> pr_hello n' = pr_hello n \<and> pr_quic n' = pr_quic n \<and> pr_whitelist n' = pr_whitelist n
     \<and> pr_observers n' = pr_observers n \<and> pr_punches n' = pr_punches n \<and> pr_closed n' = pr_closed n"

abbreviation set_tr :: "transport \<Rightarrow> node \<Rightarrow> node" where
  "set_tr t n \<equiv> n\<lparr>pr_transport := t\<rparr>"

locale step_relation =
  fixes R :: "node \<Rightarrow> node \<Rightarrow> bool"
  assumes refl: "R n n"
    and trans: "R n n' \<Longrightarrow> R n' n'' \<Longrightarrow> R n n''"
begin

lemma bind_rel:
  assumes "R n (snd (m n))" and "\<And>x. R (snd (m n)) (snd (f x (snd (m n))))"
  shows "R n (snd (bind m f n))"
  using assms trans by (auto simp: bind_def split: prod.split eff.split)

lemma bind_rel_res:
  assumes "R n (snd (m n))" and "\<And>x n'. m n = (Done x, n') \<Longrightarrow> R n' (snd (f x n'))"
  shows "R n (snd (bind m f n))"
  using assms trans by (auto simp: bind_def split: prod.split eff.split)

lemma for_each_rel: "(\<And>x n. x \<in> set xs \<Longrightarrow> R n (snd (f x n))) \<Longrightarrow> R n (snd (for_each f xs n))"
proof (induction xs arbitrary: n)
  case (Cons x xs)
  then show ?case by (simp, intro bind_rel) simp_all
qed (simp add: refl)

end

text \<open>
  \<open>ok p k\<close> says that the relation tolerates a direct route to \<open>p\<close> on \<open>k\<close>.
\<close>

locale node_relation = step_relation +
  fixes ok :: "peer_id \<Rightarrow> route_key \<Rightarrow> bool"
  assumes internal: "same_core n n' \<Longrightarrow> R n n'"
    and hello_rel: "length (pr_hello n) < HELLO_QUEUE \<Longrightarrow> R n (n\<lparr>pr_hello := pr_hello n @ [h]\<rparr>)"
    and quic_rel: "length (pr_quic n) < QUIC_QUEUE \<Longrightarrow> R n (n\<lparr>pr_quic := pr_quic n @ [q]\<rparr>)"
    and punch_rel: "punch_allowed n p \<Longrightarrow> R n (n\<lparr>pr_punches := pr_punches n @ [(p, data, info)]\<rparr>)"
    and send_route_rel: "R n (set_tr (snd (send_to_route env k data (pr_transport n))) n)"
    and send_peer_rel: "R n (set_tr (snd (send_packet_to_peer env p data (pr_transport n))) n)"
    and send_raw_rel: "R n (set_tr (snd (send_raw_to_addr env data a (pr_transport n))) n)"
    and try_route_rel: "R n (set_tr (snd (try_send_route k data (pr_transport n))) n)"
    and try_peer_rel: "R n (set_tr (snd (try_send_packet p data (pr_transport n))) n)"
    and route_for_rel: "R n (set_tr (snd (route_for p (pr_transport n))) n)"
    and read_time_rel: "R n (set_tr (update_route_read_time env p k (pr_transport n)) n)"
    and rtt_rel: "R n (set_tr (update_route_rtt p k d (pr_transport n)) n)"
    and upsert_rel: "R n (set_tr (upsert_peer_info env peer (pr_transport n)) n)"
    and relay_rel: "metric \<noteq> 0 \<Longrightarrow> R n (set_tr (confirm_peer_route env peer k metric (pr_transport n)) n)"
    and direct_rel: "ok (pi_id peer) k \<Longrightarrow> R n (set_tr (confirm_peer_route env peer k 0 (pr_transport n)) n)"
begin

lemma internal_upd: "same_core n (f n) \<Longrightarrow> R n (snd (upd f n))"
  by (simp add: internal)

lemma route_metric_rel: "R n (set_tr (snd (route_metric_for p (pr_transport n))) n)"
  using route_for_rel [of n p] by (simp add: route_metric_for_def case_prod_beta Let_def)

lemma send_protocol_rel: "R n (snd (send_protocol env dest ty payload n))"
  using send_peer_rel refl by (simp add: built_send_def split: sum.split)

lemma send_protocol_to_route_rel: "R n (snd (send_protocol_to_route env dest k ty payload n))"
  using send_route_rel refl by (simp add: built_send_def split: sum.split)

lemma forward_rel: "R n (snd (forward_packet env pkt n))"
  using send_peer_rel refl by (simp add: forward_packet_def split: prod.split bool.split)

lemma echo_probe_rel: "R n (snd (echo_probe env pk n))"
  unfolding echo_probe_def
  by (intro bind_rel internal_upd) (simp_all only: snd_attempt send_protocol_to_route_rel, simp add: same_core_def)

lemma spawn_probe_rel: "R n (snd (spawn_probe_rtt p k n))"
  by (simp add: spawn_probe_rtt_def internal same_core_def)

lemma run_probe_rel: "R n (snd (run_probe env n))"
proof (cases "pr_probes n")
  case (Cons pk pks)
  have "R n (n\<lparr>pr_probes := pks\<rparr>)" by (simp add: internal same_core_def)
  with echo_probe_rel [where n = "n\<lparr>pr_probes := pks\<rparr>"] Cons trans show ?thesis
    by (simp add: run_probe_def)
qed (simp add: run_probe_def refl)

lemma confirm_direct_rel: "ok (pi_id peer) k \<Longrightarrow> R n (snd (confirm_direct_and_promote env peer k n))"
  unfolding confirm_direct_and_promote_def
  by (intro bind_rel internal_upd spawn_probe_rel) (simp_all add: direct_rel same_core_def)

lemma confirm_tcp_rel:
  "(metric = 0 \<Longrightarrow> rk_protocol k = TCP \<Longrightarrow> ok (pi_id peer) k) \<Longrightarrow> R n (snd (confirm_tcp_route env peer k metric n))"
  by (simp add: confirm_tcp_route_def protocol_is_tcp_def confirm_direct_rel refl)

lemma confirm_relay_rel: "R n (snd (confirm_relay_route_from_control env peer k metric n))"
  by (simp add: confirm_relay_route_from_control_def relay_rel refl word_gt_0)

lemma saturating_add_Suc: "saturating_add (a::u8) 1 \<noteq> 0"
proof
  assume "saturating_add a 1 = 0"
  then have "unat (saturating_add a 1) = 0" by simp
  then show False by (simp add: sat_simps)
qed

lemma ingest_entry_rel: "R n (snd (ingest_route_entry env via item n))"
proof -
  have "R n (snd ((case pi_nat (re_peer item) of None \<Rightarrow> ret ()
      | Some info \<Rightarrow> upd (\<lambda>n. n\<lparr>pr_peer_nat := dm_insert (pi_id (re_peer item)) info (pr_peer_nat n)\<rparr>)) n))"
    by (simp add: refl internal same_core_def split: option.split)
  moreover have "R n' (snd (upd_transport (confirm_peer_route env (re_peer item) via
      (saturating_add (re_metric item) 1)) n'))" for n'
    by (simp add: relay_rel saturating_add_Suc)
  ultimately show ?thesis unfolding ingest_route_entry_def by (simp add: refl bind_rel)
qed

lemma ingest_rel: "R n (snd (ingest_route_entries env entries via n))"
  unfolding ingest_route_entries_def by (intro for_each_rel ingest_entry_rel)

lemma execute_punch_rel:
  assumes "punch_allowed n p" shows "R n (snd (execute_punch env p info n))"
proof -
  let ?pl = "punch_payload_with_request_id n p (en_rand env (pr_draws n))"
  let ?n = "n\<lparr>pr_draws := pr_draws n + 1,
    pr_pending_punch := dm_insert (pp_request_id ?pl) p (pr_pending_punch n)\<rparr>"
  have "R n ?n" by (simp add: internal same_core_def)
  moreover have "R ?n (?n\<lparr>pr_punches := pr_punches ?n @ [(p, data, info)]\<rparr>)" for data
    using assms by (intro punch_rel) (simp add: punch_allowed_def)
  ultimately show ?thesis
    using trans by (auto simp: execute_punch_def snd_bind_lift split: sum.split)
qed

lemma try_execute_punch_rel:
  assumes "punch_allowed n src" shows "R n (snd (try_execute_punch env src info k metric n))"
proof -
  define n1 where "n1 = (if metric > 0
    then n\<lparr>pr_last_punch := dm_insert src (en_secs env) (pr_last_punch n)\<rparr> else n)"
  define info' where "info' = inject_direct_addr k metric info"
  have "R n n1" by (simp add: n1_def internal same_core_def)
  moreover have "R n1 (snd (execute_punch env src info' n1))"
    using assms by (intro execute_punch_rel) (simp add: n1_def punch_allowed_def)
  ultimately have "R n (snd (attempt (execute_punch env src info') n1))" using trans by simp
  then show ?thesis
    unfolding try_execute_punch_def n1_def [symmetric] info'_def [symmetric] Let_def
    by (auto simp del: snd_attempt simp: refl)
qed

lemma handle_punch_payload_rel: "R n (snd (handle_punch_payload env data n))"
  by (auto simp: handle_punch_payload_def snd_bind_lift refl internal same_core_def split: sum.split)

lemma consult_rel: "R n (snd (handle_punch_consult_request env pkt k n))"
  unfolding handle_punch_consult_request_def
proof (intro bind_rel handle_punch_payload_rel)
  fix payload n
  have "R n (n\<lparr>pr_draws := pr_draws n + 1\<rparr>)" by (simp add: internal same_core_def)
  from trans [OF this send_protocol_to_route_rel]
  show "R n (snd ((if \<not> punch_allowed n (pp_src payload) then (Done (), n)
       else bind (make_punch_payload env (pp_src payload)) (\<lambda>reply.
         send_protocol_to_route env (pp_src payload) k PunchConsultReply
           (encode_punch_payload (en_codec env) reply)) n)))"
    using refl by (simp del: snd_send_protocol_to_route)
qed

lemma punch_known_rel:
  "punch_allowed n p \<Longrightarrow> R n (snd (case dm_get (pr_peer_nat n) p of
     Some info \<Rightarrow> execute_punch env p info n | None \<Rightarrow> (Done (), n)))"
  by (simp add: refl execute_punch_rel split: option.split)

lemma punch_op_rel: "R n (snd (punch env p n))"
proof (cases "punch_allowed n p")
  case True
  define pl where "pl = punch_payload_with_request_id n p (en_rand env (pr_draws n))"
  define n1 where "n1 = n\<lparr>pr_draws := pr_draws n + 1,
    pr_pending_punch := dm_insert (pp_request_id pl) p (pr_pending_punch n)\<rparr>"
  have 1: "R n n1" "punch_allowed n1 p"
    using True by (simp_all add: n1_def internal same_core_def punch_allowed_def)
  define m where "m = send_protocol env p PunchRequest (encode_punch_payload (en_codec env) pl)"
  have "R n1 (snd (m n1))" unfolding m_def by (rule send_protocol_rel)
  moreover have "punch_allowed (snd (m n1)) p" using 1(2) by (simp add: m_def punch_allowed_def)
  ultimately have "R n1 (snd (bind m (\<lambda>_ n. case dm_get (pr_peer_nat n) p of
      Some info \<Rightarrow> execute_punch env p info n | None \<Rightarrow> (Done (), n)) n1))"
    by (intro bind_rel punch_known_rel)
  from trans [OF 1(1) this] True show ?thesis by (simp add: punch_def n1_def m_def pl_def)
qed (simp add: punch_def refl)

lemma on_hello_request_rel:
  assumes "metric = 0 \<Longrightarrow> ok (pi_id peer) k"
  shows "R n (snd (on_hello_request env peer src k metric n))"
  unfolding on_hello_request_def
  by (intro bind_rel send_protocol_to_route_rel) (simp add: assms confirm_direct_rel confirm_tcp_rel)

lemma send_hello_rel: "R n (snd (send_hello a p n))"
  by (simp add: send_hello_def hello_rel refl)

lemma send_quic_rel: "R n (snd (send_quic p data n))"
  by (simp add: send_quic_def quic_rel refl)

lemma on_hello_reply_rel:
  assumes "\<And>hello. decode_hello_payload (en_codec env) data = Inr hello \<Longrightarrow> metric = 0
    \<Longrightarrow> k \<in> pr_pending_hello n \<Longrightarrow> ok (pi_id (hp_peer hello)) k"
  shows "R n (snd (on_hello_reply env data k metric n))"
proof (cases "decode_hello_payload (en_codec env) data")
  case (Inl e)
  then show ?thesis by (simp add: on_hello_reply_def refl)
next
  case (Inr hello)
  have "R n (hello_applied env hello k metric n)"
  proof -
    define n3 where "n3 = (let n1 = (case pi_nat (hp_peer hello) of None \<Rightarrow> n
            | Some info \<Rightarrow> n\<lparr>pr_peer_nat := dm_insert (pi_id (hp_peer hello)) info (pr_peer_nat n)\<rparr>);
          n2 = (case hp_observed hello of None \<Rightarrow> n1
            | Some ob \<Rightarrow> if metric = 0 then n1\<lparr>pr_nat := apply_observation_to_nat_info ob (pr_nat n1)\<rparr> else n1)
      in n2\<lparr>pr_pending_hello := pr_pending_hello n2 - {k}\<rparr>)"
    have "R n n3" by (rule internal) (simp add: n3_def Let_def same_core_def split: option.split)
    moreover have "R n3 (hello_applied env hello k metric n)"
      unfolding hello_applied_def Let_def n3_def [unfolded Let_def, symmetric]
      using assms [OF Inr] by (simp add: confirm_direct_rel upsert_rel)
    ultimately show ?thesis by (rule trans)
  qed
  moreover have "R (hello_applied env hello k metric n) (snd (on_hello_reply env data k metric n))"
    unfolding on_hello_reply_eval [OF Inr] by (intro bind_rel send_hello_rel ingest_rel)
  ultimately show ?thesis by (rule trans)
qed

lemma on_id_route_query_rel: "R n (snd (on_id_route_query env peer src k metric n))"
  unfolding on_id_route_query_def by (intro bind_rel confirm_relay_rel send_protocol_to_route_rel)

lemma on_id_route_reply_rel:
  assumes "metric = 0 \<Longrightarrow> rk_protocol k = TCP \<Longrightarrow> ok (pi_id peer) k"
  shows "R n (snd (on_id_route_reply env peer data k metric n))"
  unfolding on_id_route_reply_def
  by (intro bind_rel confirm_tcp_rel confirm_relay_rel ingest_rel) (simp_all add: refl assms)

lemma on_echo_request_rel:
  assumes "metric = 0 \<Longrightarrow> rk_protocol k = TCP \<Longrightarrow> ok (pi_id peer) k"
  shows "R n (snd (on_echo_request env peer src data k metric n))"
  unfolding on_echo_request_def by (intro bind_rel confirm_tcp_rel send_protocol_to_route_rel assms)

lemma on_timestamp_request_rel:
  assumes "metric = 0 \<Longrightarrow> rk_protocol k = TCP \<Longrightarrow> ok (pi_id peer) k"
  shows "R n (snd (on_timestamp_request env peer src data k metric n))"
  unfolding on_timestamp_request_def by (intro bind_rel confirm_tcp_rel send_protocol_to_route_rel assms)

lemma on_echo_reply_rel: "R n (snd (on_echo_reply env src data k metric n))"
  by (simp add: on_echo_reply_def Let_def refl rtt_rel)

lemma on_nat_observe_request_rel: "R n (snd (on_nat_observe_request env src k metric n))"
  by (simp add: on_nat_observe_request_def refl send_protocol_to_route_rel del: snd_send_protocol_to_route)

lemma pending_observe_rel: "R n (snd (is_confirmed_or_pending_nat_observe p k metric n))"
  by (simp add: is_confirmed_or_pending_nat_observe_def refl internal same_core_def)

lemma on_nat_observe_reply_rel:
  assumes "\<And>ob. decode_nat_observe_reply_payload (en_codec env) data = Inr ob \<Longrightarrow> metric = 0
    \<Longrightarrow> no_observer ob = src \<Longrightarrow> should_observe_with n src \<Longrightarrow> ok (pi_id peer) k"
  shows "R n (snd (on_nat_observe_reply env peer src data k metric n))"
  unfolding on_nat_observe_reply_def
proof (rule bind_rel [OF pending_observe_rel])
  fix x
  let ?n = "snd (is_confirmed_or_pending_nat_observe src k metric n)"
  have o: "should_observe_with ?n src = should_observe_with n src"
    by (simp add: is_confirmed_or_pending_nat_observe_def should_observe_with_def)
  have "R m (snd (bind (apply_observation ob) (\<lambda>_. if metric = 0 then confirm_direct_and_promote env peer k else ret ()) m))"
    if "metric = 0 \<Longrightarrow> ok (pi_id peer) k" for m ob
    unfolding apply_observation_def using that
    by (intro bind_rel internal_upd) (simp_all add: same_core_def confirm_direct_rel refl)
  with o assms show "R ?n (snd ((if x then bind (lift (decode_nat_observe_reply_payload (en_codec env) data)) (\<lambda>ob n.
        if no_observer ob = src \<and> should_observe_with n src then
          bind (apply_observation ob) (\<lambda>_. if metric = 0 then confirm_direct_and_promote env peer k else ret ()) n
        else (Done (), n)) else ret ()) ?n))"
    by (cases "decode_nat_observe_reply_payload (en_codec env) data") (simp_all add: refl)
qed

lemma handle_punch_payload_Done:
  "handle_punch_payload env data n = (Done pl, n') \<Longrightarrow> decode_punch_payload (en_codec env) data = Inr pl
     \<and> n' = n\<lparr>pr_peer_nat := dm_insert (pp_src pl) (pp_nat pl) (pr_peer_nat n)\<rparr>"
  by (cases "decode_punch_payload (en_codec env) data") (auto simp: handle_punch_payload_def ret_def)

lemma confirm_punched_rel: "ok src k \<Longrightarrow> R n (snd (confirm_punched env src k metric n))"
  by (simp add: confirm_punched_def confirm_direct_rel refl)

lemma answer_punch_rel: "R n (snd (answer_punch env pl k metric n))"
  unfolding answer_punch_def
  by (auto simp del: snd_send_protocol_to_route
      intro!: refl bind_rel try_execute_punch_rel send_protocol_to_route_rel)

lemma on_punch_request_rel:
  assumes "\<And>pl. decode_punch_payload (en_codec env) data = Inr pl \<Longrightarrow> metric = 0 \<Longrightarrow> ok (pp_src pl) k"
  shows "R n (snd (on_punch_request env data k metric n))"
  unfolding on_punch_request_def
proof (rule bind_rel_res [OF handle_punch_payload_rel], rule bind_rel)
  fix pl n'
  assume "handle_punch_payload env data n = (Done pl, n')"
  with assms have "metric = 0 \<Longrightarrow> ok (pp_src pl) k" by (simp add: handle_punch_payload_Done)
  then show "R n' (snd ((if metric = 0 then bind (confirm_punched env (pp_src pl) k metric)
      (\<lambda>_. upd (\<lambda>n. n\<lparr>pr_candidates := dm_insert (pp_src pl) k (pr_candidates n)\<rparr>)) else ret ()) n'))"
    by (simp add: refl bind_rel confirm_punched_rel internal same_core_def)
qed (rule answer_punch_rel)

lemma match_punch_reply_rel:
  assumes "metric = 0 \<Longrightarrow> dm_get (pr_pending_punch n) (pp_request_id pl) = Some (pp_src pl) \<Longrightarrow> ok (pp_src pl) k"
  shows "R n (snd (match_punch_reply env pl k metric n))"
proof -
  let ?n = "n\<lparr>pr_pending_punch := dm_remove (pp_request_id pl) (pr_pending_punch n)\<rparr>"
  have 1: "R n ?n" by (simp add: internal same_core_def)
  have "ok (pp_src pl) k \<Longrightarrow> R n (snd (confirm_punched env (pp_src pl) k metric ?n))"
    using trans [OF 1 confirm_punched_rel] .
  with 1 assms show ?thesis by (auto simp: match_punch_reply_def Let_def refl split: option.split)
qed

lemma on_punch_reply_rel:
  assumes "\<And>pl. decode_punch_payload (en_codec env) data = Inr pl \<Longrightarrow> metric = 0
    \<Longrightarrow> dm_get (pr_pending_punch n) (pp_request_id pl) = Some (pp_src pl) \<Longrightarrow> ok (pp_src pl) k"
  shows "R n (snd (on_punch_reply env data k metric n))"
  unfolding on_punch_reply_def
proof (rule bind_rel_res [OF handle_punch_payload_rel], rule bind_rel)
  fix pl n'
  assume "handle_punch_payload env data n = (Done pl, n')"
  with assms show "R n' (snd (match_punch_reply env pl k metric n'))"
    using handle_punch_payload_Done [of env data n pl n'] by (intro match_punch_reply_rel) simp
qed (simp add: refl try_execute_punch_rel)

lemma handle_local_rel:
  assumes "\<And>p. confirms env n pkt k p \<Longrightarrow> ok p k" and "packet_protocol pkt = Inr ty"
    and "pi_id peer = pk_src pkt"
  shows "R n (snd (handle_local env pkt peer k (packet_metric pkt) ty n))"
proof -
  note h = handle_local_def Let_def protocol_type.case
  note c = confirms_def assms(2) sum.case protocol_type.case
  show ?thesis
  proof (cases ty)
    case HelloRequest
    with assms show ?thesis by (simp add: h confirms_def on_hello_request_rel)
  next
    case HelloReply
    show ?thesis unfolding HelloReply h
      by (rule on_hello_reply_rel, rule assms(1)) (simp add: c HelloReply)
  next
    case PunchRequest
    show ?thesis unfolding PunchRequest h
      by (rule on_punch_request_rel, rule assms(1)) (simp add: c PunchRequest)
  next
    case PunchReply
    show ?thesis unfolding PunchReply h
      by (rule on_punch_reply_rel, rule assms(1)) (simp add: c PunchReply)
  next
    case NatObserveReply
    show ?thesis unfolding NatObserveReply h
      by (rule on_nat_observe_reply_rel, rule assms(1)) (simp add: c NatObserveReply assms(3))
  next
    case IDRouteReply
    show ?thesis unfolding IDRouteReply h
      by (rule on_id_route_reply_rel, rule assms(1)) (simp add: c IDRouteReply assms(3))
  next
    case EchoRequest
    show ?thesis unfolding EchoRequest h
      by (rule on_echo_request_rel, rule assms(1)) (simp add: c EchoRequest assms(3))
  next
    case TimestampRequest
    show ?thesis unfolding TimestampRequest h
      by (rule on_timestamp_request_rel, rule assms(1)) (simp add: c TimestampRequest assms(3))
  next
    case PunchConsultReply
    show ?thesis unfolding PunchConsultReply h
      by (intro bind_rel handle_punch_payload_rel) (simp add: refl)
  qed (simp_all add: h refl send_quic_rel consult_rel on_id_route_query_rel on_echo_reply_rel
      on_nat_observe_request_rel)
qed

lemma seen_rel: "R n (seen env pkt k n)"
proof -
  let ?n = "set_tr (update_route_read_time env (pk_src pkt) k (pr_transport n)) n"
  let ?n' = "set_tr (upsert_peer_info env (seen_peer env pkt k n) (pr_transport ?n)) ?n"
  have "R ?n ?n'" by (rule upsert_rel)
  moreover have "R ?n' (seen env pkt k n)" by (simp add: internal same_core_def seen_def)
  ultimately show ?thesis using trans [OF read_time_rel] trans by blast
qed

lemma handle_packet_rel:
  assumes "\<And>p. confirms env n pkt k p \<Longrightarrow> pk_dest pkt = pr_id n \<or> is_broadcast (pk_dest pkt) \<Longrightarrow> ok p k"
  shows "R n (snd (handle_packet env pkt k n))"
proof (cases "pk_src pkt = pr_id n \<or> is_unspecified (pk_src pkt)")
  case True
  then show ?thesis by (auto simp: handle_packet_def refl)
next
  case False
  let ?n = "seen env pkt k n"
  have "confirms env ?n pkt k p = confirms env n pkt k p" for p
    by (rule confirms_cong) (simp_all add: seen_def)
  with assms have "confirms env ?n pkt k p \<Longrightarrow> pk_dest pkt = pr_id n \<or> is_broadcast (pk_dest pkt) \<Longrightarrow> ok p k" for p
    by simp
  with False have "R ?n (snd (handle_packet env pkt k n))"
    by (auto simp: handle_packet_seen forward_rel snd_bind_lift refl handle_local_rel split: sum.split)
  with seen_rel show ?thesis by (rule trans)
qed

lemma handle_transport_packet_rel:
  assumes "\<And>p pkt. packet_parse data = Inr pkt \<Longrightarrow> confirms env n pkt k p
    \<Longrightarrow> pk_dest pkt = pr_id n \<or> is_broadcast (pk_dest pkt) \<Longrightarrow> ok p k"
  shows "R n (snd (handle_transport_packet env data k n))"
  using assms
  by (auto simp: handle_transport_packet_def refl snd_bind_lift handle_packet_rel
      split: list.split packet_type.split sum.split)

lemma observe_peer_rel: "R n (snd (observe_peer env peer n))"
proof -
  define c where "c = (\<lambda>n :: node. case route_for (pi_id peer) (pr_transport n) of
      (Inr r, t) \<Rightarrow> (Done (), n\<lparr>pr_transport := t,
         pr_pending_observe := dm_insert (pi_id peer) (r_key r) (pr_pending_observe n)\<rparr>)
    | (Inl _, t) \<Rightarrow> (Done (), n\<lparr>pr_transport := t\<rparr>))"
  have "R m (snd (c m))" for m
  proof -
    obtain r t where rt: "route_for (pi_id peer) (pr_transport m) = (r, t)" by fastforce
    have 1: "R m (set_tr t m)" using route_for_rel [of m "pi_id peer"] rt by simp
    have "R (set_tr t m) (set_tr t m\<lparr>pr_pending_observe := x\<rparr>)" for x by (simp add: internal same_core_def)
    from trans [OF 1 this] 1 rt show ?thesis by (auto simp: c_def split: sum.split)
  qed
  then have "R m (snd (bind c (\<lambda>_. attempt (send_protocol env (pi_id peer) NatObserveRequest [])) m))" for m
    by (intro bind_rel) (simp_all only: snd_attempt send_protocol_rel)
  then show ?thesis unfolding observe_peer_def c_def [symmetric] by (simp add: refl)
qed

lemma observe_tick_rel: "R n (snd (observe_tick env n))"
  by (simp add: observe_tick_def refl for_each_rel observe_peer_rel)

lemma stun_tick_rel: "R n (snd (stun_tick r n))"
  by (simp add: stun_tick_def refl internal same_core_def split: sum.split)

lemma maintain_routes_rel: "R n (snd (maintain_routes env peer n))"
  by (simp add: maintain_routes_def query_routes_def refl send_protocol_rel del: snd_send_protocol)

lemma probe_candidate_rel: "R n (snd (probe_candidate env c n))"
proof -
  obtain r t where rt: "route_for (fst c) (pr_transport n) = (r, t)" by fastforce
  have 1: "R n (set_tr t n)" using route_for_rel [of n "fst c"] rt by simp
  define n1 where "n1 = n\<lparr>pr_transport := t, pr_pending_hello := insert (snd c) (pr_pending_hello n)\<rparr>"
  have "R (set_tr t n) n1" by (simp add: n1_def internal same_core_def)
  then have "R n (snd (send_protocol_to_route env (fst c) (snd c) HelloRequest [] n1))"
    by (rule trans [OF trans [OF 1] send_protocol_to_route_rel])
  with 1 rt show ?thesis
    by (auto simp: probe_candidate_def n1_def simp del: snd_send_protocol_to_route split: sum.split)
qed

lemma auto_punch_send_rel:
  assumes "punch_allowed n p" shows "R n (snd (auto_punch_send env p n))"
proof -
  define info where "info = dm_get (pr_peer_nat n) p"
  define n0 where "n0 = n\<lparr>pr_last_punch := dm_insert p (en_secs env) (pr_last_punch n)\<rparr>"
  define pl where "pl = punch_payload_with_request_id n0 p (en_rand env (pr_draws n0))"
  define n1 where "n1 = n0\<lparr>pr_draws := pr_draws n0 + 1,
    pr_pending_punch := dm_insert (pp_request_id pl) p (pr_pending_punch n0)\<rparr>"
  define m where "m = attempt (send_protocol env p PunchRequest (encode_punch_payload (en_codec env) pl))"
  have 1: "R n n1" "punch_allowed n1 p"
    using assms by (simp_all add: n1_def n0_def internal same_core_def punch_allowed_def)
  have "R n1 (snd (m n1))" unfolding m_def snd_attempt by (rule send_protocol_rel)
  moreover have "punch_allowed (snd (m n1)) p" using 1(2) by (simp add: m_def punch_allowed_def)
  ultimately have "R n1 (snd (bind m (\<lambda>_. if can_execute info then attempt (execute_punch env p (the info)) else ret ()) n1))"
    by (intro bind_rel) (simp_all add: refl execute_punch_rel)
  from trans [OF 1(1) this] show ?thesis
    unfolding auto_punch_send_def Let_def bind_simps bind_make_punch_payload info_def [symmetric]
      n0_def [symmetric] pl_def [symmetric] m_def n1_def by simp
qed

lemma auto_punch_peer_rel: "R n (snd (auto_punch_peer env peer n))"
proof -
  obtain r t where rt: "route_metric_for (pi_id peer) (pr_transport n) = (r, t)" by fastforce
  have 1: "R n (set_tr t n)" using route_metric_rel [of n "pi_id peer"] rt by simp
  have "punch_allowed n (pi_id peer) \<Longrightarrow> R n (snd (auto_punch_send env (pi_id peer) (set_tr t n)))"
    by (rule trans [OF 1 auto_punch_send_rel]) (simp add: punch_allowed_def)
  with 1 rt show ?thesis by (simp add: auto_punch_peer_def Let_def refl)
qed

lemma maintenance_tick_rel: "R n (snd (maintenance_tick env n))"
  unfolding maintenance_tick_def
  by (simp add: refl bind_rel for_each_rel maintain_routes_rel probe_candidate_rel auto_punch_peer_rel)

lemma heartbeat_tick_rel: "R n (snd (heartbeat_tick env n))"
  by (simp add: heartbeat_tick_def refl for_each_rel echo_probe_rel)

lemma try_send_quic_rel: "R n (snd (try_send_quic_payload p payload n))"
proof -
  obtain r t where rt: "route_metric_for p (pr_transport n) = (r, t)" by fastforce
  have 1: "R n (set_tr t n)" using route_metric_rel [of n p] rt by simp
  have 2: "R n (set_tr (snd (try_send_route k data t)) n)" for k data
    using trans [OF 1 try_route_rel [of "set_tr t n" k data]] by simp
  have 3: "R n (set_tr (snd (try_send_packet p data t)) n)" for data
    using trans [OF 1 try_peer_rel [of "set_tr t n" p data]] by simp
  show ?thesis using 1 2 3
    by (auto simp: try_send_quic_payload_def snd_bind_lift rt refl split: sum.split option.split)
qed

lemma try_send_quic_via_rel: "R n (snd (try_send_quic_payload_via p k payload n))"
  by (simp add: try_send_quic_payload_via_def snd_bind_lift refl try_route_rel split: sum.split)

lemma node_route_metric_rel: "R n (snd (node_route_metric_for p n))"
proof -
  obtain r t where rt: "route_metric_for p (pr_transport n) = (r, t)" by fastforce
  have "R n (set_tr t n)" using route_metric_rel [of n p] rt by simp
  then show ?thesis by (auto simp: node_route_metric_for_def rt split: sum.split option.split)
qed

end

end
