(* ===== verification/Protocol_Props.thy ===== *)
theory Protocol_Props
  imports Protocol_Safety
begin

text \<open>
  The interpretations of \<open>node_relation\<close> and the properties of the protocol layer: its invariant,
  where direct routes come from, what relays do, delivery of QUIC payloads across relays, the
  punch whitelist and its rate limit, and the findings.
\<close>

section \<open>The invariant\<close>

definition node_inv :: "load_balance \<Rightarrow> node \<Rightarrow> bool" where
  "node_inv lb n \<longleftrightarrow> tr_inv (pr_transport n) \<and> rt_lb (tr_routes (pr_transport n)) = lb
     \<and> tr_id (pr_transport n) = pr_id n \<and> 1 \<le> unat (pr_max_ttl n)
     \<and> length (pr_hello n) \<le> HELLO_QUEUE \<and> length (pr_quic n) \<le> QUIC_QUEUE"

definition keeps_inv :: "load_balance \<Rightarrow> node \<Rightarrow> node \<Rightarrow> bool" where
  "keeps_inv lb n n' \<longleftrightarrow> (node_inv lb n \<longrightarrow> node_inv lb n')"

lemma tr_id_frame [simp]:
  "tr_id (snd (send_to_route env k data t)) = tr_id t" "tr_id (snd (send_packet_to_peer env p data t)) = tr_id t"
  "tr_id (snd (send_raw_to_addr env data a t)) = tr_id t" "tr_id (snd (route_for p t)) = tr_id t"
  "tr_id (core_sender_step env t) = tr_id t" "tr_id (confirm_route env p k m t) = tr_id t"
  using send_to_route_frame(1) send_packet_frame(1) send_raw_frame(1) route_for_frame(1) core_sender_frame(1)
    confirm_route_frame(1) by (simp_all add: same_peers_def)

lemma tr_step_id: "tr_step t t' \<Longrightarrow> tr_id t' = tr_id t"
  by (cases rule: tr_step.cases, assumption)
    (simp_all add: confirm_peer_route_def update_route_read_time_def update_route_rtt_def try_send_packet_def
      try_send_route_def start_tunnel_actor_def end_tunnel_actor_def transport_close_def Let_def)

lemma node_inv_tr_step:
  assumes "tr_step (pr_transport n) t" and "node_inv lb n" shows "node_inv lb (set_tr t n)"
  using assms tr_step_frame [OF assms(1)] rt_inv_routes_step [of "pr_transport n" t] tr_step_id [OF assms(1)]
  by (simp add: node_inv_def tr_inv_def)

interpretation inv: node_relation "keeps_inv lb" "\<lambda>_ _. True" for lb
proof unfold_locales
  fix n n' :: node
  assume "same_core n n'" then show "keeps_inv lb n n'"
    by (simp add: same_core_def keeps_inv_def node_inv_def)
qed (auto simp: keeps_inv_def intro!: node_inv_tr_step tr_step.intros, auto simp: node_inv_def)

section \<open>Other relations\<close>

abbreviation direct_to :: "node \<Rightarrow> peer_id \<Rightarrow> route_key \<Rightarrow> bool" where
  "direct_to n \<equiv> has_direct (tr_routes (pr_transport n))"

definition direct_within :: "(peer_id \<Rightarrow> route_key \<Rightarrow> bool) \<Rightarrow> node \<Rightarrow> node \<Rightarrow> bool" where
  "direct_within ok n n' \<longleftrightarrow> (\<forall>p k. direct_to n p k \<longrightarrow> direct_to n' p k) \<and>
     (\<forall>p k. direct_to n' p k \<longrightarrow> direct_to n p k \<or> ok p k)"

lemma has_direct_confirm_peer_route:
  "has_direct (tr_routes (confirm_peer_route env peer k metric t)) p k' \<longleftrightarrow>
     has_direct (tr_routes t) p k' \<or> p = pi_id peer \<and> k' = k \<and> metric = 0"
  by (simp add: confirm_peer_route_def confirm_route_def has_direct_add_route route_from_default_rt_def
      is_direct_def)

lemma has_direct_send_packet:
  "has_direct (tr_routes (snd (send_packet_to_peer env p data t))) q k \<longleftrightarrow> has_direct (tr_routes t) q k"
proof -
  obtain r rt where g: "get_route_by_id (tr_routes t) p = (r, rt)" by (metis surj_pair)
  with has_direct_reads(1) [of "tr_routes t" p q k] show ?thesis
    by (auto simp: send_packet_to_peer_def send_to_route_frame split: sum.split)
qed

lemma has_direct_route_for: "has_direct (tr_routes (snd (route_for p t))) q k \<longleftrightarrow> has_direct (tr_routes t) q k"
  by (simp add: route_for_def case_prod_beta Let_def)

lemma direct_within_trans: "direct_within ok n n' \<Longrightarrow> direct_within ok n' n'' \<Longrightarrow> direct_within ok n n''"
  unfolding direct_within_def by blast

interpretation dw: node_relation "direct_within ok" ok for ok
proof unfold_locales
  fix n n' n'' :: node
  assume "direct_within ok n n'" "direct_within ok n' n''"
  then show "direct_within ok n n''" by (rule direct_within_trans)
qed (auto simp: direct_within_def same_core_def send_to_route_frame has_direct_send_packet send_raw_frame
      try_send_route_def try_send_packet_def has_direct_route_for update_route_read_time_def
      update_route_rtt_def has_direct_confirm_peer_route)

definition punches_allowed :: "node \<Rightarrow> node \<Rightarrow> bool" where
  "punches_allowed n n' \<longleftrightarrow> pr_whitelist n' = pr_whitelist n \<and>
     (\<exists>ys. pr_punches n' = pr_punches n @ ys \<and> (\<forall>y \<in> set ys. punch_allowed n (fst y)))"

lemma punches_allowed_trans:
  "punches_allowed n n' \<Longrightarrow> punches_allowed n' n'' \<Longrightarrow> punches_allowed n n''"
  by (auto simp: punches_allowed_def punch_allowed_def)

interpretation pun: node_relation punches_allowed "\<lambda>_ _. True"
  by unfold_locales (erule (1) punches_allowed_trans | simp add: punches_allowed_def same_core_def)+

definition hello_grows :: "node \<Rightarrow> node \<Rightarrow> bool" where
  "hello_grows n n' \<longleftrightarrow> pr_id n' = pr_id n \<and> (\<exists>ys. pr_hello n' = pr_hello n @ ys)"

interpretation hel: node_relation hello_grows "\<lambda>_ _. True"
  by unfold_locales (auto simp: hello_grows_def same_core_def)

section \<open>Reachable nodes\<close>

text \<open>
  The steps of a node: packets, background ticks, calls of the endpoint, spawned probes, the
  waits of a bootstrap, and whatever the transport does on its own (tunnel actors, the sender
  task).
\<close>

inductive node_step :: "node \<Rightarrow> node \<Rightarrow> bool" where
  step_packet: "node_step n (snd (handle_transport_packet env data k n))"
| step_probe: "node_step n (snd (run_probe env n))"
| step_stun: "node_step n (snd (stun_tick r n))"
| step_observe: "node_step n (snd (observe_tick env n))"
| step_maintenance: "node_step n (snd (maintenance_tick env n))"
| step_heartbeat: "node_step n (snd (heartbeat_tick env n))"
| step_punch: "node_step n (snd (punch env p n))"
| step_quic_send: "node_step n (snd (try_send_quic_payload p data n))"
| step_quic_send_via: "node_step n (snd (try_send_quic_payload_via p k data n))"
| step_route_metric: "node_step n (snd (node_route_metric_for p n))"
| step_quic_recv: "node_step n (snd (recv_quic_payload n))"
| step_bootstrap: "node_step n (snd (add_bootstrap_once env [] a n))"
| step_bootstrap_poll: "node_step n (n\<lparr>pr_hello := snd (take_hello a (pr_hello n))\<rparr>)"
| step_allow: "node_step n (allow_punch p n)"
| step_deny: "node_step n (deny_punch p n)"
| step_whitelist: "node_step n (set_punch_whitelist ps n)"
| step_transport: "tr_step (pr_transport n) t \<Longrightarrow> node_step n (set_tr t n)"
| step_close: "node_step n (protocol_close n)"

inductive node_reachable :: "load_balance \<Rightarrow> node \<Rightarrow> bool" for lb where
  node_init: "node_reachable lb (protocol_new p (transport_bind p lb a raw tcp) ttl wl observers info)"
| node_next: "node_reachable lb n \<Longrightarrow> node_step n n' \<Longrightarrow> node_reachable lb n'"

lemma length_take_hello: "length (snd (take_hello a q)) \<le> length q"
  by (induction a q rule: take_hello.induct) auto

lemma node_inv_drain: "node_inv lb n \<Longrightarrow> node_inv lb (n\<lparr>pr_hello := snd (take_hello a (pr_hello n))\<rparr>)"
  using length_take_hello [of a "pr_hello n"] by (simp add: node_inv_def)

lemma bootstrap_keeps_inv: "keeps_inv lb n (snd (add_bootstrap_once env [] a n))"
proof -
  have w: "keeps_inv lb m (snd (bootstrap_wait a [] m))" for m
    using node_inv_drain [of lb m a] by (auto simp: keeps_inv_def split: prod.split option.split)
  show ?thesis
    unfolding add_bootstrap_once_def
    by (intro inv.bind_rel) (simp_all add: inv.refl inv.send_raw_rel inv.internal same_core_def w del: bootstrap_wait.simps)
qed

lemma node_step_inv: "node_step n n' \<Longrightarrow> node_inv lb n \<Longrightarrow> node_inv lb n'"
proof (induction rule: node_step.induct)
  case (step_transport n t)
  then show ?case by (intro node_inv_tr_step)
next
  case (step_bootstrap n env a)
  then show ?case using bootstrap_keeps_inv [of lb n env a] by (simp add: keeps_inv_def)
qed (use inv.handle_transport_packet_rel [of _ _ _ _ lb, unfolded keeps_inv_def]
      inv.run_probe_rel [of lb, unfolded keeps_inv_def] inv.stun_tick_rel [of lb, unfolded keeps_inv_def]
      inv.observe_tick_rel [of lb, unfolded keeps_inv_def] inv.maintenance_tick_rel [of lb, unfolded keeps_inv_def]
      inv.heartbeat_tick_rel [of lb, unfolded keeps_inv_def] inv.punch_op_rel [of lb, unfolded keeps_inv_def]
      inv.try_send_quic_rel [of lb, unfolded keeps_inv_def] inv.try_send_quic_via_rel [of lb, unfolded keeps_inv_def]
      inv.node_route_metric_rel [of lb, unfolded keeps_inv_def] node_inv_drain in
    \<open>auto simp: recv_quic_payload_def allow_punch_def deny_punch_def set_punch_whitelist_def
        protocol_close_def node_inv_def split: list.split option.split\<close>)

lemma node_reachable_inv: "node_reachable lb n \<Longrightarrow> node_inv lb n"
proof (induction rule: node_reachable.induct)
  case (node_init p a raw tcp ttl wl observers info)
  have "tr_inv (transport_bind p lb a raw tcp) \<and> rt_lb (tr_routes (transport_bind p lb a raw tcp)) = lb"
    by (rule tr_reachable_inv [OF tr_init])
  moreover have "1 \<le> unat (max ttl 1)" by (auto simp: max_def word_le_nat_alt)
  ultimately show ?case by (simp add: node_inv_def protocol_new_def transport_bind_def)
qed (rule node_step_inv)

section \<open>Properties of the protocol layer\<close>

lemma packet_parse_nonempty: "packet_parse data = Inr pkt \<Longrightarrow> \<exists>b bs. data = b # bs"
  by (cases data) (auto simp: packet_parse_def FIXED_HEADER_LEN_def)

lemma handle_transport_eval:
  assumes "packet_parse data = Inr pkt" and "classify_packet (data ! 0) = PtRustP2p b"
  shows "handle_transport_packet env data k n = handle_packet env pkt k n"
  using packet_parse_nonempty [OF assms(1)] assms by (auto simp: handle_transport_packet_def)

text \<open>
  C2: Every reachable node keeps its invariant: the peer store never holds the node itself or an
  unspecified address, the route table is well formed, the TTL it stamps on packets is at
  least one, and its two queues stay within their bounds.
\<close>

theorem node_invariant:
  assumes "node_reachable lb n"
  shows "peers_ok (pr_transport n) \<and> rt_inv (tr_routes (pr_transport n))
    \<and> tr_id (pr_transport n) = pr_id n \<and> 1 \<le> unat (pr_max_ttl n)
    \<and> length (pr_hello n) \<le> 128 \<and> length (pr_quic n) \<le> 512"
  using node_reachable_inv [OF assms]
  by (simp add: node_inv_def tr_inv_def HELLO_QUEUE_def QUIC_QUEUE_def)

definition sample_node :: "load_balance \<Rightarrow> node" where
  "sample_node lb = protocol_new (PeerId [0x6d]) (sample_transport lb) 0 None [] nat_info_default"

lemma sample_node_reachable: "node_reachable lb (sample_node lb)"
  unfolding sample_node_def sample_transport_def by (rule node_init)

theorem node_invariant_witness:
  "1 \<le> unat (pr_max_ttl (snd (handle_transport_packet sample_env
     (wire 0x8d 0 8 8 [0x61] [0xff] []) (sample_key 1) (sample_node MostRecent))))"
  using node_invariant [OF node_next [OF sample_node_reachable step_packet]] by blast



lemma quic_payload_queued:
  assumes "try_send_quic_payload q payload n = (Done (), n1)"
  obtains pkt out where "packet_build QuicRelay (pr_id n) q (pr_max_ttl n) payload = Inr pkt"
    "tr_outbound (pr_transport n1) = tr_outbound (pr_transport n) @ [out]"
    "out = PeerPacket q (pk_buf pkt) \<or> (\<exists>k. out = RoutePacket k (pk_buf pkt))"
proof -
  obtain r t where rt: "route_metric_for q (pr_transport n) = (r, t)" by fastforce
  have o: "tr_outbound t = tr_outbound (pr_transport n)"
    using rt by (auto simp: route_metric_for_def route_for_def case_prod_beta Let_def)
  from assms obtain pkt where b: "packet_build QuicRelay (pr_id n) q (pr_max_ttl n) payload = Inr pkt"
    by (cases "packet_build QuicRelay (pr_id n) q (pr_max_ttl n) payload") (simp_all add: try_send_quic_payload_def)
  show thesis
    using assms b rt o that [OF b]
    by (auto simp: try_send_quic_payload_def on_transport_def lift_def try_send_route_def try_send_packet_def
        split: sum.splits option.splits prod.splits if_splits)
qed

text \<open>
  C8: QUIC payloads are delivered across relays. What \<open>try_send_quic_payload\<close> queues for a peer,
  after any number of relays that the TTL admits, is put on the QUIC queue of that peer with
  the sender's id and byte for byte as it was given, and nowhere else.
\<close>

theorem quic_payload_delivery:
  assumes "try_send_quic_payload (pr_id m) payload n = (Done (), n1)"
    and "utf8_valid (pid_bytes (pr_id n))" and "utf8_valid (pid_bytes (pr_id m))"
    and "pr_id n \<noteq> pr_id m" and "\<not> is_unspecified (pr_id n)"
    and "h = 0 \<or> h < unat (pr_max_ttl n)" and "length (pr_quic m) < QUIC_QUEUE"
  shows "\<exists>out sent buf m'. tr_outbound (pr_transport n1) = tr_outbound (pr_transport n) @ [out]
    \<and> (out = PeerPacket (pr_id m) sent \<or> (\<exists>k'. out = RoutePacket k' sent))
    \<and> relay_hops h sent = Some buf
    \<and> handle_transport_packet env buf k m = (Done (), m')
    \<and> pr_quic m' = pr_quic m @ [(pr_id n, payload)] \<and> pr_hello m' = pr_hello m"
proof -
  obtain pkt out where b: "packet_build QuicRelay (pr_id n) (pr_id m) (pr_max_ttl n) payload = Inr pkt"
    and out: "tr_outbound (pr_transport n1) = tr_outbound (pr_transport n) @ [out]"
      "out = PeerPacket (pr_id m) (pk_buf pkt) \<or> (\<exists>k. out = RoutePacket k (pk_buf pkt))"
    by (rule quic_payload_queued [OF assms(1)])
  obtain buf q where q: "relay_hops h (pk_buf pkt) = Some buf" "packet_parse buf = Inr q"
    "packet_protocol q = Inr QuicRelay" "pk_src q = pr_id n" "pk_dest q = pr_id m" "packet_payload q = payload"
    and first: "buf = (0x80 OR protocol_type_byte QuicRelay) # tl buf"
    by (rule relayed_packet [OF b assms(2,3,6)])
  have "classify_packet (buf ! 0) = PtRustP2p (protocol_type_byte QuicRelay)"
    by (subst first) (simp only: nth_Cons_0 classify_kind)
  then have e: "handle_transport_packet env buf k m = handle_packet env q k m"
    by (rule handle_transport_eval [OF q(2)])
  have "handle_packet env q k m = send_quic (pr_id n) payload (seen env q k m)"
    using assms(4,5) by (simp add: handle_packet_seen q handle_local_def Let_def)
  moreover have "pr_quic (seen env q k m) = pr_quic m" "pr_hello (seen env q k m) = pr_hello m"
    by (simp_all add: seen_def)
  ultimately show ?thesis
    using out q(1) assms(7) by (auto simp: send_quic_def e)
qed

lemma node_step_punches:
  "node_step n n' \<Longrightarrow> \<exists>ys. pr_punches n' = pr_punches n @ ys \<and> (\<forall>y \<in> set ys. punch_allowed n (fst y))"
proof (induction rule: node_step.induct)
  case (step_bootstrap n env a)
  have "pr_punches (snd (bootstrap_wait a [] m)) = pr_punches m" for m
    by (auto split: prod.split option.split)
  then have "pr_punches (snd (add_bootstrap_once env [] a n)) = pr_punches n"
    by (auto simp: add_bootstrap_once_def bind_def on_transport_def lift_def upd_def
        simp del: bootstrap_wait.simps split: sum.split prod.split eff.split)
  then show ?case by simp
qed (use pun.handle_transport_packet_rel pun.run_probe_rel pun.stun_tick_rel pun.observe_tick_rel
      pun.maintenance_tick_rel pun.heartbeat_tick_rel pun.punch_op_rel pun.try_send_quic_rel
      pun.try_send_quic_via_rel pun.node_route_metric_rel in
    \<open>auto simp: punches_allowed_def recv_quic_payload_def allow_punch_def deny_punch_def
        set_punch_whitelist_def protocol_close_def split: list.split option.split\<close>)

text \<open>
  C19: The punch whitelist holds on every path. Whatever a node does, each hole punch it starts is
  towards a peer the whitelist admits at that moment; a call of \<open>punch\<close> for another peer is
  refused with \<open>PermissionDenied\<close> and changes nothing.
\<close>

theorem punch_whitelist_respected:
  assumes "node_step n n'"
  shows "(\<exists>ys. pr_punches n' = pr_punches n @ ys \<and> (\<forall>y \<in> set ys. punch_allowed n (fst y)))
    \<and> (\<not> punch_allowed n p \<longrightarrow>
         punch env p n = (Fail (IoError PermissionDenied ''peer is not in punch whitelist''), n))"
  using node_step_punches [OF assms] by (simp add: punch_def)

theorem punch_whitelist_respected_witness:
  "punch sample_env (PeerId [0x61]) (deny_punch (PeerId [0x62]) (sample_node RoundRobin))
     = (Fail (IoError PermissionDenied ''peer is not in punch whitelist''),
        deny_punch (PeerId [0x62]) (sample_node RoundRobin))"
  using punch_whitelist_respected [OF step_close, of "deny_punch (PeerId [0x62]) (sample_node RoundRobin)"
      "PeerId [0x61]" sample_env]
  by (simp add: punch_allowed_def deny_punch_def sample_node_def protocol_new_def)

text \<open>
  What the whitelist operations do. Allowing admits that peer and changes nothing else.
  Denying removes that peer from an explicit list, but from the state in which everybody is
  admitted it leaves nobody admitted.
\<close>

theorem whitelist_operations:
  "(punch_allowed (allow_punch p n) q \<longleftrightarrow> punch_allowed n q \<or> q = p)
   \<and> (punch_allowed (deny_punch p n) q \<longleftrightarrow> punch_allowed n q \<and> q \<noteq> p \<and> pr_whitelist n \<noteq> None)
   \<and> (punch_allowed (set_punch_whitelist ps n) q \<longleftrightarrow> ps = None \<or> q \<in> set (the ps))"
  by (auto simp: punch_allowed_def allow_punch_def deny_punch_def set_punch_whitelist_def split: option.splits)

lemma snd_execute_punch:
  "\<exists>d pp ys. snd (execute_punch env p info n) = n\<lparr>pr_draws := d, pr_pending_punch := pp, pr_punches := pr_punches n @ ys\<rparr>"
proof -
  have "\<exists>d pp ys. n\<lparr>pr_draws := a, pr_pending_punch := b\<rparr> = n\<lparr>pr_draws := d, pr_pending_punch := pp, pr_punches := pr_punches n @ ys\<rparr>" for a b
    by (rule exI [of _ a], rule exI [of _ b], rule exI [of _ "[]"]) simp
  then show ?thesis by (auto simp: execute_punch_def snd_bind_lift split: sum.split)
qed



section \<open>Echo replies\<close>

lemma echo_age:
  fixes now sent :: u64
  assumes "sent < now"
  shows "(now - sent < 60000) = (unat now - unat sent < 60000)"
    and "now - sent < 60000 \<Longrightarrow> 0 < unat (ucast (now - sent) :: u32)
      \<and> unat (ucast (now - sent) :: u32) = unat now - unat sent
      \<and> (ucast (now - sent) :: u32) = of_nat (unat now - unat sent)"
proof -
  from assms have u: "unat (now - sent) = unat now - unat sent" "unat sent < unat now"
    by (simp_all add: unat_sub_if' word_less_nat_alt)
  then show less: "(now - sent < 60000) = (unat now - unat sent < 60000)" by (simp add: word_less_nat_alt)
  assume "now - sent < 60000"
  with less have "unat now - unat sent < 60000" by simp
  with u have c: "unat (ucast (now - sent) :: u32) = unat now - unat sent"
    by (simp add: unsigned_ucast_eq take_bit_eq_mod)
  have "of_nat (unat (ucast (now - sent) :: u32)) = (ucast (now - sent) :: u32)"
    by (simp add: of_nat_unat)
  with c u show "0 < unat (ucast (now - sent) :: u32) \<and> unat (ucast (now - sent) :: u32) = unat now - unat sent
      \<and> (ucast (now - sent) :: u32) = of_nat (unat now - unat sent)"
    by (metis zero_less_diff)
qed



section \<open>Hello replies\<close>

lemma ingest_entry_parts:
  "fst (ingest_route_entry env via item n) = Done ()"
  "pr_hello (snd (ingest_route_entry env via item n)) = pr_hello n"
  "pr_id (snd (ingest_route_entry env via item n)) = pr_id n"
  "pr_nat (snd (ingest_route_entry env via item n)) = pr_nat n"
  by (auto simp: ingest_route_entry_def upd_transport_def upd_def bind_def ret_def split: option.split)

lemma ingest_parts [simp]:
  "fst (ingest_route_entries env entries via n) = Done ()"
  "pr_hello (snd (ingest_route_entries env entries via n)) = pr_hello n"
  "pr_id (snd (ingest_route_entries env entries via n)) = pr_id n"
  "pr_nat (snd (ingest_route_entries env entries via n)) = pr_nat n"
proof -
  have "fst (for_each (ingest_route_entry env via) entries n) = Done ()
      \<and> pr_hello (snd (for_each (ingest_route_entry env via) entries n)) = pr_hello n
      \<and> pr_id (snd (for_each (ingest_route_entry env via) entries n)) = pr_id n
      \<and> pr_nat (snd (for_each (ingest_route_entry env via) entries n)) = pr_nat n"
  proof (induction entries arbitrary: n)
    case (Cons e es)
    then show ?case by (simp add: bind_fst_Done ingest_entry_parts)
  qed (simp add: ret_def)
  then show "fst (ingest_route_entries env entries via n) = Done ()"
    "pr_hello (snd (ingest_route_entries env entries via n)) = pr_hello n"
    "pr_id (snd (ingest_route_entries env entries via n)) = pr_id n"
    "pr_nat (snd (ingest_route_entries env entries via n)) = pr_nat n"
    by (simp_all add: ingest_route_entries_def)
qed

lemma hello_applied_parts [simp]:
  "pr_hello (hello_applied env hello k metric n) = pr_hello n"
  "pr_id (hello_applied env hello k metric n) = pr_id n"
  "pr_nat (hello_applied env hello k metric n) = (case hp_observed hello of None \<Rightarrow> pr_nat n
     | Some ob \<Rightarrow> if metric = 0 then apply_observation_to_nat_info ob (pr_nat n) else pr_nat n)"
  by (simp_all add: hello_applied_def Let_def split: option.split)

lemma hello_applied_direct:
  "k \<in> pr_pending_hello n \<Longrightarrow> direct_to (hello_applied env hello k 0 n) (pi_id (hp_peer hello)) k"
  by (simp add: hello_applied_def Let_def has_direct_confirm_peer_route)


text \<open>
  Which messages are hello replies the node \<open>p\<close> accepts, and the dispatcher fed with a list of
  messages (it stops for good where it gets stuck).
\<close>

definition hello_reply_for :: "env \<Rightarrow> peer_id \<Rightarrow> bytes \<times> route_key \<Rightarrow> bool" where
  "hello_reply_for env p msg \<longleftrightarrow>
     (case packet_parse (fst msg) of
        Inl _ \<Rightarrow> False
      | Inr pkt \<Rightarrow> (\<exists>b. classify_packet (fst msg ! 0) = PtRustP2p b) \<and> packet_protocol pkt = Inr HelloReply
          \<and> (pk_dest pkt = p \<or> is_broadcast (pk_dest pkt)) \<and> pk_src pkt \<noteq> p \<and> \<not> is_unspecified (pk_src pkt)
          \<and> (\<exists>h. decode_hello_payload (en_codec env) (packet_payload pkt) = Inr h))"

fun dispatch_all :: "env \<Rightarrow> (bytes \<times> route_key) list \<Rightarrow> unit act" where
  "dispatch_all env [] = ret ()"
| "dispatch_all env (msg # msgs) =
     bind (attempt (handle_transport_packet env (fst msg) (snd msg))) (\<lambda>_. dispatch_all env msgs)"

lemma hello_reply_step:
  assumes "hello_reply_for env (pr_id n) (data, k)"
  shows "if length (pr_hello n) < HELLO_QUEUE
    then fst (handle_transport_packet env data k n) = Done ()
      \<and> length (pr_hello (snd (handle_transport_packet env data k n))) = Suc (length (pr_hello n))
      \<and> pr_id (snd (handle_transport_packet env data k n)) = pr_id n
    else fst (handle_transport_packet env data k n) = Stuck"
proof -
  from assms obtain pkt b h where p: "packet_parse data = Inr pkt" "classify_packet (data ! 0) = PtRustP2p b"
    and q: "packet_protocol pkt = Inr HelloReply" "pk_dest pkt = pr_id n \<or> is_broadcast (pk_dest pkt)"
    and s: "pk_src pkt \<noteq> pr_id n" "\<not> is_unspecified (pk_src pkt)"
    and h: "decode_hello_payload (en_codec env) (packet_payload pkt) = Inr h"
    by (auto simp: hello_reply_for_def split: sum.splits)
  have "handle_transport_packet env data k n =
      on_hello_reply env (packet_payload pkt) k (packet_metric pkt) (seen env pkt k n)"
    unfolding handle_transport_eval [OF p] handle_packet_seen [OF s]
    using q by (auto simp: handle_local_def Let_def)
  moreover have "pr_hello (seen env pkt k n) = pr_hello n" "pr_id (seen env pkt k n) = pr_id n"
    by (simp_all add: seen_def)
  ultimately show ?thesis by (simp add: on_hello_reply_eval [OF h] send_hello_def bind_def split: prod.split)
qed

lemma dispatch_hello_stuck:
  "\<forall>msg \<in> set ms. hello_reply_for env (pr_id n) msg \<Longrightarrow> HELLO_QUEUE < length (pr_hello n) + length ms \<Longrightarrow>
    fst (dispatch_all env ms n) = Stuck \<or> length (pr_hello n) > HELLO_QUEUE"
proof (induction ms arbitrary: n)
  case (Cons msg ms)
  obtain data k where msg: "msg = (data, k)" by (cases msg)
  note step = hello_reply_step [of env n data k]
  show ?case
  proof (cases "length (pr_hello n) < HELLO_QUEUE")
    case True
    let ?n = "snd (handle_transport_packet env data k n)"
    from True step Cons.prems msg have s: "fst (handle_transport_packet env data k n) = Done ()"
      "length (pr_hello ?n) = Suc (length (pr_hello n))" "pr_id ?n = pr_id n" by auto
    have "fst (dispatch_all env ms ?n) = Stuck \<or> length (pr_hello ?n) > HELLO_QUEUE"
      using Cons.prems s by (intro Cons.IH) auto
    with True s msg show ?thesis
      by (cases "handle_transport_packet env data k n") (auto simp: bind_def attempt_def)
  next
    case False
    with step Cons.prems msg have "fst (handle_transport_packet env data k n) = Stuck" by auto
    then show ?thesis
      using msg by (cases "handle_transport_packet env data k n") (auto simp: bind_def attempt_def)
  qed
qed simp

text \<open>
  Hello replies can stop a node. The queue they are put on is emptied by a running bootstrap
  only; with none running, the dispatcher is stuck at the latest in the 129th hello reply it is
  sent, solicited or not, and handles no further packet. The background loops do not empty the
  queue either.
\<close>

theorem hello_flood_blocks_dispatcher:
  assumes "node_reachable lb n" and "\<forall>msg \<in> set ms. hello_reply_for env (pr_id n) msg" and "length ms > 128"
  shows "fst (dispatch_all env ms n) = Stuck
    \<and> hello_grows n (snd (maintenance_tick env n)) \<and> hello_grows n (snd (heartbeat_tick env n))
    \<and> hello_grows n (snd (observe_tick env n)) \<and> hello_grows n (snd (run_probe env n))"
proof -
  have "length (pr_hello n) \<le> HELLO_QUEUE" using node_reachable_inv [OF assms(1)] by (simp add: node_inv_def)
  then have "fst (dispatch_all env ms n) = Stuck"
    using dispatch_hello_stuck [OF assms(2)] assms(3) by (simp add: HELLO_QUEUE_def)
  then show ?thesis
    using hel.maintenance_tick_rel hel.heartbeat_tick_rel hel.observe_tick_rel hel.run_probe_rel by blast
qed

definition sample_hello_reply :: bytes where
  "sample_hello_reply = wire 0x8e 0 8 8 [0x61] [0x6d] [1]"

lemma decode_sample_hello: "\<exists>h. decode_hello_payload sample_codec data = Inr h"
  by (simp add: decode_hello_payload_def decode_msg_def sample_codec_def pb_simps)

lemma sample_hello_reply_ok: "hello_reply_for sample_env (PeerId [0x6d]) (sample_hello_reply, k)"
proof -
  have p: "packet_parse sample_hello_reply = Inr (wire_packet 0x8e 0 8 8 [0x61] [0x6d] [1])"
    unfolding sample_hello_reply_def
    by (rule packet_parse_wire) (simp_all add: wire_fits_def FIXED_HEADER_LEN_def)
  have "classify_packet (sample_hello_reply ! 0) = PtRustP2p 14"
    by (simp add: sample_hello_reply_def wire_simps classify_packet_def)
  with p decode_sample_hello show ?thesis
    by (simp add: hello_reply_for_def protocol_type_try_from_def is_unspecified_def peer_unspecified_def sample_env_def)
qed

theorem hello_flood_blocks_dispatcher_witness:
  "fst (dispatch_all sample_env (replicate 129 (sample_hello_reply, sample_key 1)) (sample_node MostRecent)) = Stuck"
proof -
  have "pr_id (sample_node MostRecent) = PeerId [0x6d]" by (simp add: sample_node_def protocol_new_def)
  with hello_flood_blocks_dispatcher [OF sample_node_reachable, of "replicate 129 (sample_hello_reply, sample_key 1)" sample_env]
  show ?thesis by (simp add: sample_hello_reply_ok)
qed

text \<open>
  The list of accepted observers is not consulted for hello replies: the address that a
  directly received hello reply claims to have observed enters the node's own NAT information
  even when its sender is not an accepted observer.
\<close>

theorem hello_reply_bypasses_observers:
  assumes "decode_hello_payload (en_codec env) data = Inr h" and "hp_observed h = Some ob"
    and "\<not> should_observe_with n (pi_id (hp_peer h))"
  shows "pr_nat (snd (on_hello_reply env data k 0 n)) = apply_observation_to_nat_info ob (pr_nat n)"
proof -
  have "pr_nat (snd (bind (send_hello (rk_peer k) (pi_id (hp_peer h)))
      (\<lambda>_. ingest_route_entries env (hp_peers h) k) m)) = pr_nat m" for m
    by (simp add: send_hello_def bind_def split: prod.split)
  then show ?thesis by (simp add: on_hello_reply_eval [OF assms(1)] assms(2))
qed

theorem hello_reply_bypasses_observers_witness:
  "\<exists>env n data k. \<not> should_observe_with n (pi_id sample_peer)
     \<and> Ipv4Addr 203 0 113 2 \<notin> set (public_ips (pr_nat n))
     \<and> Ipv4Addr 203 0 113 2 \<in> set (public_ips (pr_nat (snd (on_hello_reply env data k 0 n))))"
proof -
  define h where "h = sample_hello\<lparr>hp_observed := Some sample_observation\<rparr>"
  define env where "env = sample_env\<lparr>en_codec := sample_codec\<lparr>dec_hello := \<lambda>_. Some (hello_payload_to_pb h)\<rparr>\<rparr>"
  define n where "n = protocol_new (PeerId [0x6d]) (sample_transport MostRecent) 8 None [PeerId [0x7a]] nat_info_default"
  have d: "decode_hello_payload (en_codec env) [] = Inr (hello_norm h)"
    by (simp add: decode_hello_payload_def decode_msg_def env_def pb_simps)
  have o: "hp_observed (hello_norm h) = Some (observation_norm sample_observation)"
    and id: "pi_id (hp_peer (hello_norm h)) = pi_id sample_peer"
    by (simp_all add: hello_norm_def h_def sample_hello_def peer_info_norm_def)
  have ob: "\<not> should_observe_with n (pi_id sample_peer)"
    by (simp add: should_observe_with_def n_def protocol_new_def sample_peer_def)
  from hello_reply_bypasses_observers [OF d o, unfolded id, OF ob]
  have "pr_nat (snd (on_hello_reply env [] (sample_key 1) 0 n)) =
      apply_observation_to_nat_info (observation_norm sample_observation) (pr_nat n)" .
  moreover have "no_addr (observation_norm sample_observation) = SockV4 (Ipv4Addr 203 0 113 2) 7788"
    by (simp add: observation_norm_def sample_observation_def)
  moreover have "Ipv4Addr 203 0 113 2 \<notin> set (public_ips (pr_nat n))"
    by (simp add: n_def protocol_new_def nat_info_default_def)
  ultimately have "Ipv4Addr 203 0 113 2 \<in> set (public_ips (pr_nat (snd (on_hello_reply env [] (sample_key 1) 0 n))))"
    by (simp add: apply_observation_to_nat_info_def observed_port_def split: observed_protocol.split)
  with ob \<open>Ipv4Addr 203 0 113 2 \<notin> set (public_ips (pr_nat n))\<close> show ?thesis by blast
qed

section \<open>The bootstrap handshake\<close>

lemma send_to_route_Inr:
  assumes "send_to_route env k data t = (Inr u, t')"
  shows "tr_routes t' = tr_routes t \<and> (\<exists>ev. tr_out t' = tr_out t @ [ev]
    \<and> (ev = OutUdp data (rk_peer k) \<or> (\<exists>i. ev = OutTunnel k i data)))"
  using assms
  by (auto simp: send_to_route_def send_raw_to_addr_def Let_def split: if_splits option.splits sum.splits)

lemma send_protocol_to_route_Done:
  assumes "send_protocol_to_route env dest k ty payload n = (Done u, n')"
  obtains pkt ev where "packet_build ty (pr_id n) dest (pr_max_ttl n) payload = Inr pkt"
    "tr_routes (pr_transport n') = tr_routes (pr_transport n)"
    "tr_out (pr_transport n') = tr_out (pr_transport n) @ [ev]"
    "ev = OutUdp (pk_buf pkt) (rk_peer k) \<or> (\<exists>i. ev = OutTunnel k i (pk_buf pkt))"
proof -
  obtain pkt where b: "packet_build ty (pr_id n) dest (pr_max_ttl n) payload = Inr pkt"
    using assms by (cases "packet_build ty (pr_id n) dest (pr_max_ttl n) payload")
      (simp_all add: send_protocol_to_route_def)
  with assms obtain t where "send_to_route env k (pk_buf pkt) (pr_transport n) = (Inr u, t)" "n' = set_tr t n"
    by (cases "send_to_route env k (pk_buf pkt) (pr_transport n)")
      (auto simp: send_protocol_to_route_def on_transport_def lift_def split: sum.splits)
  with send_to_route_Inr [OF this(1)] that [OF b] show thesis by auto
qed

lemma tr_out_confirm [simp]: "tr_out (confirm_peer_route env peer k metric t) = tr_out t"
  by (simp add: confirm_peer_route_def confirm_route_def upsert_peer_info_def Let_def)

lemma tr_out_seen [simp]: "tr_out (pr_transport (seen env pkt k n)) = tr_out (pr_transport n)"
  by (simp add: seen_def upsert_peer_info_def update_route_read_time_def Let_def)

text \<open>The payload with which a node answers a hello request that came straight to it.\<close>

definition hello_answer :: "env \<Rightarrow> packet \<Rightarrow> route_key \<Rightarrow> node \<Rightarrow> hello_payload" where
  "hello_answer env pkt k n =
     (let m = snd (confirm_direct_and_promote env (seen_peer env pkt k n) k (seen env pkt k n))
      in make_hello_payload env m (pk_src pkt) (Some (observation_from_route env m k)))"

lemma hello_request_answered:
  assumes "handle_packet env pkt k n = (Done (), n')" and "packet_protocol pkt = Inr HelloRequest"
    and "packet_metric pkt = 0" and "pk_dest pkt = pr_id n \<or> is_broadcast (pk_dest pkt)"
    and "pk_src pkt \<noteq> pr_id n" and "\<not> is_unspecified (pk_src pkt)"
  obtains reply ev where "direct_to n' (pk_src pkt) k"
    "packet_build HelloReply (pr_id n) (pk_src pkt) (pr_max_ttl n)
       (encode_hello_payload (en_codec env) (hello_answer env pkt k n)) = Inr reply"
    "tr_out (pr_transport n') = tr_out (pr_transport n) @ [ev]"
    "ev = OutUdp (pk_buf reply) (rk_peer k) \<or> (\<exists>i. ev = OutTunnel k i (pk_buf reply))"
proof -
  let ?m = "snd (confirm_direct_and_promote env (seen_peer env pkt k n) k (seen env pkt k n))"
  have i: "pr_id ?m = pr_id n" "pr_max_ttl ?m = pr_max_ttl n" "tr_out (pr_transport ?m) = tr_out (pr_transport n)"
    by (simp_all add: seen_def upsert_peer_info_def update_route_read_time_def Let_def)
  have d: "direct_to ?m (pk_src pkt) k" by (simp add: has_direct_confirm_peer_route)
  have "handle_packet env pkt k n = on_hello_request env (seen_peer env pkt k n) (pk_src pkt) k 0 (seen env pkt k n)"
    unfolding handle_packet_seen [OF assms(5,6)] using assms(2-4) by (auto simp: handle_local_def Let_def)
  then have "send_protocol_to_route env (pk_src pkt) k HelloReply
      (encode_hello_payload (en_codec env) (hello_answer env pkt k n)) ?m = (Done (), n')"
    using assms(1) by (simp add: on_hello_request_def bind_fst_Done hello_answer_def Let_def)
  from send_protocol_to_route_Done [OF this] i d that show thesis by metis
qed

lemma built_packet:
  assumes "packet_build ty src dest ttl payload = Inr pkt" and "utf8_valid (pid_bytes src)" and "utf8_valid (pid_bytes dest)"
  shows "packet_parse (pk_buf pkt) = Inr pkt" "packet_protocol pkt = Inr ty" "pk_src pkt = src" "pk_dest pkt = dest"
    "packet_payload pkt = payload" "packet_metric pkt = 0" "\<exists>b. classify_packet (pk_buf pkt ! 0) = PtRustP2p b"
proof -
  from assms(1) have f: "wire_fits (pid_bytes src) (pid_bytes dest) payload"
    and p: "pkt = wire_packet (0x80 OR protocol_type_byte ty) 0 ttl ttl (pid_bytes src) (pid_bytes dest) payload"
    by (simp_all add: packet_build_wire)
  show "packet_parse (pk_buf pkt) = Inr pkt"
    unfolding p wire_packet_fields by (rule packet_parse_wire [OF f kind_bits(1) assms(2,3)])
  show "packet_protocol pkt = Inr ty" "pk_src pkt = src" "pk_dest pkt = dest" "packet_payload pkt = payload"
    "packet_metric pkt = 0" "\<exists>b. classify_packet (pk_buf pkt ! 0) = PtRustP2p b"
    by (simp_all add: p kind_bits protocol_type_roundtrip packet_metric_def wire_simps classify_kind)
qed

lemma hello_norm_peer [simp]: "pi_id (hp_peer (hello_norm h)) = pi_id (hp_peer h)"
  by (simp add: hello_norm_def peer_info_norm_def)

lemma hello_answer_peer [simp]: "pi_id (hp_peer (hello_answer env pkt k n)) = pr_id n"
  by (simp add: hello_answer_def make_hello_payload_def self_peer_info_def Let_def seen_def)

lemma hello_reply_accepted:
  assumes "packet_parse buf = Inr pkt" and "classify_packet (buf ! 0) = PtRustP2p c"
    and "packet_protocol pkt = Inr HelloReply" and "packet_metric pkt = 0" and "pk_dest pkt = pr_id n"
    and "pk_src pkt \<noteq> pr_id n" and "\<not> is_unspecified (pk_src pkt)"
    and "decode_hello_payload (en_codec env) (packet_payload pkt) = Inr h"
    and "k \<in> pr_pending_hello n" and "length (pr_hello n) < HELLO_QUEUE"
  shows "\<exists>n'. handle_transport_packet env buf k n = (Done (), n') \<and> direct_to n' (pi_id (hp_peer h)) k
    \<and> pr_hello n' = pr_hello n @ [(rk_peer k, pi_id (hp_peer h))]"
proof -
  let ?n = "hello_applied env h k 0 (seen env pkt k n)"
  have "handle_transport_packet env buf k n = on_hello_reply env (packet_payload pkt) k 0 (seen env pkt k n)"
    unfolding handle_transport_eval [OF assms(1,2)] using assms(3-7)
    by (simp add: handle_packet_seen handle_local_def Let_def)
  then have e: "handle_transport_packet env buf k n =
      bind (send_hello (rk_peer k) (pi_id (hp_peer h))) (\<lambda>_. ingest_route_entries env (hp_peers h) k) ?n"
    by (simp add: on_hello_reply_eval [OF assms(8)])
  have s: "pr_hello (seen env pkt k n) = pr_hello n" "pr_pending_hello (seen env pkt k n) = pr_pending_hello n"
    by (simp_all add: seen_def)
  have dir: "direct_to ?n (pi_id (hp_peer h)) k"
    using hello_applied_direct [of k "seen env pkt k n" env h] assms(9) s by simp
  let ?n1 = "?n\<lparr>pr_hello := pr_hello n @ [(rk_peer k, pi_id (hp_peer h))]\<rparr>"
  let ?n' = "snd (ingest_route_entries env (hp_peers h) k ?n1)"
  have "handle_transport_packet env buf k n = (Done (), ?n')"
    unfolding e using assms(10) s by (simp add: send_hello_def bind_def) (metis ingest_parts(1) prod.collapse)
  moreover have "direct_to ?n' (pi_id (hp_peer h)) k"
    using dw.ingest_rel [of "\<lambda>_ _. True" ?n1] dir by (simp add: direct_within_def)
  ultimately show ?thesis by auto
qed


section \<open>Witnesses for the exchanges\<close>

text \<open>Two nodes, and the hello request the second one broadcasts.\<close>

definition sample_remote :: node where
  "sample_remote = protocol_new (PeerId [0x61])
     (transport_bind (PeerId [0x61]) RoundRobin (SockV4 (Ipv4Addr 10 0 0 2) 0) (SockV4 (Ipv4Addr 10 0 0 2) 1) None)
     8 None [] nat_info_default"

definition sample_request :: packet where
  "sample_request = wire_packet 0x8d 0 8 8 [0x61] [0x2a] []"

lemma sample_request_built:
  "packet_build HelloRequest (pr_id sample_remote) peer_broadcast (pr_max_ttl sample_remote) [] = Inr sample_request"
  by (simp add: packet_build_wire sample_remote_def protocol_new_def peer_broadcast_def sample_request_def
      wire_fits_def FIXED_HEADER_LEN_def)

lemma sample_node_fields [simp]:
  "pr_id (sample_node lb) = PeerId [0x6d]" "pr_max_ttl (sample_node lb) = 1" "pr_quic (sample_node lb) = []"
  "pr_hello (sample_node lb) = []" "tr_tunnels (pr_transport (sample_node lb)) = []"
  "rt_routes (tr_routes (pr_transport (sample_node lb))) = []" "tr_attached (pr_transport (sample_node lb))"
  "pr_candidates (sample_node lb) = []" "tr_sender_open (pr_transport (sample_node lb))"
  by (simp_all add: sample_node_def protocol_new_def sample_transport_def transport_bind_def route_table_new_def max_def)

lemma sample_remote_fields [simp]: "pr_id sample_remote = PeerId [0x61]" "pr_max_ttl sample_remote = 8"
  by (simp_all add: sample_remote_def protocol_new_def max_def word_le_nat_alt)

lemma tr_tunnels_kept [simp]:
  "tr_tunnels (confirm_peer_route env peer k metric t) = tr_tunnels t"
  "tr_tunnels (pr_transport (seen env pkt k n)) = tr_tunnels (pr_transport n)"
  by (simp_all add: confirm_peer_route_def confirm_route_def upsert_peer_info_def seen_def
      update_route_read_time_def Let_def)

lemma control_send_succeeds:
  assumes "wire_fits (pid_bytes (pr_id n)) (pid_bytes dest) payload" and "tr_tunnels (pr_transport n) = []"
    and "rk_protocol k = UDP" and "\<And>d. en_udp_send env d (rk_peer k) = Inr ()"
  shows "fst (send_protocol_to_route env dest k ty payload n) = Done ()"
proof -
  obtain pkt where "packet_build ty (pr_id n) dest (pr_max_ttl n) payload = Inr pkt"
    using assms(1) by (simp add: packet_build_wire)
  with assms(2-4) show ?thesis
    by (simp add: send_protocol_to_route_def on_transport_def send_to_route_def send_raw_to_addr_def
        protocol_is_tcp_def Let_def)
qed

lemma sample_request_handled:
  "handle_transport_packet sample_env (pk_buf sample_request) (sample_key 1) (sample_node lb) =
     (Done (), snd (handle_transport_packet sample_env (pk_buf sample_request) (sample_key 1) (sample_node lb)))"
proof -
  note q = built_packet [OF sample_request_built, simplified, simplified peer_broadcast_def, simplified]
  obtain c where c: "classify_packet (pk_buf sample_request ! 0) = PtRustP2p c" using q(7) by blast
  let ?m = "snd (confirm_direct_and_promote sample_env (seen_peer sample_env sample_request (sample_key 1) (sample_node lb))
      (sample_key 1) (seen sample_env sample_request (sample_key 1) (sample_node lb)))"
  have m: "pr_id ?m = PeerId [0x6d]" "tr_tunnels (pr_transport ?m) = []"
    by (simp_all, simp_all add: seen_def)
  have "wire_fits (pid_bytes (pr_id ?m)) (pid_bytes (PeerId [0x61])) (encode_hello_payload (en_codec sample_env) x)" for x
    unfolding m by (simp add: wire_fits_def encode_hello_payload_def sample_env_def sample_codec_def FIXED_HEADER_LEN_def)
  then have s: "fst (send_protocol_to_route sample_env (PeerId [0x61]) (sample_key 1) ty
      (encode_hello_payload (en_codec sample_env) x) ?m) = Done ()" for ty x
    using m(2) by (rule control_send_succeeds) (simp_all add: sample_key_def route_key_new_def sample_env_def)
  have "handle_transport_packet sample_env (pk_buf sample_request) (sample_key 1) (sample_node lb) =
      on_hello_request sample_env (seen_peer sample_env sample_request (sample_key 1) (sample_node lb)) (PeerId [0x61])
        (sample_key 1) 0 (seen sample_env sample_request (sample_key 1) (sample_node lb))"
    unfolding handle_transport_eval [OF q(1) c]
    by (simp add: handle_packet_seen q is_unspecified_def is_broadcast_def handle_local_def Let_def)
  with s have "fst (handle_transport_packet sample_env (pk_buf sample_request) (sample_key 1) (sample_node lb)) = Done ()"
    by (simp add: on_hello_request_def bind_fst_Done)
  then show ?thesis by (metis prod.collapse)
qed




theorem quic_payload_delivery_witness:
  "\<exists>sent buf m'. relay_hops 3 sent = Some buf
     \<and> handle_transport_packet sample_env buf (sample_key 1) (sample_node MostRecent) = (Done (), m')
     \<and> pr_quic m' = [(PeerId [0x61], [1, 2, 3])]"
proof -
  let ?n = "sample_remote\<lparr>pr_candidates := [(PeerId [0x6d], sample_key 2)]\<rparr>" and ?m = "sample_node MostRecent"
  have "\<exists>pkt. packet_build QuicRelay (PeerId [0x61]) (PeerId [0x6d]) 8 [1, 2, 3] = Inr pkt"
    by (simp add: packet_build_wire wire_fits_def FIXED_HEADER_LEN_def)
  moreover have "fst (route_metric_for (PeerId [0x6d]) (pr_transport sample_remote)) = Inl (IoError NotFound ''route not found'')"
    by (simp add: route_metric_for_def route_for_def get_route_by_id_def sample_remote_def protocol_new_def
        transport_bind_def route_table_new_def)
  moreover have "tr_sender_open (snd (route_metric_for (PeerId [0x6d]) (pr_transport sample_remote)))"
    by (simp add: route_metric_for_def route_for_def case_prod_beta Let_def sample_remote_def protocol_new_def
        transport_bind_def)
  ultimately have "\<exists>n1. try_send_quic_payload (pr_id ?m) [1, 2, 3] ?n = (Done (), n1)"
    by (cases "route_metric_for (PeerId [0x6d]) (pr_transport sample_remote)")
      (auto simp: try_send_quic_payload_def on_transport_def try_send_route_def dm_get_def)
  then obtain n1 where "try_send_quic_payload (pr_id ?m) [1, 2, 3] ?n = (Done (), n1)" by blast
  from quic_payload_delivery [OF this, of 3 sample_env "sample_key 1"] show ?thesis
    by (auto simp: is_unspecified_def QUIC_QUEUE_def)
qed

end
