(* ===== verification/Punch.thy ===== *)
theory Punch
  imports Payload
begin

text \<open>
  \<open>rustp2p-core/src/punch\<close>: punch policies and models, the back-off schedule, port prediction,
  and one punch round of the \<open>Puncher\<close> as the list of sends it makes. Random choices (the
  shuffled port list, the shuffle of the predicted ports, the batch size) and what the socket
  layer answers are arguments.
\<close>

section \<open>Policies\<close>

datatype punch_policy = IPv4Tcp | IPv4Udp | IPv6Tcp | IPv6Udp

type_synonym punch_policy_set = "punch_policy set"
type_synonym punch_model = "punch_policy set list"

definition policy_set_empty :: punch_policy_set where
  "policy_set_empty = {}"

definition policy_set_or :: "punch_policy \<Rightarrow> punch_policy_set \<Rightarrow> punch_policy_set" where
  "policy_set_or p s = insert p s"

definition policy_or :: "punch_policy \<Rightarrow> punch_policy \<Rightarrow> punch_policy_set" where
  "policy_or a b = policy_set_or b (policy_set_or a policy_set_empty)"

definition policy_set_all :: punch_policy_set where
  "policy_set_all = policy_set_or IPv6Udp (policy_set_or IPv6Tcp (policy_or IPv4Tcp IPv4Udp))"

definition policy_set_ipv4 :: punch_policy_set where
  "policy_set_ipv4 = policy_or IPv4Tcp IPv4Udp"

definition policy_set_ipv6 :: punch_policy_set where
  "policy_set_ipv6 = policy_or IPv6Tcp IPv6Udp"

definition policy_set_is_match :: "punch_policy_set \<Rightarrow> punch_policy \<Rightarrow> bool" where
  "policy_set_is_match s p \<longleftrightarrow> p \<in> s"

definition punch_model_all :: punch_model where
  "punch_model_all = [policy_set_all]"

definition punch_model_empty :: punch_model where
  "punch_model_empty = []"

definition punch_model_and :: "punch_model \<Rightarrow> punch_policy_set \<Rightarrow> punch_model" where
  "punch_model_and m s = m @ [s]"

definition policy_sets_and :: "punch_policy_set \<Rightarrow> punch_policy_set \<Rightarrow> punch_model" where
  "policy_sets_and a b = punch_model_and (punch_model_and punch_model_empty a) b"

definition punch_model_is_match :: "punch_model \<Rightarrow> punch_policy \<Rightarrow> bool" where
  "punch_model_is_match m p = (if m = [] then False else list_all (\<lambda>s. policy_set_is_match s p) m)"

text \<open>\<open>to_lowercase\<close> and \<open>trim\<close> on ASCII text.\<close>

definition is_ascii_space :: "char \<Rightarrow> bool" where
  "is_ascii_space c \<longleftrightarrow> (let n = (of_char c :: nat) in n = 32 \<or> 9 \<le> n \<and> n \<le> 13)"

definition trim :: "string \<Rightarrow> string" where
  "trim s = rev (dropWhile is_ascii_space (rev (dropWhile is_ascii_space s)))"

definition punch_policy_from_str :: "string \<Rightarrow> string + punch_policy" where
  "punch_policy_from_str s =
     (let t = trim (ascii_lower s) in
      if t = ''ipv4-tcp'' then Inr IPv4Tcp
      else if t = ''ipv4-udp'' then Inr IPv4Udp
      else if t = ''ipv6-tcp'' then Inr IPv6Tcp
      else if t = ''ipv6-udp'' then Inr IPv6Udp
      else Inl (''not match '' @ [CHR 0x27] @ s @ [CHR 0x27] @ '', enum: ipv4-tcp/ipv4-udp/ipv6-tcp/ipv6-udp''))"

record punch_info =
  pi_model :: punch_model
  pi_peer_nat :: nat_info

definition punch_info_default :: punch_info where
  "punch_info_default = \<lparr>pi_model = punch_model_all, pi_peer_nat = nat_info_default\<rparr>"

section \<open>Port prediction and back-off\<close>

definition port_range :: "u16 \<Rightarrow> u16 \<Rightarrow> u16 list" where
  "port_range a b = map of_nat [unat a..<Suc (unat b)]"

definition symmetric_prediction_candidates :: "nat_info \<Rightarrow> u16 \<Rightarrow> u16 list \<times> u16 list" where
  "symmetric_prediction_candidates info window =
     (let known = sort_dedup (filter (\<lambda>p. p \<noteq> 0) (public_udp_ports info @ stun_mapped_ports info));
          predicted = concat (map (\<lambda>base. port_range (max (saturating_sub base window) 1) (saturating_add base window)) known)
      in (known, sort_dedup predicted))"

record punch_stats =
  ps_batch_count :: u64
  ps_last_time :: u64

definition punch_stats_default :: punch_stats where
  "punch_stats_default = \<lparr>ps_batch_count = 0, ps_last_time = 0\<rparr>"

definition should_punch :: "punch_stats \<Rightarrow> u64 \<Rightarrow> bool" where
  "should_punch stats now =
     (if ps_batch_count stats \<le> 8 then True
      else saturating_sub now (ps_last_time stats) \<ge> min (ps_batch_count stats div 8) 360)"

section \<open>The puncher\<close>

definition MAX_PUNCH_ENTRIES :: nat where "MAX_PUNCH_ENTRIES = 4096"

record nat_query_config =
  nc_stun_servers :: "string list"
  nc_mapping_tcp :: "socket_addr list"
  nc_mapping_udp :: "socket_addr list"
  nc_bind_ipv4 :: "ipv4_addr option"
  nc_bind_ipv6 :: "ipv6_addr option"
  nc_enable_ipv6 :: bool
  nc_local_tcp_port :: u16
  nc_max_assistants :: nat

record puncher =
  pu_ports :: "u16 list"
  pu_cursor :: "(socket_addr, nat) dashmap"
  pu_stats :: "(socket_addr, punch_stats) dashmap"
  pu_config :: nat_query_config

text \<open>\<open>shuffled\<close> is the shuffle of the ports 1 to 65535.\<close>

definition puncher_new :: "u16 list \<Rightarrow> nat_query_config \<Rightarrow> puncher" where
  "puncher_new shuffled cfg = \<lparr>pu_ports = shuffled, pu_cursor = [], pu_stats = [], pu_config = cfg\<rparr>"

text \<open>A send on the main socket of the target's family, or on every socket of that family.\<close>

datatype punch_send = SendMain socket_addr | SendAll socket_addr

fun send_target :: "punch_send \<Rightarrow> socket_addr" where
  "send_target (SendMain a) = a"
| "send_target (SendAll a) = a"

text \<open>Insertion into a bookkeeping map that is cleared when it is full.\<close>

definition bounded_insert :: "socket_addr \<Rightarrow> 'v \<Rightarrow> (socket_addr, 'v) dashmap \<Rightarrow> (socket_addr, 'v) dashmap" where
  "bounded_insert k v m =
     dm_insert k v (if \<not> dm_contains m k \<and> length m \<ge> MAX_PUNCH_ENTRIES then [] else m)"

definition puncher_need_punch :: "u64 \<Rightarrow> puncher \<Rightarrow> punch_info \<Rightarrow> bool" where
  "puncher_need_punch now pu info =
     (case nat_flag (pi_peer_nat info) of
        None \<Rightarrow> False
      | Some i \<Rightarrow> should_punch (case dm_get (pu_stats pu) i of None \<Rightarrow> punch_stats_default | Some s \<Rightarrow> s) now)"

text \<open>
  \<open>punch_symmetric\<close>: the sends and the index of the port at which the budget ran out. The
  counter runs over pairs of a port and an address.
\<close>

fun punch_port :: "u16 \<Rightarrow> ipv4_addr list \<Rightarrow> nat \<Rightarrow> nat \<Rightarrow> punch_send list \<times> nat \<times> bool" where
  "punch_port port [] budget cnt = ([], cnt, False)"
| "punch_port port (ip # ips) budget cnt =
     (if cnt + 1 = budget then ([], cnt + 1, True)
      else (case punch_port port ips budget (cnt + 1) of
          (out, cnt', stop) \<Rightarrow> (SendAll (SockV4 ip port) # out, cnt', stop)))"

fun punch_symmetric :: "u16 list \<Rightarrow> ipv4_addr list \<Rightarrow> nat \<Rightarrow> nat \<Rightarrow> punch_send list \<times> nat" where
  "punch_symmetric [] ips budget cnt = ([], 0)"
| "punch_symmetric (port # ports) ips budget cnt =
     (case punch_port port ips budget cnt of
        (out, cnt', True) \<Rightarrow> (out, 0)
      | (out, cnt', False) \<Rightarrow>
          (case punch_symmetric ports ips budget cnt' of (out', i) \<Rightarrow> (out @ out', Suc i)))"

definition predict_range :: "nat_info \<Rightarrow> u16" where
  "predict_range info = of_nat (min (max (unat (public_port_range info) * 10) 100) (60 * 3 - 1))"

definition cursor_key :: "ipv4_addr list \<Rightarrow> socket_addr" where
  "cursor_key ips = SockV4 (ips ! 0) 0"

text \<open>Phase one: at most sixty of the predicted ports, in the order \<open>predicted\<close> of their shuffle.\<close>

definition punch_predicted :: "u16 list \<Rightarrow> ipv4_addr list \<Rightarrow> punch_send list" where
  "punch_predicted predicted ips =
     (let k = min 60 (length predicted) in
      if k > 0 then fst (punch_symmetric (take k predicted) ips k 0) else [])"

definition scan_start :: "puncher \<Rightarrow> socket_addr \<Rightarrow> nat" where
  "scan_start pu key = (case dm_get (pu_cursor pu) key of None \<Rightarrow> 0 | Some i \<Rightarrow> i)"

text \<open>Phase two: the scan of all ports from the cursor on, with a budget of \<open>max_k2\<close>.\<close>

definition punch_scan :: "nat \<Rightarrow> ipv4_addr list \<Rightarrow> puncher \<Rightarrow> punch_send list \<times> puncher" where
  "punch_scan max_k2 ips pu =
     (let key = cursor_key ips;
          start = scan_start pu key;
          stop = min (start + max_k2) (length (pu_ports pu));
          (out, n) = punch_symmetric (take (stop - start) (drop start (pu_ports pu))) ips max_k2 0;
          i = (if start + n \<ge> length (pu_ports pu) then 0 else start + n)
      in (out, pu\<lparr>pu_cursor := bounded_insert key i (pu_cursor pu)\<rparr>))"

text \<open>
  \<open>punch_udp\<close>. \<open>shuffle\<close> orders the predicted ports. The early return for a symmetric peer without
  public addresses leaves the whole function.
\<close>

definition punch_udp ::
  "(u16 list \<Rightarrow> u16 list) \<Rightarrow> nat \<Rightarrow> nat_info \<Rightarrow> punch_model \<Rightarrow> puncher \<Rightarrow> punch_send list \<times> puncher" where
  "punch_udp shuffle max_k2 info model pu =
     (let allow_v4 = punch_model_is_match model IPv4Udp;
          allow_v6 = punch_model_is_match model IPv6Udp;
          mapped = map SendMain (filter (\<lambda>a. if sa_is_ipv4 a then allow_v4 else allow_v6) (mapping_udp_addr info));
          local = map SendMain (local_ipv4_addrs info);
          v6 = (if allow_v6 then map SendAll (ipv6_udp_addr info) else [])
      in if allow_v4 then
           (case ni_type info of
              Symmetric \<Rightarrow>
                if public_ips info = [] then (mapped @ local, pu)
                else
                  (let predicted = shuffle (snd (symmetric_prediction_candidates info (predict_range info)));
                       (scan, pu') = punch_scan max_k2 (public_ips info) pu
                   in (mapped @ local @ punch_predicted predicted (public_ips info) @ scan @ v6, pu'))
            | Cone \<Rightarrow> (mapped @ local @ map SendAll (public_ipv4_addr info) @ v6, pu))
         else (mapped @ v6, pu))"

text \<open>The TCP connections a round tries: address, TTL option and time-out in milliseconds.\<close>

definition tcp_attempts :: "u8 option \<Rightarrow> nat_info \<Rightarrow> punch_model \<Rightarrow> (socket_addr \<times> u8 option \<times> nat) list" where
  "tcp_attempts ttl info model =
     map (\<lambda>a. (a, ttl, 3000)) (mapping_tcp_addr info)
     @ (if punch_model_is_match model IPv4Tcp then
          (case local_ipv4_tcp info of None \<Rightarrow> [] | Some a \<Rightarrow> [(a, ttl, 100)])
          @ map (\<lambda>a. (a, ttl, 3000)) (public_ipv4_tcp info)
        else [])
     @ (if punch_model_is_match model IPv6Tcp then
          (case ipv6_tcp_addr info of None \<Rightarrow> [] | Some a \<Rightarrow> [(a, ttl, 3000)])
        else [])"

definition count_round :: "u64 \<Rightarrow> socket_addr \<Rightarrow> puncher \<Rightarrow> punch_stats \<times> puncher" where
  "count_round now peer pu =
     (let s = (case dm_get (pu_stats pu) peer of None \<Rightarrow> punch_stats_default | Some s \<Rightarrow> s);
          s' = s\<lparr>ps_batch_count := ps_batch_count s + 1, ps_last_time := now\<rparr>
      in (s', pu\<lparr>pu_stats := bounded_insert peer s' (pu_stats pu)\<rparr>))"

definition punch_peer :: "nat_info \<Rightarrow> socket_addr" where
  "punch_peer info = (case nat_flag info of None \<Rightarrow> SockV4 v4_unspecified 0 | Some a \<Rightarrow> a)"

definition punch_now ::
  "u64 \<Rightarrow> (u16 list \<Rightarrow> u16 list) \<Rightarrow> nat \<Rightarrow> punch_info \<Rightarrow> puncher
     \<Rightarrow> (punch_send list \<times> (socket_addr \<times> u8 option \<times> nat) list) \<times> puncher" where
  "punch_now now shuffle max_k2 info pu =
     (let (s, pu1) = count_round now (punch_peer (pi_peer_nat info)) pu;
          ttl = (if ps_batch_count s < 255 then Some (ucast (ps_batch_count s)) else None);
          (udp, pu2) = punch_udp shuffle max_k2 (pi_peer_nat info) (pi_model info) pu1
      in ((udp, tcp_attempts ttl (pi_peer_nat info) (pi_model info)), pu2))"

definition puncher_punch ::
  "u64 \<Rightarrow> (u16 list \<Rightarrow> u16 list) \<Rightarrow> nat \<Rightarrow> punch_info \<Rightarrow> puncher
     \<Rightarrow> (punch_send list \<times> (socket_addr \<times> u8 option \<times> nat) list) \<times> puncher" where
  "puncher_punch now shuffle max_k2 info pu =
     (if \<not> puncher_need_punch now pu info then (([], []), pu) else punch_now now shuffle max_k2 info pu)"

section \<open>One pass over a port list\<close>

text \<open>The sends of a pass without a budget: every address of every port, in order.\<close>

definition probes :: "ipv4_addr list \<Rightarrow> u16 list \<Rightarrow> punch_send list" where
  "probes ips ports = concat (map (\<lambda>port. map (\<lambda>ip. SendAll (SockV4 ip port)) ips) ports)"

lemma probes_simps [simp]:
  "probes ips [] = []"
  "probes ips (port # ports) = map (\<lambda>ip. SendAll (SockV4 ip port)) ips @ probes ips ports"
  by (simp_all add: probes_def)

lemma length_probes [simp]: "length (probes ips ports) = length ports * length ips"
  by (induction ports) auto

lemma probes_append [simp]: "probes ips (xs @ ys) = probes ips xs @ probes ips ys"
  by (simp add: probes_def)

lemma set_probes: "set (probes ips ports) = {SendAll (SockV4 ip port) |ip port. ip \<in> set ips \<and> port \<in> set ports}"
  by (auto simp: probes_def)

lemma punch_port_eq:
  "cnt < budget \<Longrightarrow> punch_port port ips budget cnt =
     (if cnt + length ips < budget then (map (\<lambda>ip. SendAll (SockV4 ip port)) ips, cnt + length ips, False)
      else (take (budget - 1 - cnt) (map (\<lambda>ip. SendAll (SockV4 ip port)) ips), budget, True))"
proof (induction ips arbitrary: cnt)
  case (Cons ip ips)
  show ?case
  proof (cases "cnt + 1 = budget")
    case False
    then have "budget - 1 - cnt = Suc (budget - 1 - (cnt + 1))" using Cons.prems by simp
    then show ?thesis using False Cons.prems Cons.IH [of "cnt + 1"] by simp
  qed auto
qed simp

lemma div_Suc_step: "0 < n \<Longrightarrow> n \<le> m \<Longrightarrow> Suc ((m - n) div n) = m div (n :: nat)"
  by (simp add: le_div_geq)

lemma punch_symmetric_eq:
  "cnt < budget \<Longrightarrow> punch_symmetric ports ips budget cnt =
     (take (budget - 1 - cnt) (probes ips ports),
      if cnt + length ports * length ips < budget then length ports else (budget - 1 - cnt) div length ips)"
proof (induction ports arbitrary: cnt)
  case (Cons port ports)
  show ?case
  proof (cases "cnt + length ips < budget")
    case True
    then show ?thesis
      using Cons.IH [of "cnt + length ips"] div_Suc_step [of "length ips" "budget - 1 - cnt"]
      by (cases "ips = []") (auto simp: punch_port_eq ac_simps)
  next
    case False
    then show ?thesis using Cons.prems by (simp add: punch_port_eq)
  qed
qed simp

section \<open>The bookkeeping maps\<close>

lemma length_dm_insert:
  "length (dm_insert k v m) = (if dm_contains m k then length m else Suc (length m))"
  unfolding dm_insert_def dm_contains_def dm_get_def by (induction m) (auto split: if_splits)

lemma dm_insert_entries: "set (dm_insert k v m) \<subseteq> insert (k, v) (set m)"
  unfolding dm_insert_def by (induction m) auto

lemma bounded_insert_wf [simp]: "dm_wf m \<Longrightarrow> dm_wf (bounded_insert k v m)"
  by (simp add: bounded_insert_def)

lemma bounded_insert_bound [simp]:
  "length m \<le> MAX_PUNCH_ENTRIES \<Longrightarrow> length (bounded_insert k v m) \<le> MAX_PUNCH_ENTRIES"
  by (auto simp: bounded_insert_def length_dm_insert dm_contains_def MAX_PUNCH_ENTRIES_def)

lemma bounded_insert_get [simp]: "dm_get (bounded_insert k v m) k = Some v"
  by (simp add: bounded_insert_def)

lemma bounded_insert_entries:
  "set (bounded_insert k v m) \<subseteq> insert (k, v) (set m)"
  using dm_insert_entries [of k v m] dm_insert_entries [of k v "[]"] by (auto simp: bounded_insert_def)

text \<open>
  The puncher's invariant: both maps have one entry per key and at most 4096 entries, and every
  cursor is an index into the port list.
\<close>

definition puncher_ok :: "puncher \<Rightarrow> bool" where
  "puncher_ok pu \<longleftrightarrow> dm_wf (pu_cursor pu) \<and> dm_wf (pu_stats pu)
     \<and> length (pu_cursor pu) \<le> MAX_PUNCH_ENTRIES \<and> length (pu_stats pu) \<le> MAX_PUNCH_ENTRIES
     \<and> list_all (\<lambda>(k, i). i < length (pu_ports pu)) (pu_cursor pu)"

lemma puncher_ok_scan_start:
  "puncher_ok pu \<Longrightarrow> pu_ports pu \<noteq> [] \<Longrightarrow> scan_start pu key < length (pu_ports pu)"
  by (auto simp: puncher_ok_def scan_start_def list_all_iff split: option.splits dest!: dm_get_SomeD)

lemma puncher_ok_new: "puncher_ok (puncher_new ports cfg)"
  by (simp add: puncher_ok_def puncher_new_def)

lemma punch_scan_ports [simp]: "pu_ports (snd (punch_scan k ips pu)) = pu_ports pu"
  by (simp add: punch_scan_def Let_def split: prod.splits)

lemma punch_udp_state:
  "snd (punch_udp shuffle k info model pu) =
     (if punch_model_is_match model IPv4Udp \<and> ni_type info = Symmetric \<and> public_ips info \<noteq> []
      then snd (punch_scan k (public_ips info) pu) else pu)"
  by (cases "punch_scan k (public_ips info) pu")
    (simp add: punch_udp_def Let_def split: nat_type.splits)

lemma punch_udp_ports [simp]: "pu_ports (snd (punch_udp shuffle k info model pu)) = pu_ports pu"
  by (simp add: punch_udp_state)

lemma count_round_ports [simp]: "pu_ports (snd (count_round now peer pu)) = pu_ports pu"
  "pu_cursor (snd (count_round now peer pu)) = pu_cursor pu"
  by (simp_all add: count_round_def Let_def)

lemma punch_now_state:
  "snd (punch_now now shuffle k info pu) =
     snd (punch_udp shuffle k (pi_peer_nat info) (pi_model info)
       (snd (count_round now (punch_peer (pi_peer_nat info)) pu)))"
  by (simp add: punch_now_def Let_def case_prod_beta)

lemma puncher_ok_scan:
  assumes "puncher_ok pu" "pu_ports pu \<noteq> []"
  shows "puncher_ok (snd (punch_scan k ips pu))"
  using assms bounded_insert_entries [of "cursor_key ips" _ "pu_cursor pu"]
  by (fastforce simp: puncher_ok_def punch_scan_def Let_def list_all_iff split: prod.splits)

lemma puncher_ok_udp:
  assumes "puncher_ok pu" "pu_ports pu \<noteq> []"
  shows "puncher_ok (snd (punch_udp shuffle k info model pu))"
  using assms by (simp add: punch_udp_state puncher_ok_scan)

lemma puncher_ok_count: "puncher_ok pu \<Longrightarrow> puncher_ok (snd (count_round now peer pu))"
  by (simp add: puncher_ok_def count_round_def Let_def)

lemma punch_now_ports [simp]: "pu_ports (snd (punch_now now shuffle k info pu)) = pu_ports pu"
  by (simp add: punch_now_state)

lemma puncher_ok_now:
  assumes "puncher_ok pu" "pu_ports pu \<noteq> []"
  shows "puncher_ok (snd (punch_now now shuffle k info pu))"
  using assms by (simp add: punch_now_state puncher_ok_udp puncher_ok_count)

text \<open>The states of a puncher: any rounds, by either entry point, from a new one.\<close>

inductive puncher_reachable :: "puncher \<Rightarrow> bool" where
  new: "mset ports = mset (port_range 1 65535) \<Longrightarrow> puncher_reachable (puncher_new ports cfg)"
| now: "puncher_reachable pu \<Longrightarrow> puncher_reachable (snd (punch_now now shuffle k info pu))"
| punch: "puncher_reachable pu \<Longrightarrow> puncher_reachable (snd (puncher_punch now shuffle k info pu))"

lemma puncher_reachable_ports: "puncher_reachable pu \<Longrightarrow> mset (pu_ports pu) = mset (port_range 1 65535)"
  by (induction rule: puncher_reachable.induct) (simp_all add: puncher_new_def puncher_punch_def)

lemma length_port_range [simp]: "length (port_range a b) = Suc (unat b) - unat a"
  by (simp add: port_range_def del: upt_Suc)

lemma puncher_reachable_length: "puncher_reachable pu \<Longrightarrow> length (pu_ports pu) = 65535"
  by (drule puncher_reachable_ports, drule mset_eq_length) simp

lemma puncher_reachable_ok: "puncher_reachable pu \<Longrightarrow> puncher_ok pu"
proof (induction rule: puncher_reachable.induct)
  case (now pu)
  moreover from this have "pu_ports pu \<noteq> []" using puncher_reachable_length by fastforce
  ultimately show ?case by (simp add: puncher_ok_now)
next
  case (punch pu)
  moreover from this have "pu_ports pu \<noteq> []" using puncher_reachable_length by fastforce
  ultimately show ?case by (simp add: puncher_punch_def puncher_ok_now)
qed (simp add: puncher_ok_new)

section \<open>Progress of the global scan\<close>

lemma probes_prefix:
  assumes "n \<le> len" "n * length ips \<le> b"
  shows "set (probes ips (take n xs)) \<subseteq> set (take b (probes ips (take len xs)))"
proof -
  have "take len xs = take n xs @ take (len - n) (drop n xs)"
    using assms(1) by (metis le_add_diff_inverse take_add)
  moreover have "length (take n xs) * length ips \<le> b"
    using assms(2) by (metis length_take le_trans min.cobounded2 mult_le_mono1)
  ultimately show ?thesis by auto
qed

text \<open>
  One scan with a budget for more than \<open>g\<close> ports advances the cursor by at least \<open>g\<close> ports, or
  reaches the end of the list and starts over; the ports it passes are probed.
\<close>

definition scan_len :: "nat \<Rightarrow> nat \<Rightarrow> nat \<Rightarrow> nat" where
  "scan_len k n_ips len = (if len * n_ips < k then len else (k - 1) div n_ips)"

lemma scan_len_budget: "0 < k \<Longrightarrow> scan_len k m len * m \<le> k - 1"
  by (auto simp: scan_len_def)

lemma scan_len_le:
  assumes "0 < k" "0 < m" shows "scan_len k m len \<le> len"
proof (cases "len * m < k")
  case False
  then have "(k - 1) div m \<le> len * m div m" by (intro div_le_mono) simp
  then show ?thesis using assms False by (simp add: scan_len_def)
qed (simp add: scan_len_def)

lemma scan_len_ge:
  assumes "0 < m" "g * m < k" shows "g \<le> scan_len k m len \<or> scan_len k m len = len"
proof -
  have "g * m \<le> k - 1" using assms(2) by simp
  then have "g \<le> (k - 1) div m" using assms(1) by (simp add: less_eq_div_iff_mult_less_eq)
  then show ?thesis by (simp add: scan_len_def)
qed

lemma min_add_diff: "min (a + k) l - a = min k (l - (a :: nat))"
  by linarith

lemma punch_scan_pass:
  assumes "0 < k" and "len = min k (length ports - start)"
  shows "punch_symmetric (take len (drop start ports)) ips k 0 =
    (take (k - 1) (probes ips (take len (drop start ports))), scan_len k (length ips) len)"
  using assms by (simp add: punch_symmetric_eq scan_len_def)

lemma punch_scan_eq:
  assumes "0 < k" and "start = scan_start pu (cursor_key ips)"
    and "len = min k (length (pu_ports pu) - start)" and "n = scan_len k (length ips) len"
  shows "fst (punch_scan k ips pu) = take (k - 1) (probes ips (take len (drop start (pu_ports pu))))"
    and "scan_start (snd (punch_scan k ips pu)) (cursor_key ips) =
           (if length (pu_ports pu) \<le> start + n then 0 else start + n)"
  unfolding punch_scan_def Let_def min_add_diff assms(2,3) [symmetric] punch_scan_pass [OF assms(1,3)]
    assms(4) [symmetric] prod.case fst_conv snd_conv
  by (simp_all add: scan_start_def)

lemma punch_scan_progress:
  assumes "ips \<noteq> []" "g * length ips < k" "start = scan_start pu (cursor_key ips)"
  obtains n where "set (probes ips (take n (drop start (pu_ports pu)))) \<subseteq> set (fst (punch_scan k ips pu))"
    and "g \<le> n \<or> length (pu_ports pu) \<le> start + n"
    and "scan_start (snd (punch_scan k ips pu)) (cursor_key ips) =
           (if length (pu_ports pu) \<le> start + n then 0 else start + n)"
proof -
  define len where "len = min k (length (pu_ports pu) - start)"
  define n where "n = scan_len k (length ips) len"
  have k: "0 < k" and m: "0 < length ips" using assms by simp_all
  note eq = punch_scan_eq [OF k assms(3) len_def n_def]
  have "g \<le> k" using assms(2) m by (cases "length ips") auto
  then have "g \<le> n \<or> length (pu_ports pu) \<le> start + n"
    using scan_len_ge [OF m assms(2), of len] by (auto simp: n_def len_def)
  moreover have "set (probes ips (take n (drop start (pu_ports pu)))) \<subseteq> set (fst (punch_scan k ips pu))"
    unfolding eq n_def by (intro probes_prefix scan_len_le scan_len_budget k m)
  ultimately show ?thesis using that eq(2) by blast
qed

text \<open>The UDP sends of consecutive rounds to one peer; a round is its time, its shuffle and its budget.\<close>

type_synonym punch_round = "u64 \<times> (u16 list \<Rightarrow> u16 list) \<times> nat"

fun punch_rounds :: "punch_round list \<Rightarrow> punch_info \<Rightarrow> puncher \<Rightarrow> punch_send list" where
  "punch_rounds [] info pu = []"
| "punch_rounds ((now, shuffle, k) # rs) info pu =
     (case punch_now now shuffle k info pu of ((udp, tcp), pu') \<Rightarrow> udp @ punch_rounds rs info pu')"

lemma punch_scan_cong:
  assumes "pu_ports pu = pu_ports pu'" "pu_cursor pu = pu_cursor pu'"
  shows "fst (punch_scan k ips pu) = fst (punch_scan k ips pu')"
    and "scan_start (snd (punch_scan k ips pu)) key = scan_start (snd (punch_scan k ips pu')) key"
  using assms by (simp_all add: punch_scan_def scan_start_def Let_def case_prod_beta)

text \<open>A peer behind a symmetric NAT whose addresses are known and may be punched over UDP.\<close>

definition scannable :: "punch_info \<Rightarrow> bool" where
  "scannable info \<longleftrightarrow> punch_model_is_match (pi_model info) IPv4Udp
     \<and> ni_type (pi_peer_nat info) = Symmetric \<and> public_ips (pi_peer_nat info) \<noteq> []"

lemma punch_now_scans:
  assumes "scannable info"
  defines "ips \<equiv> public_ips (pi_peer_nat info)"
  shows "set (fst (punch_scan k ips pu)) \<subseteq> set (fst (fst (punch_now now shuffle k info pu)))"
    and "scan_start (snd (punch_now now shuffle k info pu)) key = scan_start (snd (punch_scan k ips pu)) key"
proof -
  define pu1 where "pu1 = snd (count_round now (punch_peer (pi_peer_nat info)) pu)"
  note same = punch_scan_cong [of pu1 pu k ips, unfolded pu1_def, simplified]
  show "scan_start (snd (punch_now now shuffle k info pu)) key = scan_start (snd (punch_scan k ips pu)) key"
    using assms same by (simp add: punch_now_state punch_udp_state scannable_def)
  have "fst (fst (punch_now now shuffle k info pu)) =
      fst (punch_udp shuffle k (pi_peer_nat info) (pi_model info) pu1)"
    by (simp add: punch_now_def Let_def case_prod_beta pu1_def)
  moreover have "set (fst (punch_scan k ips pu1))
      \<subseteq> set (fst (punch_udp shuffle k (pi_peer_nat info) (pi_model info) pu1))"
    using assms by (auto simp: punch_udp_def Let_def scannable_def case_prod_beta)
  ultimately show "set (fst (punch_scan k ips pu)) \<subseteq> set (fst (fst (punch_now now shuffle k info pu)))"
    using same by (simp add: pu1_def)
qed

lemma punch_rounds_cover:
  assumes "scannable info" and "ips = public_ips (pi_peer_nat info)"
  shows "\<forall>(_, _, k) \<in> set rs. g * length ips < k \<Longrightarrow> c = scan_start pu (cursor_key ips) \<Longrightarrow>
    length (pu_ports pu) \<le> c + g * length rs \<Longrightarrow>
    set (probes ips (drop c (pu_ports pu))) \<subseteq> set (punch_rounds rs info pu)"
proof (induction rs arbitrary: c pu)
  case (Cons r rs)
  obtain now shuffle k where r: "r = (now, shuffle, k)" by (cases r)
  define pu' where "pu' = snd (punch_now now shuffle k info pu)"
  have "ips \<noteq> []" "g * length ips < k" using assms Cons.prems r by (auto simp: scannable_def)
  from punch_scan_progress [OF this Cons.prems(2)] obtain n where
    n: "set (probes ips (take n (drop c (pu_ports pu)))) \<subseteq> set (fst (punch_scan k ips pu))"
      "g \<le> n \<or> length (pu_ports pu) \<le> c + n"
      "scan_start (snd (punch_scan k ips pu)) (cursor_key ips) =
         (if length (pu_ports pu) \<le> c + n then 0 else c + n)" .
  have now: "set (fst (punch_scan k ips pu)) \<subseteq> set (fst (fst (punch_now now shuffle k info pu)))"
    "scan_start pu' (cursor_key ips) = scan_start (snd (punch_scan k ips pu)) (cursor_key ips)"
    using punch_now_scans [OF assms(1)] unfolding assms(2) pu'_def by blast+
  have rounds: "set (punch_rounds (r # rs) info pu) =
      set (fst (fst (punch_now now shuffle k info pu))) \<union> set (punch_rounds rs info pu')"
    by (simp add: r pu'_def case_prod_beta)
  have split: "drop c (pu_ports pu) = take n (drop c (pu_ports pu)) @ drop (c + n) (pu_ports pu)"
    by (metis add.commute append_take_drop_id drop_drop)
  show ?case
  proof (cases "length (pu_ports pu) \<le> c + n")
    case False
    then have "set (probes ips (drop (c + n) (pu_ports pu'))) \<subseteq> set (punch_rounds rs info pu')"
      using n now Cons.prems by (intro Cons.IH) (auto simp: pu'_def)
    then show ?thesis using n(1) now(1) by (subst split) (auto simp: rounds pu'_def)
  next
    case True
    then show ?thesis using n(1) now(1) by (subst split) (auto simp: rounds)
  qed
qed simp

section \<open>Which addresses a round uses\<close>

lemma punch_port_subset: "set (fst (punch_port port ips budget cnt)) \<subseteq> set (probes ips [port])"
  by (induction port ips budget cnt rule: punch_port.induct) (auto split: prod.splits)

lemma punch_symmetric_subset: "set (fst (punch_symmetric ports ips budget cnt)) \<subseteq> set (probes ips ports)"
proof (induction ports ips budget cnt rule: punch_symmetric.induct)
  case (2 port ports ips budget cnt)
  then show ?case using punch_port_subset [of port ips budget cnt]
    by (fastforce split: prod.splits bool.splits)
qed simp

lemma probes_ipv4: "s \<in> set (probes ips ports) \<Longrightarrow> sa_is_ipv4 (send_target s)"
  by (auto simp: set_probes)

lemma punch_symmetric_ipv4: "s \<in> set (fst (punch_symmetric ports ips budget cnt)) \<Longrightarrow> sa_is_ipv4 (send_target s)"
  using punch_symmetric_subset probes_ipv4 by blast

lemma punch_scan_ipv4: "s \<in> set (fst (punch_scan k ips pu)) \<Longrightarrow> sa_is_ipv4 (send_target s)"
  by (auto simp: punch_scan_def Let_def case_prod_beta dest!: punch_symmetric_ipv4)

lemma punch_predicted_ipv4: "s \<in> set (punch_predicted ports ips) \<Longrightarrow> sa_is_ipv4 (send_target s)"
  by (auto simp: punch_predicted_def Let_def split: if_splits dest!: punch_symmetric_ipv4)

lemma derived_addr_family:
  "a \<in> set (local_ipv4_addrs info) \<Longrightarrow> sa_is_ipv4 a"
  "a \<in> set (public_ipv4_addr info) \<Longrightarrow> sa_is_ipv4 a"
  "a \<in> set (ipv6_udp_addr info) \<Longrightarrow> \<not> sa_is_ipv4 a"
  "local_ipv4_tcp info = Some a \<Longrightarrow> sa_is_ipv4 a"
  "a \<in> set (public_ipv4_tcp info) \<Longrightarrow> sa_is_ipv4 a"
  "ipv6_tcp_addr info = Some a \<Longrightarrow> \<not> sa_is_ipv4 a"
  by (auto simp: local_ipv4_addrs_def public_ipv4_addr_def ipv6_udp_addr_def local_ipv4_tcp_def
      public_ipv4_tcp_def ipv6_tcp_addr_def split: if_splits option.splits)

lemma punch_udp_policy:
  assumes "s \<in> set (fst (punch_udp shuffle k info model pu))"
  shows "punch_model_is_match model (if sa_is_ipv4 (send_target s) then IPv4Udp else IPv6Udp)"
proof (cases "punch_model_is_match model IPv4Udp")
  case False
  then show ?thesis using assms derived_addr_family
    by (auto simp: punch_udp_def Let_def split: if_splits)
next
  case True
  have "sa_is_ipv4 (send_target s) \<or> punch_model_is_match model IPv6Udp"
    using assms True derived_addr_family(1,2) punch_scan_ipv4 [of s k "public_ips info" pu] punch_predicted_ipv4
    by (auto simp: punch_udp_def Let_def case_prod_beta split: if_splits nat_type.splits)
  then show ?thesis using True by auto
qed

lemma fst_attempts:
  "fst ` set (map (\<lambda>a. (a, t, ms)) xs) = set xs"
  "fst ` set (case y of None \<Rightarrow> [] | Some a \<Rightarrow> [(a, t, ms)]) = set_option y"
  "fst ` set (if b then zs else []) = (if b then fst ` set zs else {})"
  by (auto simp: image_image split: option.splits)

lemma tcp_attempts_addrs:
  "fst ` set (tcp_attempts ttl info model) =
     set (mapping_tcp_addr info)
     \<union> (if punch_model_is_match model IPv4Tcp then set_option (local_ipv4_tcp info) \<union> set (public_ipv4_tcp info) else {})
     \<union> (if punch_model_is_match model IPv6Tcp then set_option (ipv6_tcp_addr info) else {})"
  by (simp only: tcp_attempts_def set_append image_Un fst_attempts Un_assoc)

lemma tcp_attempts_policy:
  assumes "(a, ttl', ms) \<in> set (tcp_attempts ttl info model)"
  shows "a \<in> set (mapping_tcp_addr info)
    \<or> punch_model_is_match model (if sa_is_ipv4 a then IPv4Tcp else IPv6Tcp)"
proof -
  have "a \<in> fst ` set (tcp_attempts ttl info model)" using assms by force
  then show ?thesis unfolding tcp_attempts_addrs
    by (auto simp: derived_addr_family(4-6) split: if_splits)
qed

section \<open>Prediction windows and back-off\<close>

lemma set_port_range: "set (port_range a b) = {p. a \<le> p \<and> p \<le> b}"
proof (intro set_eqI iffI)
  fix p assume "p \<in> {p. a \<le> p \<and> p \<le> b}"
  then have "unat p \<in> {unat a..<Suc (unat b)}" by (simp add: word_le_nat_alt)
  then show "p \<in> set (port_range a b)"
    unfolding port_range_def set_map set_upt by (intro image_eqI [of _ _ "unat p"]) simp_all
next
  fix p assume "p \<in> set (port_range a b)"
  then obtain i where "p = of_nat i" "unat a \<le> i" "i \<le> unat b" by (auto simp: port_range_def)
  moreover from this have "i < 65536" using unat_bounds(2) [of b] by linarith
  ultimately show "p \<in> {p. a \<le> p \<and> p \<le> b}"
    by (simp add: word_le_nat_alt unat_of_nat)
qed

lemma in_window_iff:
  "(max (saturating_sub base w) 1 \<le> p \<and> p \<le> saturating_add base w)
     \<longleftrightarrow> p \<noteq> 0 \<and> \<bar>int (unat p) - int (unat base)\<bar> \<le> int (unat (w :: u16))"
proof -
  have nat: "max (a - c) 1 \<le> n \<and> n \<le> min (a + c) 65535 \<longleftrightarrow> n \<noteq> 0 \<and> \<bar>int n - int a\<bar> \<le> int c"
    if "n < 65536" for a c n :: nat
    using that by (auto simp: min_def max_def)
  have "unat (max (saturating_sub base w) 1) = max (unat base - unat w) 1"
    by (simp add: max_def word_le_nat_alt unat_saturating_sub)
  then show ?thesis
    using nat [of "unat p" "unat base" "unat w"]
    by (simp add: word_le_nat_alt unat_saturating_add unat_eq_zero del: max.bounded_iff min.bounded_iff of_nat_unat)
qed

text \<open>
  Port prediction for a symmetric NAT: the known ports are the non-zero ports observed or
  learned by STUN, and the candidates are exactly the non-zero ports at most \<open>window\<close> away from a
  known one; both lists are sorted and free of duplicates, at the ends of the port space too.
\<close>

theorem prediction_candidates_spec:
  "case symmetric_prediction_candidates info window of (known, predicted) \<Rightarrow>
     sorted known \<and> distinct known \<and> sorted predicted \<and> distinct predicted
     \<and> set known = (set (public_udp_ports info) \<union> set (stun_mapped_ports info)) - {0}
     \<and> set predicted =
         {p. p \<noteq> 0 \<and> (\<exists>base \<in> set known. \<bar>int (unat p) - int (unat base)\<bar> \<le> int (unat window))}"
  unfolding symmetric_prediction_candidates_def Let_def prod.case
  by (auto simp: set_port_range in_window_iff simp del: of_nat_unat max.bounded_iff)

text \<open>
  C29: in every state a puncher reaches, the two bookkeeping maps hold one entry per address and
  at most 4096 of them, the ports are a permutation of 1 to 65535, and the slice of the global
  scan lies within the port list, so that taking it cannot panic and it is never empty.
\<close>

theorem puncher_invariant:
  assumes "puncher_reachable pu"
  shows "puncher_ok pu \<and> mset (pu_ports pu) = mset (port_range 1 65535)
    \<and> scan_start pu key < min (scan_start pu key + Suc k) (length (pu_ports pu))"
proof -
  have "length (pu_ports pu) = 65535" by (rule puncher_reachable_length [OF assms])
  moreover from this have "pu_ports pu \<noteq> []" by (cases "pu_ports pu") simp_all
  ultimately show ?thesis
    using puncher_reachable_ports [OF assms] puncher_reachable_ok [OF assms]
      puncher_ok_scan_start [of pu key] by simp
qed

definition example_puncher :: puncher where
  "example_puncher = puncher_new (port_range 1 65535)
     \<lparr>nc_stun_servers = [], nc_mapping_tcp = [], nc_mapping_udp = [], nc_bind_ipv4 = None,
      nc_bind_ipv6 = None, nc_enable_ipv6 = True, nc_local_tcp_port = 0, nc_max_assistants = 0\<rparr>"

lemma example_puncher_reachable: "puncher_reachable example_puncher"
  unfolding example_puncher_def by (rule puncher_reachable.new) simp

lemma example_puncher_start: "scan_start example_puncher key = 0"
  by (simp add: example_puncher_def puncher_new_def scan_start_def)

theorem puncher_invariant_witness:
  "puncher_ok example_puncher \<and> mset (pu_ports example_puncher) = mset (port_range 1 65535)
    \<and> scan_start example_puncher (SockV4 v4_unspecified 0)
        < min (scan_start example_puncher (SockV4 v4_unspecified 0) + Suc 1199) (length (pu_ports example_puncher))"
  by (rule puncher_invariant [OF example_puncher_reachable])

text \<open>
  C28: the global scan reaches every port: rounds to a symmetric peer, whose budgets each allow
  more than \<open>g\<close> ports on all its public addresses, probe every non-zero port of every public
  address once there are enough of them for the 65535 ports at \<open>g\<close> ports a round.
\<close>

theorem global_scan_complete:
  assumes "puncher_reachable pu" "scannable info" "ips = public_ips (pi_peer_nat info)"
    and "scan_start pu (cursor_key ips) = 0"
    and "\<forall>(now, shuffle, k) \<in> set rs. g * length ips < k" and "65535 \<le> g * length rs"
    and "ip \<in> set ips" "port \<noteq> 0"
  shows "SendAll (SockV4 ip port) \<in> set (punch_rounds rs info pu)"
proof -
  have "set (pu_ports pu) = set (port_range 1 65535)"
    using puncher_reachable_ports [OF assms(1)] by (rule mset_eq_setD)
  then have "port \<in> set (pu_ports pu)"
    using assms(8) less_Suc_eq_le [of "unat port" 65535] by (simp add: set_port_range word_le_nat_alt unat_gt_0 Suc_le_eq)
  moreover have "set (probes ips (drop 0 (pu_ports pu))) \<subseteq> set (punch_rounds rs info pu)"
    using assms(4-6) puncher_reachable_length [OF assms(1)]
    by (intro punch_rounds_cover [OF assms(2,3)]) (auto simp: case_prod_beta)
  ultimately show ?thesis using assms(7) by (auto simp: set_probes)
qed

definition example_peer :: punch_info where
  "example_peer =
     \<lparr>pi_model = punch_model_all,
      pi_peer_nat = nat_info_default\<lparr>ni_type := Symmetric, public_ips := [Ipv4Addr 203 0 113 7]\<rparr>\<rparr>"

lemma policy_set_all_match [simp]: "punch_model_is_match punch_model_all p"
  by (cases p) (simp_all add: punch_model_is_match_def punch_model_all_def policy_set_is_match_def
      policy_set_all_def policy_or_def policy_set_or_def)

theorem global_scan_complete_witness:
  "SendAll (SockV4 (Ipv4Addr 203 0 113 7) 40000)
     \<in> set (punch_rounds (replicate 55 (0, id, 1200)) example_peer example_puncher)"
  by (rule global_scan_complete [OF example_puncher_reachable, where g = 1199 and ips = "[Ipv4Addr 203 0 113 7]"])
    (simp_all add: scannable_def example_peer_def nat_info_default_def example_puncher_start)

text \<open>
  A round keeps to the punch model: a UDP probe to an IPv4 address needs the IPv4 UDP policy
  and one to an IPv6 address the IPv6 UDP policy, mapped addresses included; a TCP attempt needs
  the TCP policy of its family, except that manually mapped TCP addresses are always tried.
\<close>

theorem punch_model_respected:
  assumes "punch_now now shuffle k info pu = ((udp, tcp), pu')"
  shows "(\<forall>s \<in> set udp. punch_model_is_match (pi_model info)
            (if sa_is_ipv4 (send_target s) then IPv4Udp else IPv6Udp))
    \<and> (\<forall>(a, ttl, ms) \<in> set tcp. a \<in> set (mapping_tcp_addr (pi_peer_nat info))
         \<or> punch_model_is_match (pi_model info) (if sa_is_ipv4 a then IPv4Tcp else IPv6Tcp))
    \<and> set (mapping_tcp_addr (pi_peer_nat info)) \<subseteq> fst ` set tcp"
proof -
  from assms obtain pu1 ttl where
    "udp = fst (punch_udp shuffle k (pi_peer_nat info) (pi_model info) pu1)"
    and tcp: "tcp = tcp_attempts ttl (pi_peer_nat info) (pi_model info)"
    by (auto simp: punch_now_def Let_def case_prod_beta)
  then have "\<forall>s \<in> set udp. punch_model_is_match (pi_model info)
      (if sa_is_ipv4 (send_target s) then IPv4Udp else IPv6Udp)"
    using punch_udp_policy by blast
  moreover have "\<forall>(a, ttl, ms) \<in> set tcp. a \<in> set (mapping_tcp_addr (pi_peer_nat info))
      \<or> punch_model_is_match (pi_model info) (if sa_is_ipv4 a then IPv4Tcp else IPv6Tcp)"
    unfolding tcp using tcp_attempts_policy by blast
  moreover have "set (mapping_tcp_addr (pi_peer_nat info)) \<subseteq> fst ` set tcp"
    unfolding tcp tcp_attempts_addrs by blast
  ultimately show ?thesis by blast
qed

definition mapped_peer :: punch_info where
  "mapped_peer =
     \<lparr>pi_model = punch_model_empty,
      pi_peer_nat = nat_info_default\<lparr>mapping_tcp_addr := [SockV4 (Ipv4Addr 203 0 113 7) 80],
        mapping_udp_addr := [SockV4 (Ipv4Addr 203 0 113 7) 80]\<rparr>\<rparr>"

lemma mapped_peer_round:
  "punch_now 0 id 1200 mapped_peer (puncher_new [] cfg) =
     (([], [(SockV4 (Ipv4Addr 203 0 113 7) 80, Some 1, 3000)]),
      puncher_new [] cfg\<lparr>pu_stats := [(SockV4 v4_unspecified 0, \<lparr>ps_batch_count = 1, ps_last_time = 0\<rparr>)]\<rparr>)"
  by (simp add: punch_now_def count_round_def mapped_peer_def nat_info_default_def punch_peer_def
      nat_flag_def public_ipv4_addr_def public_ipv4_tcp_def local_ipv4_addrs_def local_ipv4_tcp_def
      v4_unusable_def v4_is_unspecified_def puncher_new_def bounded_insert_def dm_contains_def
      dm_insert_def punch_stats_default_def punch_udp_def tcp_attempts_def punch_model_is_match_def
      punch_model_empty_def MAX_PUNCH_ENTRIES_def Let_def)

theorem punch_model_respected_witness:
  "set (mapping_tcp_addr (pi_peer_nat mapped_peer)) \<subseteq> fst ` {(SockV4 (Ipv4Addr 203 0 113 7) 80, Some (1::u8), 3000::nat)}
   \<and> \<not> punch_model_is_match (pi_model mapped_peer) IPv4Tcp"
  using punch_model_respected [OF mapped_peer_round]
  by (simp add: mapped_peer_def punch_model_is_match_def punch_model_empty_def)

text \<open>
  A symmetric peer whose public IPv4 address is not known yet gets no IPv6 probe from a round
  that may use both families, although the same round without the IPv4 policy, or to a cone peer,
  probes every known IPv6 address.
\<close>

theorem symmetric_without_public_ip_skips_ipv6:
  assumes "ni_type info = Symmetric" "public_ips info = []"
    and "punch_model_is_match model IPv4Udp" "punch_model_is_match model IPv6Udp"
    and "\<not> punch_model_is_match model' IPv4Udp" "punch_model_is_match model' IPv6Udp"
  shows "SendAll a \<notin> set (fst (punch_udp shuffle k info model pu))
    \<and> SendAll ` set (ipv6_udp_addr info) \<subseteq> set (fst (punch_udp shuffle k info model' pu))
    \<and> SendAll ` set (ipv6_udp_addr info)
        \<subseteq> set (fst (punch_udp shuffle k (info\<lparr>ni_type := Cone\<rparr>) model pu))"
proof -
  have "ipv6_udp_addr (info\<lparr>ni_type := Cone\<rparr>) = ipv6_udp_addr info"
    by (simp add: ipv6_udp_addr_def split: option.split)
  then show ?thesis using assms by (auto simp: punch_udp_def Let_def)
qed

definition unmapped_peer :: nat_info where
  "unmapped_peer = nat_info_default\<lparr>ni_type := Symmetric,
     ni_ipv6 := Some (Ipv6Addr 0x2001 0xdb9 0 0 0 0 0 1), local_udp_ports := [9000]\<rparr>"

theorem symmetric_without_public_ip_skips_ipv6_witness:
  "SendAll (SockV6 (Ipv6Addr 0x2001 0xdb9 0 0 0 0 0 1) 9000 0 0)
       \<notin> set (fst (punch_udp id 1200 unmapped_peer punch_model_all example_puncher))
   \<and> SendAll ` set (ipv6_udp_addr unmapped_peer)
       \<subseteq> set (fst (punch_udp id 1200 unmapped_peer [policy_set_ipv6] example_puncher))
   \<and> SendAll ` set (ipv6_udp_addr unmapped_peer)
       \<subseteq> set (fst (punch_udp id 1200 (unmapped_peer\<lparr>ni_type := Cone\<rparr>) punch_model_all example_puncher))
   \<and> ipv6_udp_addr unmapped_peer = [SockV6 (Ipv6Addr 0x2001 0xdb9 0 0 0 0 0 1) 9000 0 0]"
proof -
  have "ipv6_udp_addr unmapped_peer = [SockV6 (Ipv6Addr 0x2001 0xdb9 0 0 0 0 0 1) 9000 0 0]"
    by code_simp
  then show ?thesis
    using symmetric_without_public_ip_skips_ipv6 [of unmapped_peer punch_model_all "[policy_set_ipv6]"]
    by (simp add: unmapped_peer_def nat_info_default_def punch_model_is_match_def [of "[_]"]
        policy_set_is_match_def policy_set_ipv6_def policy_or_def policy_set_or_def policy_set_empty_def)
qed

lemma should_punch_iff:
  "should_punch s now \<longleftrightarrow> unat (ps_batch_count s) \<le> 8
     \<or> unat (ps_last_time s) + min (unat (ps_batch_count s) div 8) 360 \<le> unat now"
proof -
  have "n \<le> 8 \<or> min (n div 8) 360 \<le> a - b \<longleftrightarrow> n \<le> 8 \<or> b + min (n div 8) 360 \<le> a" for n a b :: nat
    by (auto simp: min_def)
  then show ?thesis
    by (auto simp: should_punch_def word_le_nat_alt unat_saturating_sub min_def unat_div)
qed

lemma punch_scan_stats [simp]: "pu_stats (snd (punch_scan k ips pu)) = pu_stats pu"
  by (simp add: punch_scan_def Let_def case_prod_beta)

lemma punch_udp_stats [simp]: "pu_stats (snd (punch_udp shuffle k info model pu)) = pu_stats pu"
  by (simp add: punch_udp_state)

text \<open>
  The back-off: a peer with a recorded history is punched again exactly when it has had at
  most eight rounds or the last one is an eighth of their number in seconds ago, six minutes at
  most; otherwise nothing is sent and nothing changes. A round counts itself and records its time.
\<close>

theorem punch_backoff:
  assumes "nat_flag (pi_peer_nat info) = Some peer" "dm_get (pu_stats pu) peer = Some s"
  shows "puncher_punch now shuffle k info pu =
      (if unat (ps_batch_count s) \<le> 8
          \<or> unat (ps_last_time s) + min (unat (ps_batch_count s) div 8) 360 \<le> unat now
       then punch_now now shuffle k info pu else (([], []), pu))
    \<and> dm_get (pu_stats (snd (punch_now now shuffle k info pu))) peer =
        Some \<lparr>ps_batch_count = ps_batch_count s + 1, ps_last_time = now\<rparr>"
  using assms
  by (simp add: puncher_punch_def puncher_need_punch_def should_punch_iff punch_now_state
      punch_peer_def count_round_def Let_def)

definition busy_peer :: punch_info where
  "busy_peer = punch_info_default\<lparr>pi_peer_nat :=
     nat_info_default\<lparr>public_ips := [Ipv4Addr 203 0 113 7], public_udp_ports := [5000]\<rparr>\<rparr>"

definition busy_puncher :: puncher where
  "busy_puncher = example_puncher\<lparr>pu_stats :=
     [(SockV4 (Ipv4Addr 203 0 113 7) 5000, \<lparr>ps_batch_count = 16, ps_last_time = 100\<rparr>)]\<rparr>"

theorem punch_backoff_witness:
  "puncher_punch 101 id 1200 busy_peer busy_puncher = (([], []), busy_puncher)
   \<and> puncher_punch 102 id 1200 busy_peer busy_puncher = punch_now 102 id 1200 busy_peer busy_puncher
   \<and> dm_get (pu_stats (snd (punch_now 102 id 1200 busy_peer busy_puncher)))
       (SockV4 (Ipv4Addr 203 0 113 7) 5000) = Some \<lparr>ps_batch_count = 17, ps_last_time = 102\<rparr>"
proof -
  have "nat_flag (pi_peer_nat busy_peer) = Some (SockV4 (Ipv4Addr 203 0 113 7) 5000)"
    by code_simp
  moreover have "dm_get (pu_stats busy_puncher) (SockV4 (Ipv4Addr 203 0 113 7) 5000) =
      Some \<lparr>ps_batch_count = 16, ps_last_time = 100\<rparr>"
    by (simp add: busy_puncher_def dm_get_def)
  ultimately show ?thesis
    using punch_backoff [of busy_peer _ busy_puncher] by fastforce
qed

end
