(* ===== verification/Stun.thy ===== *)
theory Stun
  imports Punch
begin

text \<open>
  \<open>rustp2p-core/src/stun\<close>: the STUN client and the detection of the NAT type from it, and the
  assembly of a node's NAT description in \<open>Puncher::nat_info_with_servers\<close>. The message format
  (crate \<open>stun_format\<close>), name resolution, binding and what the sockets answer are arguments.
  A \<open>HashSet\<close> is a list without duplicates; its order stands for the iteration order.
\<close>

section \<open>Messages\<close>

text \<open>The attributes the code looks at, as \<open>stun_format\<close> delivers them.\<close>

datatype stun_sock = StunV4 u8 u8 u8 u8 u16 | StunV6 ipv6_addr u16

datatype stun_attr =
    MappedAddress stun_sock | ChangedAddress stun_sock | XorMappedAddress stun_sock | OtherAttr

fun stun_addr :: "stun_sock \<Rightarrow> socket_addr" where
  "stun_addr (StunV4 a b c d port) = SockV4 (Ipv4Addr a b c d) port"
| "stun_addr (StunV6 ip port) = SockV6 ip port 0 0"

definition is_stun_response :: "bytes \<Rightarrow> bool" where
  "is_stun_response buf \<longleftrightarrow> buf \<noteq> [] \<and> buf ! 0 = 0x01"

definition TAG :: "128 word" where
  "TAG = push_bit 64 1827549368"

text \<open>The transaction id of a request with the random number \<open>r\<close>.\<close>

definition stun_request_tid :: "u64 \<Rightarrow> 128 word" where
  "stun_request_tid r = ucast r OR TAG"

fun first_mapped :: "stun_attr list \<Rightarrow> socket_addr option" where
  "first_mapped [] = None"
| "first_mapped (MappedAddress a # xs) = Some (stun_addr a)"
| "first_mapped (XorMappedAddress a # xs) = Some (stun_addr a)"
| "first_mapped (_ # xs) = first_mapped xs"

definition recv_stun_response ::
  "(bytes \<Rightarrow> (128 word) option) \<Rightarrow> (bytes \<Rightarrow> stun_attr list) \<Rightarrow> bytes \<Rightarrow> socket_addr option" where
  "recv_stun_response tid_of attrs_of buf =
     (case tid_of buf of
        Some tid \<Rightarrow> if tid AND TAG \<noteq> TAG then None else first_mapped (attrs_of buf)
      | None \<Rightarrow> first_mapped (attrs_of buf))"

section \<open>One exchange with a server\<close>

text \<open>
  The attribute loop: the first mapped address, plain or xored, and the first changed address; it
  stops as soon as it has both.
\<close>

fun stun_attrs ::
  "stun_attr list \<Rightarrow> socket_addr option \<Rightarrow> socket_addr option \<Rightarrow> socket_addr option \<times> socket_addr option" where
  "stun_attrs [] m c = (m, c)"
| "stun_attrs (x # xs) m c =
     (let (m', c') = (case x of
          MappedAddress a \<Rightarrow> (if m = None then Some (stun_addr a) else m, c)
        | ChangedAddress a \<Rightarrow> (m, if c = None then Some (stun_addr a) else c)
        | XorMappedAddress a \<Rightarrow> (if m = None then Some (stun_addr a) else m, c)
        | OtherAttr \<Rightarrow> (m, c))
      in if m' \<noteq> None \<and> c' \<noteq> None then (m', c') else stun_attrs xs m' c')"

text \<open>What one attempt meets: a failing send, a failing receive, three silent seconds, a datagram.\<close>

datatype stun_try = SendFails io_error | RecvFails io_error | RecvTimeout | Reply bytes

fun test_nat_loop ::
  "(bytes \<Rightarrow> stun_attr list) \<Rightarrow> stun_try list \<Rightarrow> (socket_addr \<times> socket_addr option) io_result" where
  "test_nat_loop attrs_of [] = Inl (IoError Other ''stun response err'')"
| "test_nat_loop attrs_of (t # ts) =
     (case t of
        SendFails e \<Rightarrow> Inl e
      | RecvFails e \<Rightarrow> Inl e
      | RecvTimeout \<Rightarrow> test_nat_loop attrs_of ts
      | Reply buf \<Rightarrow>
          (case stun_attrs (attrs_of buf) None None of
             (Some a, c) \<Rightarrow> Inr (a, c)
           | (None, c) \<Rightarrow> test_nat_loop attrs_of ts))"

text \<open>\<open>test_nat_\<close>: two attempts.\<close>

definition test_nat_once ::
  "(bytes \<Rightarrow> stun_attr list) \<Rightarrow> stun_try \<times> stun_try \<Rightarrow> (socket_addr \<times> socket_addr option) io_result" where
  "test_nat_once attrs_of tries = test_nat_loop attrs_of [fst tries, snd tries]"

record stun_exchange =
  sx_connect :: "unit io_result"
  sx_first :: "stun_try \<times> stun_try"
  sx_reconnect :: "socket_addr \<Rightarrow> bool"
  sx_second :: "stun_try \<times> stun_try"

definition test_nat :: "(bytes \<Rightarrow> stun_attr list) \<Rightarrow> stun_exchange \<Rightarrow> socket_addr list io_result" where
  "test_nat attrs_of sx =
     and_then (sx_connect sx) (\<lambda>_.
     and_then (test_nat_once attrs_of (sx_first sx)) (\<lambda>(mapped1, changed1).
       Inr (case changed1 of
          None \<Rightarrow> [mapped1]
        | Some changed \<Rightarrow>
            if sx_reconnect sx changed then
              (case test_nat_once attrs_of (sx_second sx) of
                 Inr (mapped2, _) \<Rightarrow> push_new mapped2 [mapped1]
               | Inl _ \<Rightarrow> [mapped1])
            else [mapped1])))"

section \<open>Detection\<close>

definition mapped_port_range :: "socket_addr list \<Rightarrow> u16" where
  "mapped_port_range addrs =
     (let ports = map sa_port addrs;
          lo = (if ports = [] then 0 else Min (set ports));
          hi = (if ports = [] then 0 else Max (set ports))
      in saturating_sub hi lo)"

definition mapped_nat_type :: "socket_addr list \<Rightarrow> socket_addr list \<Rightarrow> nat_type" where
  "mapped_nat_type v4s v6s = (if length v4s > 1 \<or> length v6s > 1 then Symmetric else Cone)"

text \<open>
  The system below the client: name resolution, \<open>bind_udp\<close>, the registration of the bound socket
  with the runtime, the exchange a server address would have, and the parser of \<open>stun_format\<close>.
\<close>

record stun_env =
  se_resolve :: "string \<Rightarrow> socket_addr list io_result"
  se_bind :: "socket_addr \<Rightarrow> unit io_result"
  se_register :: "socket_addr \<Rightarrow> unit io_result"
  se_exchange :: "string \<Rightarrow> socket_addr \<Rightarrow> stun_exchange"
  se_attrs :: "bytes \<Rightarrow> stun_attr list"

record stun_query =
  sq_bind_ipv4 :: "ipv4_addr option"
  sq_bind_ipv6 :: "ipv6_addr option"
  sq_enable_ipv6 :: bool

text \<open>The local variables of \<open>stun_test_nat0\<close>, and the list of the binds it made.\<close>

record stun_scan =
  sc_udp_v4 :: bool
  sc_udp_v6 :: bool
  sc_ipv6_unavailable :: bool
  sc_pub_v4 :: "socket_addr list"
  sc_pub_v6 :: "socket_addr list"
  sc_binds :: "socket_addr list"

definition stun_scan_init :: stun_scan where
  "stun_scan_init = \<lparr>sc_udp_v4 = False, sc_udp_v6 = False, sc_ipv6_unavailable = False,
     sc_pub_v4 = [], sc_pub_v6 = [], sc_binds = []\<rparr>"

definition stun_bind_v4 :: "stun_query \<Rightarrow> socket_addr" where
  "stun_bind_v4 q = SockV4 (case sq_bind_ipv4 q of None \<Rightarrow> v4_unspecified | Some ip \<Rightarrow> ip) 0"

definition stun_bind_v6 :: "stun_query \<Rightarrow> socket_addr" where
  "stun_bind_v6 q = SockV6 (case sq_bind_ipv6 q of None \<Rightarrow> v6_unspecified | Some ip \<Rightarrow> ip) 0 0 0"

fun record_mapped :: "socket_addr \<Rightarrow> stun_scan \<Rightarrow> stun_scan" where
  "record_mapped a st =
     (if sa_is_ipv4 a then st\<lparr>sc_pub_v4 := push_new a (sc_pub_v4 st)\<rparr>
      else st\<lparr>sc_pub_v6 := push_new a (sc_pub_v6 st)\<rparr>)"

text \<open>The socket for a server address: \<open>Inr (True, _)\<close> when there is one to query it with.\<close>

definition stun_socket ::
  "stun_query \<Rightarrow> stun_env \<Rightarrow> socket_addr \<Rightarrow> stun_scan \<Rightarrow> (bool \<times> stun_scan) io_result" where
  "stun_socket q env addr st =
     (if sa_is_ipv4 addr then
        (if sc_udp_v4 st then Inr (True, st)
         else and_then (se_bind env (stun_bind_v4 q)) (\<lambda>_.
              and_then (se_register env (stun_bind_v4 q)) (\<lambda>_.
                Inr (True, st\<lparr>sc_udp_v4 := True, sc_binds := sc_binds st @ [stun_bind_v4 q]\<rparr>))))
      else if sq_enable_ipv6 q \<and> \<not> sc_ipv6_unavailable st then
        (if sc_udp_v6 st then Inr (True, st)
         else (case se_bind env (stun_bind_v6 q) of
             Inr _ \<Rightarrow> and_then (se_register env (stun_bind_v6 q)) (\<lambda>_.
                Inr (True, st\<lparr>sc_udp_v6 := True, sc_binds := sc_binds st @ [stun_bind_v6 q]\<rparr>))
           | Inl e \<Rightarrow> if sq_bind_ipv6 q = None
                      then Inr (False, st\<lparr>sc_ipv6_unavailable := True, sc_binds := sc_binds st @ [stun_bind_v6 q]\<rparr>)
                      else Inl e))
      else Inr (False, st))"

definition stun_server_addr ::
  "stun_query \<Rightarrow> stun_env \<Rightarrow> string \<Rightarrow> socket_addr \<Rightarrow> stun_scan \<Rightarrow> stun_scan io_result" where
  "stun_server_addr q env server addr st =
     and_then (stun_socket q env addr st) (\<lambda>(usable, st').
       Inr (if usable then
              (case test_nat (se_attrs env) (se_exchange env server addr) of
                 Inr addrs \<Rightarrow> fold record_mapped addrs st'
               | Inl _ \<Rightarrow> st')
            else st'))"

fun stun_server_addrs ::
  "stun_query \<Rightarrow> stun_env \<Rightarrow> string \<Rightarrow> socket_addr list \<Rightarrow> stun_scan \<Rightarrow> stun_scan io_result" where
  "stun_server_addrs q env server [] st = Inr st"
| "stun_server_addrs q env server (a # as) st =
     and_then (stun_server_addr q env server a st) (stun_server_addrs q env server as)"

text \<open>A name that does not resolve, or resolves to nothing, is skipped.\<close>

fun stun_servers_loop :: "stun_query \<Rightarrow> stun_env \<Rightarrow> string list \<Rightarrow> stun_scan \<Rightarrow> stun_scan io_result" where
  "stun_servers_loop q env [] st = Inr st"
| "stun_servers_loop q env (x # xs) st =
     (case se_resolve env x of
        Inl _ \<Rightarrow> stun_servers_loop q env xs st
      | Inr addrs \<Rightarrow>
          if addrs = [] then stun_servers_loop q env xs st
          else and_then (stun_server_addrs q env x addrs st) (stun_servers_loop q env xs))"

fun collect_mapped :: "socket_addr \<Rightarrow> stun_result \<Rightarrow> stun_result" where
  "collect_mapped (SockV4 ip port) r =
     r\<lparr>sr_public_ipv4 := push_new ip (sr_public_ipv4 r),
       sr_public_udp_ports := push_new port (sr_public_udp_ports r)\<rparr>"
| "collect_mapped (SockV6 ip port f s) r =
     r\<lparr>sr_public_ipv6 := (if sr_public_ipv6 r = None then Some ip else sr_public_ipv6 r),
       sr_public_udp_ports := push_new port (sr_public_udp_ports r)\<rparr>"

definition stun_empty_result :: stun_result where
  "stun_empty_result = \<lparr>sr_nat_type = Cone, sr_public_ipv4 = [], sr_public_ipv6 = None,
     sr_public_udp_ports = [], sr_port_range = 0\<rparr>"

definition stun_scan_result :: "stun_scan \<Rightarrow> stun_result" where
  "stun_scan_result st =
     (fold collect_mapped (sc_pub_v4 st @ sc_pub_v6 st) stun_empty_result)
       \<lparr>sr_nat_type := mapped_nat_type (sc_pub_v4 st) (sc_pub_v6 st),
        sr_port_range := max (mapped_port_range (sc_pub_v4 st)) (mapped_port_range (sc_pub_v6 st))\<rparr>"

definition stun_test_nat0 :: "stun_query \<Rightarrow> stun_env \<Rightarrow> string list \<Rightarrow> stun_result io_result" where
  "stun_test_nat0 q env servers =
     and_then (stun_servers_loop q env servers stun_scan_init) (\<lambda>st. Inr (stun_scan_result st))"

text \<open>Merging the result of a round into the accumulated one; \<open>nat_type\<close> is set by a symmetric round.\<close>

definition merge_round :: "stun_result \<Rightarrow> stun_result \<Rightarrow> stun_result" where
  "merge_round r acc =
     \<lparr>sr_nat_type = (if sr_nat_type r = Symmetric then Symmetric else sr_nat_type acc),
      sr_public_ipv4 = fold push_new (sr_public_ipv4 r) (sr_public_ipv4 acc),
      sr_public_ipv6 = (if sr_public_ipv6 r \<noteq> None \<and> sr_public_ipv6 acc = None
                        then sr_public_ipv6 r else sr_public_ipv6 acc),
      sr_public_udp_ports = fold push_new (sr_public_udp_ports r) (sr_public_udp_ports acc),
      sr_port_range = (if sr_port_range acc < sr_port_range r then sr_port_range r else sr_port_range acc)\<rparr>"

text \<open>The loop over the rounds, each with the environment it meets.\<close>

fun stun_rounds :: "stun_query \<Rightarrow> string list \<Rightarrow> stun_env list \<Rightarrow> stun_result \<Rightarrow> stun_result" where
  "stun_rounds q servers [] acc = acc"
| "stun_rounds q servers (env # envs) acc =
     (case stun_test_nat0 q env servers of
        Inr r \<Rightarrow> if sr_nat_type r = Symmetric then merge_round r acc
                 else stun_rounds q servers envs (merge_round r acc)
      | Inl _ \<Rightarrow> stun_rounds q servers envs acc)"

definition stun_test_nat_bound :: "stun_query \<Rightarrow> stun_env \<times> stun_env \<Rightarrow> string list \<Rightarrow> stun_result io_result" where
  "stun_test_nat_bound q envs servers =
     Inr (stun_rounds q servers [fst envs, snd envs] stun_empty_result)"

definition stun_test_nat :: "stun_env \<times> stun_env \<Rightarrow> string list \<Rightarrow> stun_result io_result" where
  "stun_test_nat envs servers =
     stun_test_nat_bound \<lparr>sq_bind_ipv4 = None, sq_bind_ipv6 = None, sq_enable_ipv6 = True\<rparr> envs servers"

section \<open>The NAT description of this node\<close>

text \<open>
  \<open>Puncher::nat_info_with_servers\<close>. \<open>scanned\<close> is the result of the interface scan, \<open>probe4\<close> and
  \<open>probe6\<close> the environments of the two probing fallbacks, \<open>udp_ports\<close> the local addresses of the
  pool's UDP sockets.
\<close>

definition nat_info_with_servers ::
  "nat_query_config \<Rightarrow> stun_env \<times> stun_env \<Rightarrow> local_ips_t \<Rightarrow> probe_env \<Rightarrow> probe_env
     \<Rightarrow> socket_addr io_result list \<Rightarrow> string list \<Rightarrow> nat_info io_result" where
  "nat_info_with_servers cfg envs scanned probe4 probe6 sockets servers =
     (let servers = (if servers = [] then nc_stun_servers cfg else servers);
          q = \<lparr>sq_bind_ipv4 = nc_bind_ipv4 cfg, sq_bind_ipv6 = nc_bind_ipv6 cfg, sq_enable_ipv6 = nc_enable_ipv6 cfg\<rparr>
      in and_then (stun_test_nat_bound q envs servers) (\<lambda>stun.
       let v4s = (case nc_bind_ipv4 cfg of None \<Rightarrow> [] | Some ip \<Rightarrow> [ip]);
           v4s = (if v4s = [] then ipv4s scanned else v4s);
           v4s = (if v4s = [] then (case local_ipv4 probe4 servers of None \<Rightarrow> [] | Some ip \<Rightarrow> [ip]) else v4s);
           v6 = (if nc_enable_ipv6 cfg then
                   (case nc_bind_ipv6 cfg of
                      Some ip \<Rightarrow> Some ip
                    | None \<Rightarrow> (case ipv6s scanned of [] \<Rightarrow> None | ip # _ \<Rightarrow> Some ip))
                 else None);
           v6 = (if v6 = None \<and> nc_enable_ipv6 cfg then local_ipv6 probe6 servers else v6)
       in Inr \<lparr>ni_type = sr_nat_type stun, public_ips = sr_public_ipv4 stun, public_udp_ports = [],
               mapping_tcp_addr = nc_mapping_tcp cfg, mapping_udp_addr = nc_mapping_udp cfg,
               public_port_range = sr_port_range stun,
               ni_local_ipv4 = (case v4s of [] \<Rightarrow> v4_unspecified | ip # _ \<Rightarrow> ip),
               ni_local_ipv4s = v4s, ni_ipv6 = v6,
               local_udp_ports = List.map_filter (\<lambda>r. case r of Inr a \<Rightarrow> Some (sa_port a) | Inl _ \<Rightarrow> None) sockets,
               local_tcp_port = nc_local_tcp_port cfg, public_tcp_port = 0, stun_mapped_ports = []\<rparr>))"

definition puncher_nat_info ::
  "puncher \<Rightarrow> stun_env \<times> stun_env \<Rightarrow> local_ips_t \<Rightarrow> probe_env \<Rightarrow> probe_env
     \<Rightarrow> socket_addr io_result list \<Rightarrow> nat_info io_result" where
  "puncher_nat_info pu envs scanned probe4 probe6 sockets =
     nat_info_with_servers (pu_config pu) envs scanned probe4 probe6 sockets (nc_stun_servers (pu_config pu))"

text \<open>The address a TCP connection to \<open>remote\<close> binds to.\<close>

definition tcp_bind_addr :: "nat_query_config \<Rightarrow> socket_addr \<Rightarrow> u16 \<Rightarrow> socket_addr io_result" where
  "tcp_bind_addr cfg remote port =
     (if sa_is_ipv4 remote then
        Inr (SockV4 (case nc_bind_ipv4 cfg of None \<Rightarrow> v4_unspecified | Some ip \<Rightarrow> ip) port)
      else if nc_enable_ipv6 cfg then
        Inr (SockV6 (case nc_bind_ipv6 cfg of None \<Rightarrow> v6_unspecified | Some ip \<Rightarrow> ip) port 0 0)
      else Inl (IoError Unsupported ''IPv6 TCP is disabled by Config::enable_ipv6''))"

section \<open>What a scan collects\<close>

lemma set_fold_push_new [simp]: "set (fold push_new xs ys) = set xs \<union> set ys"
  by (induction xs arbitrary: ys) auto

text \<open>The mapped addresses the servers report, by the environment alone.\<close>

definition exchange_answers :: "stun_query \<Rightarrow> stun_env \<Rightarrow> string \<Rightarrow> socket_addr \<Rightarrow> socket_addr set" where
  "exchange_answers q env server a =
     (if sa_is_ipv4 a \<or> sq_enable_ipv6 q \<and> \<not> isl (se_bind env (stun_bind_v6 q)) then
        (case test_nat (se_attrs env) (se_exchange env server a) of Inr l \<Rightarrow> set l | Inl _ \<Rightarrow> {})
      else {})"

definition stun_answers :: "stun_query \<Rightarrow> stun_env \<Rightarrow> string list \<Rightarrow> socket_addr set" where
  "stun_answers q env servers =
     (\<Union>x \<in> set servers. case se_resolve env x of
        Inl _ \<Rightarrow> {} | Inr addrs \<Rightarrow> (\<Union>a \<in> set addrs. exchange_answers q env x a))"

definition scan_mapped :: "stun_scan \<Rightarrow> socket_addr set" where
  "scan_mapped st = set (sc_pub_v4 st) \<union> set (sc_pub_v6 st)"

text \<open>
  The loop invariant: the two address sets hold the right family, the flags agree with the
  outcome of the IPv6 bind, and every family was bound at most once.
\<close>

definition scan_inv :: "stun_query \<Rightarrow> stun_env \<Rightarrow> stun_scan \<Rightarrow> bool" where
  "scan_inv q env st \<longleftrightarrow> distinct (sc_pub_v4 st) \<and> distinct (sc_pub_v6 st)
     \<and> list_all sa_is_ipv4 (sc_pub_v4 st) \<and> list_all (\<lambda>a. \<not> sa_is_ipv4 a) (sc_pub_v6 st)
     \<and> (sc_udp_v6 st \<longrightarrow> \<not> isl (se_bind env (stun_bind_v6 q)))
     \<and> (sc_ipv6_unavailable st \<longrightarrow> isl (se_bind env (stun_bind_v6 q)))
     \<and> length (filter sa_is_ipv4 (sc_binds st)) = of_bool (sc_udp_v4 st)
     \<and> length (filter (\<lambda>a. \<not> sa_is_ipv4 a) (sc_binds st)) = of_bool (sc_udp_v6 st \<or> sc_ipv6_unavailable st)"

lemma scan_inv_init: "scan_inv q env stun_scan_init"
  by (simp add: scan_inv_def stun_scan_init_def)

lemma record_mapped_inv: "scan_inv q env st \<Longrightarrow> scan_inv q env (record_mapped a st)"
  by (simp add: scan_inv_def list_all_iff)

lemma record_mapped_set: "scan_mapped (record_mapped a st) = insert a (scan_mapped st)"
  by (simp add: scan_mapped_def)

lemma fold_record_mapped:
  "scan_inv q env st \<Longrightarrow> scan_inv q env (fold record_mapped as st)
     \<and> scan_mapped (fold record_mapped as st) = set as \<union> scan_mapped st"
  by (induction as arbitrary: st) (auto simp: record_mapped_inv record_mapped_set simp del: record_mapped.simps)

lemma bind_families [simp]: "sa_is_ipv4 (stun_bind_v4 q)" "\<not> sa_is_ipv4 (stun_bind_v6 q)"
  by (simp_all add: stun_bind_v4_def stun_bind_v6_def)

lemma scan_inv_binds:
  "scan_inv q env st \<Longrightarrow> \<not> sc_udp_v4 st \<Longrightarrow>
     scan_inv q env (st\<lparr>sc_udp_v4 := True, sc_binds := sc_binds st @ [stun_bind_v4 q]\<rparr>)"
  "scan_inv q env st \<Longrightarrow> \<not> sc_udp_v6 st \<Longrightarrow> \<not> sc_ipv6_unavailable st \<Longrightarrow> se_bind env (stun_bind_v6 q) = Inr u \<Longrightarrow>
     scan_inv q env (st\<lparr>sc_udp_v6 := True, sc_binds := sc_binds st @ [stun_bind_v6 q]\<rparr>)"
  "scan_inv q env st \<Longrightarrow> \<not> sc_udp_v6 st \<Longrightarrow> \<not> sc_ipv6_unavailable st \<Longrightarrow> se_bind env (stun_bind_v6 q) = Inl e \<Longrightarrow>
     scan_inv q env (st\<lparr>sc_ipv6_unavailable := True, sc_binds := sc_binds st @ [stun_bind_v6 q]\<rparr>)"
  by (simp_all add: scan_inv_def)

lemma scan_inv_flags:
  "scan_inv q env st \<Longrightarrow> sc_udp_v6 st \<Longrightarrow> \<not> isl (se_bind env (stun_bind_v6 q))"
  "scan_inv q env st \<Longrightarrow> sc_ipv6_unavailable st \<Longrightarrow> isl (se_bind env (stun_bind_v6 q))"
  by (simp_all add: scan_inv_def)

lemma stun_socket_spec:
  assumes "scan_inv q env st" "stun_socket q env a st = Inr (usable, st')"
  shows "scan_inv q env st' \<and> scan_mapped st' = scan_mapped st
    \<and> (usable \<longleftrightarrow> sa_is_ipv4 a \<or> sq_enable_ipv6 q \<and> \<not> isl (se_bind env (stun_bind_v6 q)))"
proof (cases "sa_is_ipv4 a")
  case True
  then show ?thesis using assms scan_inv_binds(1) [OF assms(1)]
    by (auto simp: stun_socket_def scan_mapped_def and_then_Inr_iff split: if_splits)
next
  case False
  then show ?thesis using assms scan_inv_binds(2,3) [OF assms(1)] scan_inv_flags [OF assms(1)]
    by (auto simp: stun_socket_def scan_mapped_def and_then_Inr_iff split: if_splits sum.splits)
qed

lemma stun_server_addr_spec:
  assumes "scan_inv q env st" "stun_server_addr q env server a st = Inr st'"
  shows "scan_inv q env st' \<and> scan_mapped st' = exchange_answers q env server a \<union> scan_mapped st"
proof -
  obtain usable st1 where s: "stun_socket q env a st = Inr (usable, st1)"
    and st': "st' = (if usable then (case test_nat (se_attrs env) (se_exchange env server a) of
         Inr addrs \<Rightarrow> fold record_mapped addrs st1 | Inl _ \<Rightarrow> st1) else st1)"
    using assms(2) by (auto simp: stun_server_addr_def and_then_Inr_iff)
  show ?thesis
    using stun_socket_spec [OF assms(1) s] fold_record_mapped [of q env st1]
    unfolding st' exchange_answers_def by (auto split: sum.splits)
qed

lemma stun_server_addrs_spec:
  assumes "scan_inv q env st" "stun_server_addrs q env server as st = Inr st'"
  shows "scan_inv q env st' \<and> scan_mapped st' = (\<Union>a \<in> set as. exchange_answers q env server a) \<union> scan_mapped st"
  using assms
proof (induction as arbitrary: st)
  case (Cons a as)
  then obtain st1 where 1: "stun_server_addr q env server a st = Inr st1"
    and 2: "stun_server_addrs q env server as st1 = Inr st'" by (auto simp: and_then_Inr_iff)
  show ?case using stun_server_addr_spec [OF Cons.prems(1) 1] Cons.IH [OF _ 2] by auto
qed simp

lemma stun_servers_loop_spec:
  assumes "scan_inv q env st" "stun_servers_loop q env xs st = Inr st'"
  shows "scan_inv q env st' \<and> scan_mapped st' = stun_answers q env xs \<union> scan_mapped st"
  using assms
proof (induction xs arbitrary: st)
  case (Cons x xs)
  show ?case
  proof (cases "se_resolve env x")
    case (Inl e)
    then show ?thesis using Cons by (simp add: stun_answers_def)
  next
    case (Inr addrs)
    then obtain st1 where 1: "stun_server_addrs q env x addrs st = Inr st1"
      and 2: "stun_servers_loop q env xs st1 = Inr st'"
      using Cons.prems(2) by (auto simp: and_then_Inr_iff split: if_splits)
    show ?thesis using stun_server_addrs_spec [OF Cons.prems(1) 1] Cons.IH [OF _ 2] Inr
      by (auto simp: stun_answers_def)
  qed
qed (simp add: stun_answers_def)

section \<open>The detection result\<close>

lemma distinct_two: "distinct xs \<Longrightarrow> Suc 0 < length xs \<longleftrightarrow> (\<exists>a \<in> set xs. \<exists>b \<in> set xs. a \<noteq> b)"
  by (cases xs rule: remdups_adj.cases) auto

lemma fold_collect_mapped:
  "set (sr_public_ipv4 (fold collect_mapped as r)) = {ip. \<exists>port. SockV4 ip port \<in> set as} \<union> set (sr_public_ipv4 r)"
  "set (sr_public_udp_ports (fold collect_mapped as r)) = sa_port ` set as \<union> set (sr_public_udp_ports r)"
  "sr_public_ipv6 (fold collect_mapped as r) = None \<longleftrightarrow> sr_public_ipv6 r = None \<and> (\<forall>a \<in> set as. sa_is_ipv4 a)"
proof (induction as arbitrary: r)
  case (Cons a as)
  { case 1 show ?case by (cases a) (auto simp: Cons.IH) }
  { case 2 show ?case by (cases a) (auto simp: Cons.IH) }
  { case 3 show ?case by (cases a) (auto simp: Cons.IH) }
qed simp_all

lemma mapped_port_range_unat:
  "xs \<noteq> [] \<Longrightarrow> unat (mapped_port_range xs) = unat (Max (sa_port ` set xs)) - unat (Min (sa_port ` set xs))"
  by (simp add: mapped_port_range_def unat_saturating_sub)

lemma mapped_port_range_bound:
  assumes "a \<in> set xs" "b \<in> set xs"
  shows "unat (sa_port a) - unat (sa_port b) \<le> unat (mapped_port_range xs)"
proof -
  have "sa_port a \<le> Max (sa_port ` set xs)" "Min (sa_port ` set xs) \<le> sa_port b" using assms by simp_all
  moreover have "xs \<noteq> []" using assms by auto
  ultimately show ?thesis by (simp add: mapped_port_range_unat word_le_nat_alt diff_le_mono2 le_diff_conv)
qed

lemma mapped_port_range_tight:
  assumes "xs \<noteq> []"
  obtains a b where "a \<in> set xs" "b \<in> set xs" "unat (sa_port a) - unat (sa_port b) = unat (mapped_port_range xs)"
proof -
  have "Max (sa_port ` set xs) \<in> sa_port ` set xs" "Min (sa_port ` set xs) \<in> sa_port ` set xs"
    using assms by (simp_all del: set_map)
  then show ?thesis using that mapped_port_range_unat [OF assms] by (metis imageE)
qed

abbreviation same_family :: "socket_addr \<Rightarrow> socket_addr \<Rightarrow> bool" where
  "same_family a b \<equiv> sa_is_ipv4 a = sa_is_ipv4 b"

lemma scan_families:
  assumes "scan_inv q env st"
  shows "set (sc_pub_v4 st) = {a \<in> scan_mapped st. sa_is_ipv4 a}"
    and "set (sc_pub_v6 st) = {a \<in> scan_mapped st. \<not> sa_is_ipv4 a}"
  using assms by (auto simp: scan_inv_def scan_mapped_def list_all_iff)

lemma mapped_nat_type_iff:
  assumes "scan_inv q env st"
  shows "mapped_nat_type (sc_pub_v4 st) (sc_pub_v6 st) = Symmetric \<longleftrightarrow>
    (\<exists>a \<in> scan_mapped st. \<exists>b \<in> scan_mapped st. a \<noteq> b \<and> same_family a b)"
proof -
  have "distinct (sc_pub_v4 st)" "distinct (sc_pub_v6 st)" using assms by (simp_all add: scan_inv_def)
  then show ?thesis
    unfolding mapped_nat_type_def by (auto simp: distinct_two scan_families [OF assms])
qed

lemma scan_port_range_bound:
  assumes "scan_inv q env st" "a \<in> scan_mapped st" "b \<in> scan_mapped st" "same_family a b"
  shows "unat (sa_port a) - unat (sa_port b)
    \<le> unat (max (mapped_port_range (sc_pub_v4 st)) (mapped_port_range (sc_pub_v6 st)))"
  using mapped_port_range_bound [of a "sc_pub_v4 st" b] mapped_port_range_bound [of a "sc_pub_v6 st" b] assms(2-4)
  by (cases "sa_is_ipv4 a") (auto simp: scan_families [OF assms(1)] max_def word_le_nat_alt)

lemma scan_port_range_tight:
  assumes inv: "scan_inv q env st" and "scan_mapped st \<noteq> {}"
  shows "\<exists>a \<in> scan_mapped st. \<exists>b \<in> scan_mapped st. same_family a b \<and> unat (sa_port a) - unat (sa_port b)
    = unat (max (mapped_port_range (sc_pub_v4 st)) (mapped_port_range (sc_pub_v6 st)))"
proof -
  have max: "max (mapped_port_range (sc_pub_v4 st)) (mapped_port_range (sc_pub_v6 st)) = mapped_port_range xs"
    if "xs \<noteq> []" "xs = (if sc_pub_v6 st = [] \<or> sc_pub_v4 st \<noteq> [] \<and> mapped_port_range (sc_pub_v6 st) \<le> mapped_port_range (sc_pub_v4 st)
       then sc_pub_v4 st else sc_pub_v6 st)" for xs
    using that by (auto simp: max_def mapped_port_range_def split: if_splits)
  obtain xs where xs: "xs \<noteq> []" "xs = sc_pub_v4 st \<or> xs = sc_pub_v6 st"
    "max (mapped_port_range (sc_pub_v4 st)) (mapped_port_range (sc_pub_v6 st)) = mapped_port_range xs"
    using max assms(2) by (cases "sc_pub_v6 st = []"; cases "sc_pub_v4 st = []"; cases "mapped_port_range (sc_pub_v6 st) \<le> mapped_port_range (sc_pub_v4 st)")
      (auto simp: scan_mapped_def)
  obtain a b where ab: "a \<in> set xs" "b \<in> set xs" "unat (sa_port a) - unat (sa_port b) = unat (mapped_port_range xs)"
    using mapped_port_range_tight [OF xs(1)] .
  have "a \<in> scan_mapped st" "b \<in> scan_mapped st" "same_family a b"
    using ab(1,2) xs(2) by (auto simp: scan_families [OF inv])
  then show ?thesis using ab(3) unfolding xs(3) by blast
qed


text \<open>
  A pass binds at most one socket per address family, however many servers it queries, so
  that the addresses it compares belong to one local port.
\<close>

theorem stun_one_socket_per_family:
  assumes "stun_servers_loop q env servers stun_scan_init = Inr st"
  shows "length (filter sa_is_ipv4 (sc_binds st)) \<le> 1
    \<and> length (filter (\<lambda>a. \<not> sa_is_ipv4 a) (sc_binds st)) \<le> 1"
  using stun_servers_loop_spec [OF scan_inv_init assms] by (simp add: scan_inv_def)

text \<open>Two servers that see different ports; the exchange has no changed address.\<close>

definition plain_exchange :: "bytes \<Rightarrow> stun_exchange" where
  "plain_exchange reply =
     \<lparr>sx_connect = Inr (), sx_first = (RecvTimeout, Reply reply), sx_reconnect = (\<lambda>_. False),
      sx_second = (RecvTimeout, RecvTimeout)\<rparr>"

definition two_server_env :: stun_env where
  "two_server_env =
     \<lparr>se_resolve = (\<lambda>x. if x = ''a'' then Inr [SockV4 (Ipv4Addr 192 0 2 1) 3478]
        else if x = ''b'' then Inr [SockV4 (Ipv4Addr 192 0 2 2) 3478] else Inl (IoError Other [])),
      se_bind = (\<lambda>_. Inr ()), se_register = (\<lambda>_. Inr ()),
      se_exchange = (\<lambda>x _. plain_exchange (if x = ''a'' then [1] else [2])),
      se_attrs = (\<lambda>buf. [OtherAttr, XorMappedAddress (StunV4 203 0 113 7 (if buf = [1] then 40000 else 40010))])\<rparr>"

definition any_query :: stun_query where
  "any_query = \<lparr>sq_bind_ipv4 = None, sq_bind_ipv6 = None, sq_enable_ipv6 = True\<rparr>"

lemmas stun_eval =
  stun_server_addr_def stun_socket_def test_nat_def test_nat_once_def two_server_env_def plain_exchange_def
  any_query_def stun_scan_init_def stun_bind_v4_def push_new_def

lemma two_server_scan:
  "stun_servers_loop any_query two_server_env [''x'', ''a'', ''b''] stun_scan_init =
     Inr \<lparr>sc_udp_v4 = True, sc_udp_v6 = False, sc_ipv6_unavailable = False,
       sc_pub_v4 = [SockV4 (Ipv4Addr 203 0 113 7) 40000, SockV4 (Ipv4Addr 203 0 113 7) 40010], sc_pub_v6 = [],
       sc_binds = [SockV4 v4_unspecified 0]\<rparr>"
  by (simp add: stun_eval)

lemma two_server_result:
  "stun_test_nat0 any_query two_server_env [''x'', ''a'', ''b''] =
     Inr \<lparr>sr_nat_type = Symmetric, sr_public_ipv4 = [Ipv4Addr 203 0 113 7], sr_public_ipv6 = None,
       sr_public_udp_ports = [40000, 40010], sr_port_range = 10\<rparr>"
  unfolding stun_test_nat0_def two_server_scan
  by (simp add: stun_scan_result_def stun_empty_result_def mapped_nat_type_def mapped_port_range_def
      push_new_def saturating_sub_def)


theorem stun_one_socket_per_family_witness:
  "length (filter sa_is_ipv4 [SockV4 v4_unspecified 0]) \<le> 1"
  using stun_one_socket_per_family [OF two_server_scan] by (simp only: stun_scan.select_convs)

section \<open>Two rounds\<close>

lemma stun_no_answers:
  assumes "stun_answers q env servers = {}" "stun_test_nat0 q env servers = Inr r"
  shows "r = stun_empty_result"
proof -
  obtain st where st: "stun_servers_loop q env servers stun_scan_init = Inr st" and r: "r = stun_scan_result st"
    using assms(2) by (auto simp: stun_test_nat0_def and_then_Inr_iff)
  have "scan_mapped st = {}"
    using stun_servers_loop_spec [OF scan_inv_init st] assms(1) by (auto simp: scan_mapped_def stun_scan_init_def)
  then show ?thesis
    by (simp add: r stun_scan_result_def scan_mapped_def stun_empty_result_def mapped_nat_type_def mapped_port_range_def)
qed

lemma merge_round_empty: "merge_round stun_empty_result acc = acc"
  by (simp add: merge_round_def stun_empty_result_def word_less_nat_alt)

lemma stun_empty_type [simp]: "sr_nat_type stun_empty_result = Cone"
  by (simp add: stun_empty_result_def)

lemma stun_rounds_no_answers:
  "\<forall>env \<in> set envs. stun_answers q env servers = {} \<Longrightarrow> stun_rounds q servers envs acc = acc"
proof (induction envs)
  case (Cons env envs)
  then show ?case using stun_no_answers [of q env servers]
    by (cases "stun_test_nat0 q env servers") (auto simp: merge_round_empty)
qed simp

lemma merge_round_range:
  "sr_port_range acc \<le> sr_port_range (merge_round r acc)" "sr_port_range r \<le> sr_port_range (merge_round r acc)"
  by (auto simp: merge_round_def)

lemma stun_rounds_symmetric:
  "sr_nat_type (stun_rounds q servers envs acc) = Symmetric \<longleftrightarrow>
     sr_nat_type acc = Symmetric
     \<or> (\<exists>env \<in> set envs. \<exists>r. stun_test_nat0 q env servers = Inr r \<and> sr_nat_type r = Symmetric)"
  by (induction envs arbitrary: acc) (auto simp: merge_round_def split: sum.splits)

lemma stun_rounds_range:
  "sr_port_range acc \<le> sr_port_range (stun_rounds q servers envs acc)"
proof (induction envs arbitrary: acc)
  case (Cons env envs)
  show ?case using Cons.IH merge_round_range(1) order.trans by (fastforce split: sum.splits)
qed simp

lemma stun_outage:
  assumes "stun_answers q (fst envs) servers = {}" "stun_answers q (snd envs) servers = {}"
  shows "stun_test_nat_bound q envs servers = Inr stun_empty_result"
  using stun_rounds_no_answers [of "[fst envs, snd envs]"] assms by (simp add: stun_test_nat_bound_def)

text \<open>
  Over its two rounds the client reports a symmetric NAT exactly when a round that completed
  did, and the first such round's port range is never lost.
\<close>

theorem stun_rounds_keep_symmetric:
  "\<exists>res. stun_test_nat_bound q (env1, env2) servers = Inr res
     \<and> (sr_nat_type res = Symmetric \<longleftrightarrow>
          (\<exists>env \<in> {env1, env2}. \<exists>r. stun_test_nat0 q env servers = Inr r \<and> sr_nat_type r = Symmetric))
     \<and> (case stun_test_nat0 q env1 servers of
          Inr r \<Rightarrow> sr_port_range r \<le> sr_port_range res
        | Inl _ \<Rightarrow> (case stun_test_nat0 q env2 servers of
            Inr r \<Rightarrow> sr_port_range r \<le> sr_port_range res | Inl _ \<Rightarrow> res = stun_empty_result))"
proof -
  let ?res = "stun_rounds q servers [env1, env2] stun_empty_result"
  have "sr_port_range r \<le> sr_port_range ?res" if "stun_test_nat0 q env1 servers = Inr r" for r
    using that order.trans [OF merge_round_range(2) stun_rounds_range [of _ q servers "[env2]"]] merge_round_range(2)
    by (simp del: stun_rounds.simps(2) add: stun_rounds.simps(2) [of q servers env1])
  moreover have "?res = merge_round r stun_empty_result"
    if "stun_test_nat0 q env1 servers = Inl e" "stun_test_nat0 q env2 servers = Inr r" for e r
    using that by simp
  ultimately have "case stun_test_nat0 q env1 servers of
      Inr r \<Rightarrow> sr_port_range r \<le> sr_port_range ?res
    | Inl _ \<Rightarrow> (case stun_test_nat0 q env2 servers of
        Inr r \<Rightarrow> sr_port_range r \<le> sr_port_range ?res | Inl _ \<Rightarrow> ?res = stun_empty_result)"
    by (cases "stun_test_nat0 q env1 servers"; cases "stun_test_nat0 q env2 servers") (simp_all add: merge_round_range)
  then show ?thesis
    using stun_rounds_symmetric [of q servers "[env1, env2]" stun_empty_result]
    unfolding stun_test_nat_bound_def fst_conv snd_conv by (intro exI [of _ ?res] conjI) simp_all
qed

section \<open>The node's own NAT description\<close>

text \<open>
  The NAT query of the puncher always returns a description. It claims no public port, since
  the mapped ports belong to a temporary socket; its IPv4 addresses are the configured one, else
  those of the scan, else the probed one; and it has an IPv6 address only when IPv6 is enabled,
  the configured one, else the first of the scan, else the probed one.
\<close>

theorem nat_info_assembly:
  "\<exists>info. nat_info_with_servers cfg envs scanned probe4 probe6 sockets servers = Inr info
     \<and> public_ipv4_addr info = [] \<and> public_ipv4_tcp info = []
     \<and> ni_local_ipv4s info =
         (case nc_bind_ipv4 cfg of Some ip \<Rightarrow> [ip]
          | None \<Rightarrow> if ipv4s scanned \<noteq> [] then ipv4s scanned
                    else (case local_ipv4 probe4 (if servers = [] then nc_stun_servers cfg else servers) of
                            Some ip \<Rightarrow> [ip] | None \<Rightarrow> []))
     \<and> ni_local_ipv4 info = (if ni_local_ipv4s info = [] then v4_unspecified else hd (ni_local_ipv4s info))
     \<and> ni_ipv6 info =
         (if \<not> nc_enable_ipv6 cfg then None
          else (case nc_bind_ipv6 cfg of Some ip \<Rightarrow> Some ip
          | None \<Rightarrow> if ipv6s scanned \<noteq> [] then Some (hd (ipv6s scanned))
                    else local_ipv6 probe6 (if servers = [] then nc_stun_servers cfg else servers)))"
  by (auto simp: nat_info_with_servers_def stun_test_nat_bound_def Let_def public_ipv4_addr_def
      public_ipv4_tcp_def split: option.splits list.splits)

end
