(* ===== verification/Tcp_Framing.thy ===== *)
theory Tcp_Framing
  imports P2P_Prelude
begin

text \<open>
  \<open>rustp2p-core/src/endpoint/codec.rs\<close> and the TCP read and write tasks of
  \<open>endpoint/pool.rs\<close>: the length-prefixed and the raw codec, the decode loop over an
  accumulating buffer, vectored writes that may be partial, and the interface (a locale per
  contract) that makes the tasks correct for a codec.
\<close>

section \<open>Codecs\<close>

type_synonym decoder = "bytes \<Rightarrow> (bytes option \<times> bytes) io_result"
type_synonym encoder = "bytes \<Rightarrow> bytes list io_result"

definition MAX_FRAME_LEN :: nat where
  "MAX_FRAME_LEN = 64 * 1024"

text \<open>A decoder returns the frame, if one is complete, and what stays in the buffer.\<close>

definition bytes_decode :: decoder where
  "bytes_decode buf = (if buf = [] then Inr (None, buf) else Inr (Some buf, []))"

definition bytes_encode :: encoder where
  "bytes_encode data = Inr [data]"

definition lp_decode :: decoder where
  "lp_decode buf =
     (if length buf < 4 then Inr (None, buf)
      else let len = unat (u32_from_be (take 4 buf)) in
        if len > MAX_FRAME_LEN then Inl (IoError InvalidData ''frame too large'')
        else if length buf < 4 + len then Inr (None, buf)
        else Inr (Some (take len (drop 4 buf)), drop len (drop 4 buf)))"

definition lp_encode :: encoder where
  "lp_encode data =
     (if length data > MAX_FRAME_LEN then Inl (IoError InvalidInput ''frame too large'')
      else if length data > 4294967295 then Inl (IoError InvalidInput ''frame too large'')
      else Inr [u32_to_be (of_nat (length data)), data])"

section \<open>The read task\<close>

datatype read_event = ReadData bytes | ReadError | ReadGlobalShutdown | ReadTunnelShutdown

text \<open>
  The inner loop calls the decoder until it reports that more bytes are needed. A decoder is
  any implementation of the trait, so the loop need not end: \<open>None\<close> is divergence.
  \<open>accepts n\<close> says whether the channel to the tunnel takes the \<open>n\<close>-th frame. The result is
  the buffer, the frames handed over so far and whether the task goes on.
\<close>

partial_function (option) drain_frames ::
  "decoder \<Rightarrow> (nat \<Rightarrow> bool) \<Rightarrow> bytes \<Rightarrow> bytes list \<Rightarrow> (bytes \<times> bytes list \<times> bool) option" where
  "drain_frames dec accepts buf out =
     (case dec buf of
        Inl e \<Rightarrow> Some (buf, out, False)
      | Inr (None, buf') \<Rightarrow> Some (buf', out, True)
      | Inr (Some data, buf') \<Rightarrow>
          if accepts (length out) then drain_frames dec accepts buf' (out @ [data])
          else Some (buf', out, False))"

fun tcp_read_task ::
  "decoder \<Rightarrow> (nat \<Rightarrow> bool) \<Rightarrow> read_event list \<Rightarrow> bytes \<Rightarrow> bytes list
     \<Rightarrow> (bytes \<times> bytes list \<times> bool) option" where
  "tcp_read_task dec accepts [] buf out = Some (buf, out, True)"
| "tcp_read_task dec accepts (ReadData chunk # es) buf out =
     (if chunk = [] then Some (buf, out, False)
      else (case drain_frames dec accepts (buf @ chunk) out of
          None \<Rightarrow> None
        | Some (buf', out', go) \<Rightarrow>
            if go then tcp_read_task dec accepts es buf' out' else Some (buf', out', False)))"
| "tcp_read_task dec accepts (ReadError # es) buf out = Some (buf, out, False)"
| "tcp_read_task dec accepts (ReadGlobalShutdown # es) buf out = Some (buf, out, False)"
| "tcp_read_task dec accepts (ReadTunnelShutdown # es) buf out = Some (buf, out, False)"

section \<open>Vectored writes and the write task\<close>

text \<open>\<open>IoSlice::advance_slices\<close>: drop whole slices, then the front of the next one.\<close>

fun advance_slices :: "nat \<Rightarrow> bytes list \<Rightarrow> bytes list" where
  "advance_slices n [] = []"
| "advance_slices n (b # bs) =
     (if length b \<le> n then advance_slices (n - length b) bs else drop n b # bs)"

datatype write_event = Wrote nat | WriteFailed io_error

datatype write_status = WriteDone | WriteErr io_error | WritePending

text \<open>
  One call per event: \<open>Wrote n\<close> is \<open>Ok(n)\<close> of \<open>write_vectored\<close>. The result is the bytes that
  went out, the events left and the status; \<open>WritePending\<close> when no event is left.
\<close>

fun write_all_vectored :: "bytes list \<Rightarrow> write_event list \<Rightarrow> bytes \<times> write_event list \<times> write_status" where
  "write_all_vectored [] evs = ([], evs, WriteDone)"
| "write_all_vectored (b # bs) [] = ([], [], WritePending)"
| "write_all_vectored (b # bs) (WriteFailed e # evs) =
     (if err_kind e = Interrupted then write_all_vectored (b # bs) evs else ([], evs, WriteErr e))"
| "write_all_vectored (b # bs) (Wrote n # evs) =
     (if n = 0 then ([], evs, WriteErr (IoError WriteZero ''failed to write whole frame''))
      else (let (out, rest) = write_all_vectored (advance_slices n (b # bs)) evs
            in (take n (concat (b # bs)) @ out, rest)))"

text \<open>The write task: encode each queued message and write it, stop at the first error.\<close>

fun tcp_write_task :: "encoder \<Rightarrow> bytes list \<Rightarrow> write_event list \<Rightarrow> bytes \<times> write_status" where
  "tcp_write_task enc [] evs = ([], WriteDone)"
| "tcp_write_task enc (msg # msgs) evs =
     (case enc msg of
        Inl e \<Rightarrow> ([], WriteErr e)
      | Inr iov \<Rightarrow>
          (case write_all_vectored iov evs of
             (out, evs', WriteDone) \<Rightarrow>
               (let (out', st) = tcp_write_task enc msgs evs' in (out @ out', st))
           | (out, evs', st) \<Rightarrow> (out, st)))"

text \<open>The socket never reports more bytes than it was offered.\<close>

fun legal_writes :: "bytes list \<Rightarrow> write_event list \<Rightarrow> bool" where
  "legal_writes iov [] = True"
| "legal_writes [] evs = True"
| "legal_writes iov (WriteFailed e # evs) = legal_writes iov evs"
| "legal_writes iov (Wrote n # evs) =
     (n \<le> length (concat iov) \<and> legal_writes (advance_slices n iov) evs)"

text \<open>What the writer of a list of messages is meant to put on the wire.\<close>

fun encode_all :: "encoder \<Rightarrow> bytes list \<Rightarrow> bytes io_result" where
  "encode_all enc [] = Inr []"
| "encode_all enc (m # ms) =
     and_then (enc m) (\<lambda>iov. and_then (encode_all enc ms) (\<lambda>s. Inr (concat iov @ s)))"

section \<open>Contracts of a codec\<close>

text \<open>A decoder that consumes input for each frame and leaves the buffer alone otherwise.\<close>

locale progressive_decoder =
  fixes dec :: decoder
  assumes dec_progress: "dec b = Inr (Some f, r) \<Longrightarrow> length r < length b"
    and dec_idle: "dec b = Inr (None, r) \<Longrightarrow> r = b"
begin

lemma drain_cases:
  obtains (err) e where "dec buf = Inl e"
  | (idle) "dec buf = Inr (None, buf)"
  | (frame) f r where "dec buf = Inr (Some f, r)" "length r < length buf"
  using dec_progress dec_idle by (metis old.prod.exhaust option.exhaust sum.exhaust)

lemma drain_terminates: "drain_frames dec accepts buf out \<noteq> None"
proof (induction "length buf" arbitrary: buf out rule: less_induct)
  case less
  show ?case
    by (cases rule: drain_cases [of buf]) (auto simp: drain_frames.simps [of dec _ buf] less
        simp del: not_None_eq)
qed

lemma drain_idle:
  "drain_frames dec accepts buf out = Some (r, o1, True) \<Longrightarrow> dec r = Inr (None, r)"
proof (induction "length buf" arbitrary: buf out rule: less_induct)
  case less
  from less.prems show ?case
    by (cases rule: drain_cases [of buf])
      (auto simp: drain_frames.simps [of dec _ buf] less.hyps split: if_splits)
qed

lemma read_task_terminates: "tcp_read_task dec accepts es buf out \<noteq> None"
proof (induction es arbitrary: buf out)
  case (Cons e es)
  show ?case
  proof (cases e)
    case (ReadData chunk)
    obtain b o1 go where "drain_frames dec accepts (buf @ chunk) out = Some (b, o1, go)"
      using drain_terminates by (metis not_Some_eq prod_cases3)
    with Cons ReadData show ?thesis by (simp del: not_None_eq)
  qed auto
qed simp

end

text \<open>
  A framing codec: a complete frame is recognised whatever follows it, a framing error stays
  one, and an encoded message decodes to itself.
\<close>

locale frame_codec = progressive_decoder dec
  for dec :: decoder +
  fixes enc :: encoder
  assumes dec_stable: "dec b = Inr (Some f, r) \<Longrightarrow> dec (b @ c) = Inr (Some f, r @ c)"
    and dec_error_stable: "dec b = Inl e \<Longrightarrow> dec (b @ c) = Inl e"
    and dec_enc: "enc m = Inr iov \<Longrightarrow> dec (concat iov @ c) = Inr (Some m, c)"
    and dec_empty: "dec [] = Inr (None, [])"
begin

lemma drain_append:
  "drain_frames dec (\<lambda>_. True) b out = Some (r, o1, True) \<Longrightarrow>
     drain_frames dec (\<lambda>_. True) (b @ c) out = drain_frames dec (\<lambda>_. True) (r @ c) o1"
proof (induction "length b" arbitrary: b out rule: less_induct)
  case less
  show ?case
  proof (cases rule: drain_cases [of b])
    case (err e)
    with less.prems show ?thesis by (simp add: drain_frames.simps [of dec _ b])
  next
    case idle
    with less.prems show ?thesis by (auto simp: drain_frames.simps [of dec _ b])
  next
    case (frame f r0)
    with less.prems have "drain_frames dec (\<lambda>_. True) r0 (out @ [f]) = Some (r, o1, True)"
      by (simp add: drain_frames.simps [of dec _ b])
    with less.hyps frame(2) have "drain_frames dec (\<lambda>_. True) (r0 @ c) (out @ [f])
        = drain_frames dec (\<lambda>_. True) (r @ c) o1" by blast
    with dec_stable [OF frame(1)] show ?thesis
      by (simp add: drain_frames.simps [of dec _ "b @ c"])
  qed
qed

lemma drain_stops:
  "drain_frames dec (\<lambda>_. True) b out = Some (r, o1, False) \<Longrightarrow>
     \<exists>r'. drain_frames dec (\<lambda>_. True) (b @ c) out = Some (r', o1, False)"
proof (induction "length b" arbitrary: b out rule: less_induct)
  case less
  show ?case
  proof (cases rule: drain_cases [of b])
    case (err e)
    with less.prems have "b = r" "out = o1" by (simp_all add: drain_frames.simps [of dec _ b])
    with dec_error_stable [OF err, of c] show ?thesis
      by (simp add: drain_frames.simps [of dec _ "r @ c"])
  next
    case idle
    with less.prems show ?thesis by (simp add: drain_frames.simps [of dec _ b])
  next
    case (frame f r0)
    with less.prems have "drain_frames dec (\<lambda>_. True) r0 (out @ [f]) = Some (r, o1, False)"
      by (simp add: drain_frames.simps [of dec _ b])
    with less.hyps frame(2) dec_stable [OF frame(1)] show ?thesis
      by (simp add: drain_frames.simps [of dec _ "b @ c"])
  qed
qed

lemma drain_encode_all:
  "encode_all enc ms = Inr s \<Longrightarrow>
     drain_frames dec (\<lambda>_. True) (s @ c) out = drain_frames dec (\<lambda>_. True) c (out @ ms)"
proof (induction ms arbitrary: s out)
  case (Cons m ms)
  then obtain iov s' where m: "enc m = Inr iov" and s': "encode_all enc ms = Inr s'"
    and s: "s = concat iov @ s'" by (auto simp: and_then_Inr_iff)
  have "drain_frames dec (\<lambda>_. True) (s @ c) out
      = drain_frames dec (\<lambda>_. True) (s' @ c) (out @ [m])"
    by (subst drain_frames.simps) (simp add: s dec_enc [OF m])
  with Cons.IH [OF s'] show ?case by simp
qed simp

lemma read_task_chunks:
  assumes "drain_frames dec (\<lambda>_. True) (buf @ concat chunks) out = Some (r, o1, True)"
    and "[] \<notin> set chunks" and "dec buf = Inr (None, buf)"
  shows "tcp_read_task dec (\<lambda>_. True) (map ReadData chunks) buf out = Some (r, o1, True)"
  using assms
proof (induction chunks arbitrary: buf out)
  case Nil
  then show ?case by (simp add: drain_frames.simps [of dec _ buf])
next
  case (Cons ch chunks)
  obtain b o2 go where d: "drain_frames dec (\<lambda>_. True) (buf @ ch) out = Some (b, o2, go)"
    using drain_terminates by (metis not_Some_eq prod_cases3)
  have go
    using Cons.prems(1) drain_stops [of "buf @ ch" out b o2 "concat chunks"] d by (cases go) auto
  with d have "drain_frames dec (\<lambda>_. True) (b @ concat chunks) o2 = Some (r, o1, True)"
    using Cons.prems(1) drain_append [of "buf @ ch" out b o2 "concat chunks"] by simp
  with Cons.IH [of b o2] Cons.prems(2) d \<open>go\<close> drain_idle show ?case by auto
qed

text \<open>However the stream is cut into reads, the messages arrive whole and in order.\<close>

lemma read_task_roundtrip:
  assumes "encode_all enc ms = Inr (concat chunks)" and "[] \<notin> set chunks"
  shows "tcp_read_task dec (\<lambda>_. True) (map ReadData chunks) [] [] = Some ([], ms, True)"
proof (rule read_task_chunks [OF _ assms(2)])
  show "drain_frames dec (\<lambda>_. True) ([] @ concat chunks) [] = Some ([], ms, True)"
    using drain_encode_all [OF assms(1), of "[]" "[]"] dec_empty
    by (simp add: drain_frames.simps [of dec _ "[]"])
qed (rule dec_empty)

end

section \<open>The codecs of the program meet the contracts\<close>

interpretation raw: progressive_decoder bytes_decode
  by unfold_locales (auto simp: bytes_decode_def split: if_splits)

lemma lp_decode_frame:
  "lp_decode b = Inr (Some f, r) \<longleftrightarrow>
     4 \<le> length b \<and> unat (u32_from_be (take 4 b)) \<le> MAX_FRAME_LEN \<and>
     4 + unat (u32_from_be (take 4 b)) \<le> length b \<and>
     f = take (unat (u32_from_be (take 4 b))) (drop 4 b) \<and>
     r = drop (unat (u32_from_be (take 4 b))) (drop 4 b)"
  by (auto simp: lp_decode_def Let_def)

lemma lp_encode_ok:
  "lp_encode m = Inr iov \<longleftrightarrow>
     length m \<le> MAX_FRAME_LEN \<and> iov = [u32_to_be (of_nat (length m)), m]"
  by (auto simp: lp_encode_def MAX_FRAME_LEN_def)

lemma lp_header: "length m \<le> MAX_FRAME_LEN \<Longrightarrow> unat (of_nat (length m) :: u32) = length m"
  by (simp add: MAX_FRAME_LEN_def unat_of_nat)

interpretation lp: frame_codec lp_decode lp_encode
proof unfold_locales
  fix b f r c m iov e
  show "lp_decode b = Inr (Some f, r) \<Longrightarrow> length r < length b"
    by (auto simp: lp_decode_frame)
  show "lp_decode b = Inr (None, r) \<Longrightarrow> r = b"
    by (auto simp: lp_decode_def Let_def split: if_splits)
  show "lp_decode b = Inr (Some f, r) \<Longrightarrow> lp_decode (b @ c) = Inr (Some f, r @ c)"
    by (auto simp: lp_decode_frame)
  show "lp_decode b = Inl e \<Longrightarrow> lp_decode (b @ c) = Inl e"
    by (auto simp: lp_decode_def Let_def split: if_splits)
  show "lp_encode m = Inr iov \<Longrightarrow> lp_decode (concat iov @ c) = Inr (Some m, c)"
    by (auto simp: lp_encode_ok lp_decode_frame lp_header)
  show "lp_decode [] = Inr (None, [])"
    by (simp add: lp_decode_def)
qed

section \<open>Vectored writes\<close>

lemma concat_advance_slices: "concat (advance_slices n iov) = drop n (concat iov)"
  by (induction n iov rule: advance_slices.induct) auto

lemma write_all_vectored_prefix:
  "write_all_vectored iov evs = (out, rest, st) \<Longrightarrow> legal_writes iov evs \<Longrightarrow>
     (\<exists>tail. concat iov = out @ tail) \<and> (st = WriteDone \<longrightarrow> out = concat iov)"
proof (induction iov evs arbitrary: out rule: write_all_vectored.induct)
  case (4 b bs n evs)
  show ?case
  proof (cases "n = 0")
    case True
    with "4.prems" show ?thesis by auto
  next
    case False
    with "4.prems"(1) obtain out' where w: "write_all_vectored (advance_slices n (b # bs)) evs
        = (out', rest, st)" and out: "out = take n (concat (b # bs)) @ out'"
      by (auto simp del: advance_slices.simps split: prod.splits)
    from "4.prems"(2) have "legal_writes (advance_slices n (b # bs)) evs" by simp
    from "4.IH" [OF False w this] have
      "(\<exists>tail. drop n (concat (b # bs)) = out' @ tail)
       \<and> (st = WriteDone \<longrightarrow> out' = drop n (concat (b # bs)))"
      unfolding concat_advance_slices by assumption
    with out show ?thesis by (metis append.assoc append_take_drop_id)
  qed
qed (auto split: if_splits)

lemma advance_slices_nonempty:
  "\<forall>b \<in> set iov. b \<noteq> [] \<Longrightarrow> \<forall>b \<in> set (advance_slices n iov). b \<noteq> []"
  by (induction n iov rule: advance_slices.induct) auto

lemma write_all_vectored_completes:
  assumes "\<forall>ev \<in> set evs. \<exists>n > 0. ev = Wrote n"
    and "length (concat iov) \<le> length evs" and "\<forall>b \<in> set iov. b \<noteq> []"
  shows "snd (snd (write_all_vectored iov evs)) = WriteDone"
  using assms
proof (induction iov evs rule: write_all_vectored.induct)
  case (2 b bs)
  then show ?case by simp
next
  case (4 b bs n evs)
  from "4.prems"(1) have n: "n \<noteq> 0" by auto
  have nonempty: "\<forall>c \<in> set (advance_slices n (b # bs)). c \<noteq> []"
    using "4.prems"(3) by (rule advance_slices_nonempty)
  have "length (concat (advance_slices n (b # bs))) \<le> length evs"
    using "4.prems"(2) n by (simp only: concat_advance_slices) simp
  with "4.IH" [OF n] "4.prems"(1) nonempty
  have "snd (snd (write_all_vectored (advance_slices n (b # bs)) evs)) = WriteDone" by auto
  with n show ?case by (auto simp del: advance_slices.simps split: prod.splits)
qed auto

text \<open>The write task succeeds only when every message went out whole.\<close>

fun legal_task_writes :: "encoder \<Rightarrow> bytes list \<Rightarrow> write_event list \<Rightarrow> bool" where
  "legal_task_writes enc [] evs = True"
| "legal_task_writes enc (m # ms) evs =
     (case enc m of Inl e \<Rightarrow> True
      | Inr iov \<Rightarrow> legal_writes iov evs
          \<and> legal_task_writes enc ms (fst (snd (write_all_vectored iov evs))))"

lemma tcp_write_task_done:
  "tcp_write_task enc ms evs = (out, WriteDone) \<Longrightarrow> legal_task_writes enc ms evs \<Longrightarrow>
     encode_all enc ms = Inr out"
proof (induction ms arbitrary: evs out)
  case (Cons m ms)
  from Cons.prems(1) obtain iov where m: "enc m = Inr iov"
    by (cases "enc m") auto
  obtain o1 evs' st where w: "write_all_vectored iov evs = (o1, evs', st)"
    by (metis prod_cases3)
  with Cons.prems(1) m have st: "st = WriteDone" by (cases st) auto
  with Cons.prems(1) m w obtain o2 where t: "tcp_write_task enc ms evs' = (o2, WriteDone)"
    and out: "out = o1 @ o2" by (auto split: prod.splits)
  from Cons.prems(2) m w have "legal_writes iov evs" "legal_task_writes enc ms evs'" by auto
  with write_all_vectored_prefix [OF w] st Cons.IH [OF t] m out show ?case by simp
qed simp

section \<open>Properties\<close>


text \<open>
  A frame header that announces more than \<open>MAX_FRAME_LEN\<close> bytes ends the read task at that
  point, whatever follows it, with the frames before it delivered in order.
\<close>

theorem lp_oversize_rejected:
  assumes "encode_all lp_encode ms = Inr s" and "length hdr = 4"
    and "unat (u32_from_be hdr) > MAX_FRAME_LEN"
  shows "\<exists>r. tcp_read_task lp_decode (\<lambda>_. True) [ReadData (s @ hdr @ junk)] [] [] = Some (r, ms, False)"
proof -
  have "lp_decode (hdr @ junk) = Inl (IoError InvalidData ''frame too large'')"
    using assms(2,3) by (simp add: lp_decode_def)
  then have "drain_frames lp_decode (\<lambda>_. True) (s @ hdr @ junk) [] = Some (hdr @ junk, ms, False)"
    by (simp add: lp.drain_encode_all [OF assms(1)] drain_frames.simps [of lp_decode _ "hdr @ junk"])
  moreover from assms(2) have "s @ hdr @ junk \<noteq> []" by auto
  ultimately show ?thesis by (simp del: append_is_Nil_conv)
qed

theorem lp_oversize_rejected_witness:
  "\<exists>r. tcp_read_task lp_decode (\<lambda>_. True) [ReadData ([0, 0, 0, 1, 9] @ [0, 1, 0, 1] @ [5])] [] []
     = Some (r, [[9]], False)"
  by (rule lp_oversize_rejected)
    (simp_all add: lp_encode_def MAX_FRAME_LEN_def u32_to_be_def be_bytes_unroll u32_from_be_def
      be_val_def)

text \<open>
  With the raw codec an empty message ends the write task: the vectored write of no bytes
  returns zero, which is taken for a broken connection.
\<close>

theorem raw_codec_empty_message_closes:
  assumes "legal_writes [[]] evs" and "ev = hd evs" and "evs \<noteq> []" and "\<And>e. ev \<noteq> WriteFailed e"
  shows "tcp_write_task bytes_encode ([] # msgs) evs
    = ([], WriteErr (IoError WriteZero ''failed to write whole frame''))"
proof -
  from assms obtain n evs' where "evs = Wrote n # evs'" by (cases evs; cases ev) auto
  with assms(1) show ?thesis by (simp add: bytes_encode_def)
qed

theorem raw_codec_empty_message_closes_witness:
  "tcp_write_task bytes_encode [[], [1]] [Wrote 0, Wrote 1]
    = ([], WriteErr (IoError WriteZero ''failed to write whole frame''))"
  by (rule raw_codec_empty_message_closes [where ev = "Wrote 0"]) simp_all

end
