(* ===== verification/Udp_Tunnel.thy ===== *)
theory Udp_Tunnel
  imports Route_Table
begin

text \<open>
  \<open>rustp2p-core/src/endpoint/tunnel.rs\<close>: the dispatcher that splits the datagrams of a shared UDP
  socket into one bounded queue per five-tuple, the tunnels it creates, and the send and receive
  halves of a tunnel.
\<close>

section \<open>Bounded channels\<close>

text \<open>A \<open>tokio::sync::mpsc\<close> channel; it is closed when its receiver is gone.\<close>

record 'a chan =
  ch_queue :: "'a list"
  ch_cap :: nat
  ch_open :: bool

datatype send_result = SendOk | SendFull | SendClosed

definition chan_new :: "nat \<Rightarrow> 'a chan" where
  "chan_new cap = \<lparr>ch_queue = [], ch_cap = cap, ch_open = True\<rparr>"

definition chan_try_send :: "'a \<Rightarrow> 'a chan \<Rightarrow> send_result \<times> 'a chan" where
  "chan_try_send x c =
     (if \<not> ch_open c then (SendClosed, c)
      else if length (ch_queue c) \<ge> ch_cap c then (SendFull, c)
      else (SendOk, c\<lparr>ch_queue := ch_queue c @ [x]\<rparr>))"

definition chan_pop :: "'a chan \<Rightarrow> 'a option \<times> 'a chan" where
  "chan_pop c = (case ch_queue c of [] \<Rightarrow> (None, c) | x # xs \<Rightarrow> (Some x, c\<lparr>ch_queue := xs\<rparr>))"

definition chan_ok :: "'a chan \<Rightarrow> bool" where
  "chan_ok c \<longleftrightarrow> length (ch_queue c) \<le> ch_cap c"

text \<open>The contract of a bounded queue whose full side drops what is sent.\<close>

locale bounded_queue =
  fixes send :: "'a \<Rightarrow> 'c \<Rightarrow> send_result \<times> 'c"
    and pop :: "'c \<Rightarrow> 'a option \<times> 'c"
    and contents :: "'c \<Rightarrow> 'a list"
    and capacity :: "'c \<Rightarrow> nat"
    and alive :: "'c \<Rightarrow> bool"
    and ok :: "'c \<Rightarrow> bool"
  assumes send_room: "alive c \<Longrightarrow> length (contents c) < capacity c \<Longrightarrow>
      fst (send x c) = SendOk \<and> contents (snd (send x c)) = contents c @ [x]"
    and send_full: "alive c \<Longrightarrow> capacity c \<le> length (contents c) \<Longrightarrow> send x c = (SendFull, c)"
    and send_closed: "\<not> alive c \<Longrightarrow> send x c = (SendClosed, c)"
    and send_frame: "capacity (snd (send x c)) = capacity c" "alive (snd (send x c)) = alive c"
    and send_ok: "ok c \<Longrightarrow> ok (snd (send x c))"
    and ok_bound: "ok c \<Longrightarrow> length (contents c) \<le> capacity c"
    and pop_empty: "contents c = [] \<Longrightarrow> pop c = (None, c)"
    and pop_first: "contents c = x # xs \<Longrightarrow> fst (pop c) = Some x \<and> contents (snd (pop c)) = xs"
begin

definition send_all :: "'a list \<Rightarrow> 'c \<Rightarrow> 'c" where
  "send_all xs c = fold (\<lambda>x c. snd (send x c)) xs c"

fun pops :: "nat \<Rightarrow> 'c \<Rightarrow> 'a list" where
  "pops 0 c = []"
| "pops (Suc n) c = (case pop c of (None, _) \<Rightarrow> [] | (Some x, c') \<Rightarrow> x # pops n c')"

lemma send_all_contents:
  "alive c \<Longrightarrow> ok c \<Longrightarrow> contents (send_all xs c) = take (capacity c) (contents c @ xs)"
proof (induction xs arbitrary: c)
  case Nil
  then show ?case using ok_bound [of c] by (simp add: send_all_def)
next
  case (Cons x xs)
  have step: "send_all (x # xs) c = send_all xs (snd (send x c))" by (simp add: send_all_def)
  have IH: "contents (send_all (x # xs) c) = take (capacity c) (contents (snd (send x c)) @ xs)"
    unfolding step using Cons.IH [of "snd (send x c)"] Cons.prems send_frame send_ok by simp
  show ?case
  proof (cases "length (contents c) < capacity c")
    case True
    then show ?thesis using IH send_room [OF Cons.prems(1)] by simp
  next
    case False
    then show ?thesis using IH send_full [OF Cons.prems(1)] by simp
  qed
qed

lemma pops_contents: "pops n c = take n (contents c)"
proof (induction n arbitrary: c)
  case (Suc n)
  show ?case
  proof (cases "contents c")
    case Nil
    then show ?thesis using pop_empty [of c] by simp
  next
    case (Cons x xs)
    then show ?thesis using pop_first [of c x xs] Suc.IH [of "snd (pop c)"]
      by (auto split: prod.splits option.splits)
  qed
qed simp

lemma fifo_delivery:
  assumes "alive c" "ok c" "contents c = []"
  shows "pops (length xs) (send_all xs c) = take (capacity c) xs"
  using assms by (simp add: pops_contents send_all_contents min_def)

end

interpretation ch: bounded_queue chan_try_send chan_pop ch_queue ch_cap ch_open chan_ok
  by unfold_locales (auto simp: chan_try_send_def chan_pop_def chan_ok_def)

section \<open>The dispatcher\<close>

definition TUNNEL_CHANNEL_CAPACITY :: nat where "TUNNEL_CHANNEL_CAPACITY = 128"

text \<open>
  \<open>UdpDispatcher\<close> with the channels it created. A registration is its id, which also names the data
  channel; the channel keeps the five-tuple it was created for. A UDP tunnel is the pair of its
  route key and its id; \<open>ud_accept\<close> is the queue of new tunnels.
\<close>

type_synonym tunnel_ref = "route_key \<times> nat"

record dispatcher =
  ud_routes :: "(route_key, nat) dashmap"
  ud_next_id :: nat
  ud_chans :: "(nat, route_key \<times> bytes chan) dashmap"
  ud_accept :: "tunnel_ref chan"

definition dispatcher_new :: "nat \<Rightarrow> dispatcher" where
  "dispatcher_new cap = \<lparr>ud_routes = [], ud_next_id = 1, ud_chans = [], ud_accept = chan_new cap\<rparr>"

definition chan_of :: "nat \<Rightarrow> dispatcher \<Rightarrow> bytes chan" where
  "chan_of i d = (case dm_get (ud_chans d) i of
     Some (_, c) \<Rightarrow> c | None \<Rightarrow> \<lparr>ch_queue = [], ch_cap = TUNNEL_CHANNEL_CAPACITY, ch_open = False\<rparr>)"

definition set_chan :: "nat \<Rightarrow> bytes chan \<Rightarrow> dispatcher \<Rightarrow> dispatcher" where
  "set_chan i c d = (case dm_get (ud_chans d) i of
     Some (k, _) \<Rightarrow> d\<lparr>ud_chans := dm_insert i (k, c) (ud_chans d)\<rparr> | None \<Rightarrow> d)"

definition unregister :: "route_key \<Rightarrow> nat \<Rightarrow> dispatcher \<Rightarrow> dispatcher" where
  "unregister k i d = d\<lparr>ud_routes := dm_remove_if k (\<lambda>j. j = i) (ud_routes d)\<rparr>"

definition dispatcher_clear :: "dispatcher \<Rightarrow> dispatcher" where
  "dispatcher_clear d = d\<lparr>ud_routes := []\<rparr>"

definition unregister_local :: "socket_addr \<Rightarrow> dispatcher \<Rightarrow> dispatcher" where
  "unregister_local a d = d\<lparr>ud_routes := filter (\<lambda>(k, _). rk_local k \<noteq> a) (ud_routes d)\<rparr>"

text \<open>Dropping a receive half: its \<open>drop\<close> unregisters, then the receiver goes away.\<close>

definition close_chan :: "nat \<Rightarrow> dispatcher \<Rightarrow> dispatcher" where
  "close_chan i d = set_chan i ((chan_of i d)\<lparr>ch_open := False\<rparr>) d"

definition tunnel_drop :: "route_key \<Rightarrow> nat \<Rightarrow> dispatcher \<Rightarrow> dispatcher" where
  "tunnel_drop k i d = close_chan i (unregister k i d)"

text \<open>The vacant branch: a fresh tunnel with the datagram in its queue.\<close>

definition dispatch_new :: "route_key \<Rightarrow> bytes \<Rightarrow> dispatcher \<Rightarrow> bool \<times> dispatcher" where
  "dispatch_new k data d =
     (let i = ud_next_id d;
          c = snd (chan_try_send data (chan_new TUNNEL_CHANNEL_CAPACITY));
          d1 = d\<lparr>ud_next_id := i + 1, ud_routes := dm_insert k i (ud_routes d),
                 ud_chans := dm_insert i (k, c) (ud_chans d)\<rparr>
      in (case chan_try_send (k, i) (ud_accept d1) of
            (SendOk, a) \<Rightarrow> (True, d1\<lparr>ud_accept := a\<rparr>)
          | (SendFull, _) \<Rightarrow> (True, tunnel_drop k i d1)
          | (SendClosed, _) \<Rightarrow> (False, tunnel_drop k i d1)))"

function dispatch :: "route_key \<Rightarrow> bytes \<Rightarrow> dispatcher \<Rightarrow> bool \<times> dispatcher" where
  "dispatch k data d =
     (case dm_get (ud_routes d) k of
        Some i \<Rightarrow>
          (case chan_try_send data (chan_of i d) of
             (SendOk, c) \<Rightarrow> (True, set_chan i c d)
           | (SendFull, _) \<Rightarrow> (True, d)
           | (SendClosed, _) \<Rightarrow> dispatch k data (d\<lparr>ud_routes := dm_remove k (ud_routes d)\<rparr>))
      | None \<Rightarrow> dispatch_new k data d)"
  by pat_completeness auto

termination dispatch
  by (relation "measure (\<lambda>(k, data, d). if dm_get (ud_routes d) k = None then 0 else 1)") auto

declare dispatch.simps [simp del]

section \<open>Tunnel halves\<close>

definition is_registered :: "nat \<Rightarrow> dispatcher \<Rightarrow> bool" where
  "is_registered i d \<longleftrightarrow> i \<in> snd ` set (ud_routes d)"

text \<open>
  \<open>try_recv\<close>: an empty queue is \<open>WouldBlock\<close> while the registration holds a sender, and the end of
  the tunnel afterwards.
\<close>

definition tunnel_try_recv :: "nat \<Rightarrow> dispatcher \<Rightarrow> bytes option io_result \<times> dispatcher" where
  "tunnel_try_recv i d =
     (case chan_pop (chan_of i d) of
        (Some data, c) \<Rightarrow> (Inr (Some data), set_chan i c d)
      | (None, _) \<Rightarrow> (if is_registered i d then Inl (IoError WouldBlock []) else Inr None, d))"

text \<open>The accept side takes the next new tunnel.\<close>

definition incoming_next :: "dispatcher \<Rightarrow> tunnel_ref option \<times> dispatcher" where
  "incoming_next d = (case chan_pop (ud_accept d) of (t, a) \<Rightarrow> (t, d\<lparr>ud_accept := a\<rparr>))"

definition incoming_close :: "dispatcher \<Rightarrow> dispatcher" where
  "incoming_close d = d\<lparr>ud_accept := (ud_accept d)\<lparr>ch_open := False\<rparr>\<rparr>"

text \<open>The writers: UDP messages carry the peer address of the route key.\<close>

fun map_send_error :: "send_result \<Rightarrow> string \<Rightarrow> io_error" where
  "map_send_error SendFull closed = IoError WouldBlock []"
| "map_send_error r closed = IoError Other closed"

definition udp_try_send ::
  "route_key \<Rightarrow> bytes \<Rightarrow> (bytes \<times> socket_addr) chan \<Rightarrow> unit io_result \<times> (bytes \<times> socket_addr) chan" where
  "udp_try_send k data w =
     (case chan_try_send (data, rk_peer k) w of
        (SendOk, w') \<Rightarrow> (Inr (), w')
      | (r, w') \<Rightarrow> (Inl (map_send_error r ''UDP socket dropped''), w'))"

definition tcp_try_send :: "bytes \<Rightarrow> bytes chan \<Rightarrow> unit io_result \<times> bytes chan" where
  "tcp_try_send data w =
     (case chan_try_send data w of
        (SendOk, w') \<Rightarrow> (Inr (), w')
      | (r, w') \<Rightarrow> (Inl (map_send_error r ''TCP connection closed''), w'))"

text \<open>The waiting sends: \<open>None\<close> while the queue is full.\<close>

definition udp_send ::
  "route_key \<Rightarrow> bytes \<Rightarrow> (bytes \<times> socket_addr) chan \<Rightarrow> unit io_result option \<times> (bytes \<times> socket_addr) chan" where
  "udp_send k data w =
     (case chan_try_send (data, rk_peer k) w of
        (SendOk, w') \<Rightarrow> (Some (Inr ()), w')
      | (SendFull, w') \<Rightarrow> (None, w')
      | (SendClosed, w') \<Rightarrow> (Some (Inl (IoError Other ''UDP socket dropped'')), w'))"

definition tcp_send :: "bytes \<Rightarrow> bytes chan \<Rightarrow> unit io_result option \<times> bytes chan" where
  "tcp_send data w =
     (case chan_try_send data w of
        (SendOk, w') \<Rightarrow> (Some (Inr ()), w')
      | (SendFull, w') \<Rightarrow> (None, w')
      | (SendClosed, w') \<Rightarrow> (Some (Inl (IoError Other ''TCP connection closed'')), w'))"

section \<open>The dispatcher's invariant\<close>

text \<open>
  Every registration names a channel that was created for its key, every channel has the fixed
  capacity and at most that many datagrams, ids are never reused, and a tunnel that waits to be
  accepted has its channel.
\<close>

definition chan_key :: "dispatcher \<Rightarrow> nat \<Rightarrow> route_key option" where
  "chan_key d i = map_option fst (dm_get (ud_chans d) i)"

definition dispatcher_ok :: "dispatcher \<Rightarrow> bool" where
  "dispatcher_ok d \<longleftrightarrow> dm_wf (ud_routes d)
     \<and> (\<forall>k i. dm_get (ud_routes d) k = Some i \<longrightarrow> chan_key d i = Some k)
     \<and> (\<forall>i k c. dm_get (ud_chans d) i = Some (k, c) \<longrightarrow>
          i < ud_next_id d \<and> chan_ok c \<and> ch_cap c = TUNNEL_CHANNEL_CAPACITY)
     \<and> (\<forall>(k, i) \<in> set (ch_queue (ud_accept d)). chan_key d i = Some k)
     \<and> chan_ok (ud_accept d)"

lemma dispatcher_okD:
  assumes "dispatcher_ok d"
  shows "dm_wf (ud_routes d)"
    and "dm_get (ud_routes d) k = Some i \<Longrightarrow> chan_key d i = Some k"
    and "dm_get (ud_chans d) i = Some (k, c) \<Longrightarrow> i < ud_next_id d"
    and "dm_get (ud_chans d) i = Some (k, c) \<Longrightarrow> chan_ok c \<and> ch_cap c = TUNNEL_CHANNEL_CAPACITY"
    and "chan_ok (ud_accept d)"
  using assms unfolding dispatcher_ok_def by blast+

lemma dispatcher_ok_new: "dispatcher_ok (dispatcher_new cap)"
  by (simp add: dispatcher_ok_def dispatcher_new_def chan_new_def chan_ok_def)

lemma chan_key_cases:
  assumes "chan_key d i = Some k"
  shows "dm_get (ud_chans d) i = Some (k, chan_of i d)"
  using assms by (auto simp: chan_key_def chan_of_def)

lemma set_chan_frame [simp]:
  "chan_key (set_chan i c d) = chan_key d" "ud_routes (set_chan i c d) = ud_routes d"
  "ud_accept (set_chan i c d) = ud_accept d" "ud_next_id (set_chan i c d) = ud_next_id d"
  by (auto simp: set_chan_def chan_key_def split: option.splits)

lemma set_chan_get:
  "dm_get (ud_chans (set_chan i c d)) j =
     (if j = i then map_option (\<lambda>(k, _). (k, c)) (dm_get (ud_chans d) i) else dm_get (ud_chans d) j)"
  by (auto simp: set_chan_def split: option.splits)

text \<open>Replacing the queue of a channel by one of the same capacity that is not too long.\<close>

lemma dispatcher_ok_set_chan:
  assumes "dispatcher_ok d" "chan_ok c" "ch_cap c = TUNNEL_CHANNEL_CAPACITY"
  shows "dispatcher_ok (set_chan i c d)"
  using assms dispatcher_okD(3) [OF assms(1)] unfolding dispatcher_ok_def
  by (auto simp: set_chan_get split: if_splits)

lemma dispatcher_ok_fewer_routes:
  assumes "dispatcher_ok d" "dm_wf m" "\<And>k i. dm_get m k = Some i \<Longrightarrow> dm_get (ud_routes d) k = Some i"
  shows "dispatcher_ok (d\<lparr>ud_routes := m\<rparr>)"
  using assms unfolding dispatcher_ok_def chan_key_def by simp

lemma dispatcher_ok_unregister: "dispatcher_ok d \<Longrightarrow> dispatcher_ok (unregister k i d)"
  unfolding unregister_def
  by (rule dispatcher_ok_fewer_routes) (auto simp: dispatcher_okD(1) split: if_splits)

lemma dispatcher_ok_remove: "dispatcher_ok d \<Longrightarrow> dispatcher_ok (d\<lparr>ud_routes := dm_remove k (ud_routes d)\<rparr>)"
  by (rule dispatcher_ok_fewer_routes) (auto simp: dispatcher_okD(1) split: if_splits)

lemma dispatcher_ok_clear: "dispatcher_ok d \<Longrightarrow> dispatcher_ok (dispatcher_clear d)"
  unfolding dispatcher_clear_def by (rule dispatcher_ok_fewer_routes) auto

lemma dm_filter_keys:
  assumes "dm_wf m"
  shows "dm_wf (filter (\<lambda>(k, _). P k) m)"
    and "dm_get (filter (\<lambda>(k, _). P k) m) k = (if P k then dm_get m k else None)"
proof -
  show "dm_wf (filter (\<lambda>(k, _). P k) m)"
    using assms by (simp add: dm_wf_def distinct_map inj_on_def)
  show "dm_get (filter (\<lambda>(k, _). P k) m) k = (if P k then dm_get m k else None)"
    unfolding dm_get_def by (induction m) auto
qed

lemma dispatcher_ok_unregister_local: "dispatcher_ok d \<Longrightarrow> dispatcher_ok (unregister_local a d)"
  unfolding unregister_local_def
  by (rule dispatcher_ok_fewer_routes)
    (auto simp: dm_filter_keys [OF dispatcher_okD(1), of d "\<lambda>k. rk_local k \<noteq> a"] split: if_splits)

lemma chan_of_ok:
  assumes "dispatcher_ok d"
  shows "chan_ok (chan_of i d)" "ch_cap (chan_of i d) = TUNNEL_CHANNEL_CAPACITY"
  using dispatcher_okD(4) [OF assms, of i] by (auto simp: chan_of_def chan_ok_def split: option.splits)

lemma dispatcher_ok_close: "dispatcher_ok d \<Longrightarrow> dispatcher_ok (close_chan i d)"
  unfolding close_chan_def using chan_of_ok [of d i]
  by (intro dispatcher_ok_set_chan) (simp_all add: chan_ok_def)

lemma dispatcher_ok_drop: "dispatcher_ok d \<Longrightarrow> dispatcher_ok (tunnel_drop k i d)"
  by (simp add: tunnel_drop_def dispatcher_ok_close dispatcher_ok_unregister)

text \<open>The loop runs at most twice: a closed registration is removed and then found vacant.\<close>

lemma dispatch_eq:
  "dispatch k data d =
     (case dm_get (ud_routes d) k of
        None \<Rightarrow> dispatch_new k data d
      | Some i \<Rightarrow>
          if ch_open (chan_of i d)
          then (True, set_chan i (snd (chan_try_send data (chan_of i d))) d)
          else dispatch_new k data (d\<lparr>ud_routes := dm_remove k (ud_routes d)\<rparr>))"
proof (cases "dm_get (ud_routes d) k")
  case (Some i)
  have same: "set_chan i (chan_of i d) d = d"
  proof (cases "dm_get (ud_chans d) i")
    case (Some kc)
    then have "dm_insert i (fst kc, snd kc) (ud_chans d) = ud_chans d"
      by (simp add: dm_insert_def dm_get_def update_triv)
    with Some show ?thesis by (cases kc) (simp add: set_chan_def chan_of_def)
  qed (simp add: set_chan_def)
  show ?thesis
    by (subst dispatch.simps)
      (auto simp: Some same chan_try_send_def dispatch.simps [of k data "d\<lparr>ud_routes := dm_remove k (ud_routes d)\<rparr>"])
qed (simp add: dispatch.simps)

lemma fresh_id: "dispatcher_ok d \<Longrightarrow> dm_get (ud_chans d) (ud_next_id d) = None"
  using dispatcher_okD(3) [of d "ud_next_id d"] by (cases "dm_get (ud_chans d) (ud_next_id d)") auto

definition fresh_tunnel :: "route_key \<Rightarrow> bytes \<Rightarrow> dispatcher \<Rightarrow> dispatcher" where
  "fresh_tunnel k data d = d\<lparr>ud_next_id := ud_next_id d + 1, ud_routes := dm_insert k (ud_next_id d) (ud_routes d),
     ud_chans := dm_insert (ud_next_id d) (k, \<lparr>ch_queue = [data], ch_cap = TUNNEL_CHANNEL_CAPACITY, ch_open = True\<rparr>) (ud_chans d)\<rparr>"

lemma dispatch_new_eq:
  "dispatch_new k data d =
     (let i = ud_next_id d; d1 = fresh_tunnel k data d
      in (if \<not> ch_open (ud_accept d) then (False, tunnel_drop k i d1)
          else if ch_cap (ud_accept d) \<le> length (ch_queue (ud_accept d)) then (True, tunnel_drop k i d1)
          else (True, d1\<lparr>ud_accept := (ud_accept d)\<lparr>ch_queue := ch_queue (ud_accept d) @ [(k, i)]\<rparr>\<rparr>)))"
  by (simp add: dispatch_new_def fresh_tunnel_def chan_try_send_def chan_new_def TUNNEL_CHANNEL_CAPACITY_def Let_def)

lemma fresh_tunnel_key:
  "chan_key (fresh_tunnel k data d) = (chan_key d)(ud_next_id d \<mapsto> k)"
  by (rule ext) (simp add: chan_key_def fresh_tunnel_def)

lemma dispatcher_ok_fresh: 
  assumes "dispatcher_ok d"
  shows "dispatcher_ok (fresh_tunnel k data d)"
proof -
  have fresh: "chan_key d (ud_next_id d) = None" using fresh_id [OF assms] by (simp add: chan_key_def)
  have ids: "dm_get (ud_chans d) i = Some (k', c) \<Longrightarrow> i < Suc (ud_next_id d)" for i k' c
    using dispatcher_okD(3) [OF assms] by fastforce
  have "ud_accept (fresh_tunnel k data d) = ud_accept d" by (simp add: fresh_tunnel_def)
  then show ?thesis
    using assms fresh ids unfolding dispatcher_ok_def fresh_tunnel_key
    by (auto simp: fresh_tunnel_def chan_ok_def [of "\<lparr>ch_queue = _, ch_cap = _, ch_open = _\<rparr>"] TUNNEL_CHANNEL_CAPACITY_def)
qed

lemma dispatcher_ok_accept:
  assumes "dispatcher_ok d" "chan_ok a" "\<And>k i. (k, i) \<in> set (ch_queue a) \<Longrightarrow> chan_key d i = Some k"
  shows "dispatcher_ok (d\<lparr>ud_accept := a\<rparr>)"
  using assms unfolding dispatcher_ok_def chan_key_def by auto

lemma accept_keys: "dispatcher_ok d \<Longrightarrow> (k, i) \<in> set (ch_queue (ud_accept d)) \<Longrightarrow> chan_key d i = Some k"
  unfolding dispatcher_ok_def by blast

lemma dispatcher_ok_dispatch_new:
  assumes "dispatcher_ok d"
  shows "dispatcher_ok (snd (dispatch_new k data d))"
proof -
  note ok = dispatcher_ok_fresh [OF assms, of k data]
  have "chan_key (fresh_tunnel k data d) i = Some k'" if "(k', i) \<in> set (ch_queue (ud_accept d) @ [(k, ud_next_id d)])" for i k'
    using that accept_keys [OF assms, of k' i] fresh_id [OF assms] by (auto simp: fresh_tunnel_key chan_key_def)
  then show ?thesis
    using ok dispatcher_ok_drop [OF ok]
    by (auto simp: dispatch_new_eq Let_def chan_ok_def intro!: dispatcher_ok_accept)
qed

lemma dispatcher_ok_dispatch:
  assumes "dispatcher_ok d"
  shows "dispatcher_ok (snd (dispatch k data d))"
proof -
  have "chan_ok (snd (chan_try_send data (chan_of i d)))"
    "ch_cap (snd (chan_try_send data (chan_of i d))) = TUNNEL_CHANNEL_CAPACITY" for i
    using chan_of_ok [OF assms] by (simp_all add: ch.send_ok ch.send_frame)
  then show ?thesis
    using assms by (auto simp: dispatch_eq dispatcher_ok_dispatch_new dispatcher_ok_remove dispatcher_ok_set_chan
        split: option.splits)
qed

lemma dispatcher_ok_try_recv: "dispatcher_ok d \<Longrightarrow> dispatcher_ok (snd (tunnel_try_recv i d))"
  using chan_of_ok [of d i]
  by (auto simp: tunnel_try_recv_def chan_pop_def chan_ok_def split: list.splits intro!: dispatcher_ok_set_chan)

lemma dispatcher_ok_incoming: "dispatcher_ok d \<Longrightarrow> dispatcher_ok (snd (incoming_next d))"
  using accept_keys [of d] dispatcher_okD(5) [of d]
  by (auto simp: incoming_next_def chan_pop_def chan_ok_def split: list.splits intro!: dispatcher_ok_accept)

lemma dispatcher_ok_incoming_close: "dispatcher_ok d \<Longrightarrow> dispatcher_ok (incoming_close d)"
  using accept_keys [of d] dispatcher_okD(5) [of d]
  by (auto simp: incoming_close_def chan_ok_def intro!: dispatcher_ok_accept)

section \<open>Runs of a dispatcher\<close>

text \<open>
  The steps of a dispatcher: datagrams, the two halves of dropping a tunnel as separate steps,
  receives, the accept side, the end of a socket's reader and the shutdown.
\<close>

inductive udp_step :: "dispatcher \<Rightarrow> dispatcher \<Rightarrow> bool" where
  step_dispatch: "udp_step d (snd (dispatch k data d))"
| step_recv: "udp_step d (snd (tunnel_try_recv i d))"
| step_unregister: "udp_step d (unregister k i d)"
| step_close: "udp_step d (close_chan i d)"
| step_next: "udp_step d (snd (incoming_next d))"
| step_incoming_close: "udp_step d (incoming_close d)"
| step_socket_end: "udp_step d (unregister_local a d)"
| step_clear: "udp_step d (dispatcher_clear d)"

inductive_cases udp_stepE: "udp_step d d'"

inductive udp_reachable :: "dispatcher \<Rightarrow> bool" where
  init: "udp_reachable (dispatcher_new cap)"
| step: "udp_reachable d \<Longrightarrow> udp_step d d' \<Longrightarrow> udp_reachable d'"

lemma udp_step_ok: "udp_step d d' \<Longrightarrow> dispatcher_ok d \<Longrightarrow> dispatcher_ok d'"
  by (induction rule: udp_step.induct)
    (simp_all add: dispatcher_ok_dispatch dispatcher_ok_try_recv dispatcher_ok_unregister dispatcher_ok_close
      dispatcher_ok_incoming dispatcher_ok_incoming_close dispatcher_ok_unregister_local dispatcher_ok_clear)

lemma udp_reachable_ok: "udp_reachable d \<Longrightarrow> dispatcher_ok d"
  by (induction rule: udp_reachable.induct) (auto intro: dispatcher_ok_new udp_step_ok)

lemma dispatch_reachable: "udp_reachable d \<Longrightarrow> udp_reachable (snd (dispatch k data d))"
  by (rule udp_reachable.step [OF _ udp_step.step_dispatch])

lemma drop_reachable: "udp_reachable d \<Longrightarrow> udp_reachable (tunnel_drop k i d)"
  unfolding tunnel_drop_def by (blast intro: udp_reachable.step udp_step.step_unregister udp_step.step_close)

text \<open>The datagrams that wait for the tunnel of a key.\<close>

definition mailbox :: "route_key \<Rightarrow> dispatcher \<Rightarrow> bytes list option" where
  "mailbox k d = (case dm_get (ud_routes d) k of
     Some i \<Rightarrow> if ch_open (chan_of i d) then Some (ch_queue (chan_of i d)) else None | None \<Rightarrow> None)"

lemma chan_of_set_chan:
  "chan_of j (set_chan i c d) = (if j = i \<and> chan_key d i \<noteq> None then c else chan_of j d)"
  by (auto simp: chan_of_def set_chan_get chan_key_def split: option.splits)

lemma registered_distinct:
  assumes "dispatcher_ok d" "dm_get (ud_routes d) k = Some i" "dm_get (ud_routes d) k' = Some i"
  shows "k = k'"
  using dispatcher_okD(2) [OF assms(1,2)] dispatcher_okD(2) [OF assms(1,3)] by simp

lemma tunnel_drop_frame:
  "ud_accept (tunnel_drop k i d) = ud_accept d"
  "ud_routes (tunnel_drop k i d) = dm_remove_if k (\<lambda>j. j = i) (ud_routes d)"
  "j \<noteq> i \<Longrightarrow> chan_of j (tunnel_drop k i d) = chan_of j d"
  by (simp_all add: tunnel_drop_def close_chan_def unregister_def chan_of_set_chan)
    (simp add: chan_of_def)

lemma fresh_tunnel_frame:
  "ud_accept (fresh_tunnel k data d) = ud_accept d"
  "ud_routes (fresh_tunnel k data d) = dm_insert k (ud_next_id d) (ud_routes d)"
  "chan_of j (fresh_tunnel k data d) =
     (if j = ud_next_id d then \<lparr>ch_queue = [data], ch_cap = TUNNEL_CHANNEL_CAPACITY, ch_open = True\<rparr> else chan_of j d)"
  by (simp_all add: fresh_tunnel_def chan_of_def)

lemma registered_old: "dispatcher_ok d \<Longrightarrow> dm_get (ud_routes d) k = Some i \<Longrightarrow> i < ud_next_id d"
  by (metis chan_key_cases dispatcher_okD(2,3))

section \<open>Refinement: one mailbox per five-tuple\<close>

text \<open>
  The abstract dispatcher is a map from five-tuples to queues: a datagram is appended to the queue
  of its five-tuple, dropped when that is full, and opens a new one when there is none and the
  accept side takes another tunnel.
\<close>

definition deliver ::
  "bool \<Rightarrow> route_key \<Rightarrow> bytes \<Rightarrow> (route_key \<rightharpoonup> bytes list) \<Rightarrow> (route_key \<rightharpoonup> bytes list)" where
  "deliver accepting k data boxes =
     (case boxes k of
        Some q \<Rightarrow> boxes(k \<mapsto> take TUNNEL_CHANNEL_CAPACITY (q @ [data]))
      | None \<Rightarrow> if accepting then boxes(k \<mapsto> [data]) else boxes)"

definition accepts :: "dispatcher \<Rightarrow> bool" where
  "accepts d \<longleftrightarrow> ch_open (ud_accept d) \<and> length (ch_queue (ud_accept d)) < ch_cap (ud_accept d)"

definition mailboxes :: "dispatcher \<Rightarrow> route_key \<rightharpoonup> bytes list" where
  "mailboxes d = (\<lambda>k. mailbox k d)"

lemma mailbox_cong:
  assumes "dm_get (ud_routes d) k = dm_get (ud_routes d') k"
    and "\<And>i. dm_get (ud_routes d) k = Some i \<Longrightarrow> chan_of i d = chan_of i d'"
  shows "mailbox k d = mailbox k d'"
  using assms by (auto simp: mailbox_def split: option.splits)

lemma dispatch_new_mailboxes:
  assumes ok: "dispatcher_ok d" and none: "dm_get (ud_routes d) k = None"
  shows "mailboxes (snd (dispatch_new k data d)) = deliver (accepts d) k data (mailboxes d)"
    and "fst (dispatch_new k data d) \<longleftrightarrow> ch_open (ud_accept d)"
proof -
  let ?d' = "snd (dispatch_new k data d)"
  have box: "mailbox k d = None" using none by (simp add: mailbox_def)
  have other: "mailbox k' ?d' = mailbox k' d" if "k' \<noteq> k" for k'
  proof (rule mailbox_cong)
    show "dm_get (ud_routes ?d') k' = dm_get (ud_routes d) k'"
      using that by (simp add: dispatch_new_eq Let_def tunnel_drop_frame fresh_tunnel_frame)
    fix i assume "dm_get (ud_routes ?d') k' = Some i"
    then have "i \<noteq> ud_next_id d"
      using registered_old [OF ok, of k' i] that by (auto simp: dispatch_new_eq Let_def tunnel_drop_frame fresh_tunnel_frame split: if_splits)
    then show "chan_of i ?d' = chan_of i d"
      by (simp add: dispatch_new_eq Let_def tunnel_drop_frame fresh_tunnel_frame) (simp add: chan_of_def fresh_tunnel_def)
  qed
  have "mailbox k ?d' = (if accepts d then Some [data] else None)"
    by (auto simp: mailbox_def dispatch_new_eq Let_def tunnel_drop_frame fresh_tunnel_frame accepts_def)
      (simp_all add: chan_of_def fresh_tunnel_def)
  then have "mailboxes ?d' k' = deliver (accepts d) k data (mailboxes d) k'" for k'
    using other [of k'] box by (cases "k' = k") (auto simp: mailboxes_def deliver_def)
  then show "mailboxes ?d' = deliver (accepts d) k data (mailboxes d)" by (rule ext)
  show "fst (dispatch_new k data d) \<longleftrightarrow> ch_open (ud_accept d)"
    by (simp add: dispatch_new_eq Let_def)
qed

lemma dispatch_mailboxes:
  assumes ok: "dispatcher_ok d"
  shows "mailboxes (snd (dispatch k data d)) = deliver (accepts d) k data (mailboxes d)"
    and "fst (dispatch k data d) \<longleftrightarrow> mailbox k d \<noteq> None \<or> ch_open (ud_accept d)"
proof -
  let ?d0 = "d\<lparr>ud_routes := dm_remove k (ud_routes d)\<rparr>"
  have removed: "mailboxes ?d0 = mailboxes d" if "mailbox k d = None"
  proof
    fix k' show "mailboxes ?d0 k' = mailboxes d k'"
    proof (cases "k' = k")
      case True
      then show ?thesis using that by (simp add: mailboxes_def mailbox_def)
    next
      case False
      then show ?thesis unfolding mailboxes_def by (intro mailbox_cong) (simp_all add: chan_of_def)
    qed
  qed
  consider (none) "dm_get (ud_routes d) k = None"
    | (dead) i where "dm_get (ud_routes d) k = Some i" "\<not> ch_open (chan_of i d)"
    | (live) i where "dm_get (ud_routes d) k = Some i" "ch_open (chan_of i d)" by blast
  then have "mailboxes (snd (dispatch k data d)) = deliver (accepts d) k data (mailboxes d)
    \<and> (fst (dispatch k data d) \<longleftrightarrow> mailbox k d \<noteq> None \<or> ch_open (ud_accept d))"
  proof cases
    case none
    then show ?thesis using dispatch_new_mailboxes [OF ok none] by (simp add: dispatch_eq mailbox_def)
  next
    case dead
    then have "mailbox k d = None" by (simp add: mailbox_def)
    moreover have "accepts ?d0 = accepts d" by (simp add: accepts_def)
    ultimately show ?thesis
      using dispatch_new_mailboxes [OF dispatcher_ok_remove [OF ok, of k], of k] dead removed by (simp add: dispatch_eq)
  next
    case live
    let ?c = "snd (chan_try_send data (chan_of i d))"
    have key: "chan_key d i = Some k" by (rule dispatcher_okD(2) [OF ok live(1)])
    have q: "ch_queue ?c = take TUNNEL_CHANNEL_CAPACITY (ch_queue (chan_of i d) @ [data])"
      using chan_of_ok [OF ok, of i] live(2) by (auto simp: chan_try_send_def chan_ok_def)
    have "mailbox k' (set_chan i ?c d) = mailbox k' d" if "k' \<noteq> k" for k'
      using that registered_distinct [OF ok live(1), of k'] by (intro mailbox_cong) (auto simp: chan_of_set_chan)
    moreover have "mailbox k (set_chan i ?c d) = Some (take TUNNEL_CHANNEL_CAPACITY (ch_queue (chan_of i d) @ [data]))"
      using live key q by (simp add: mailbox_def chan_of_set_chan ch.send_frame)
    ultimately show ?thesis
      using live by (auto simp: dispatch_eq mailboxes_def deliver_def mailbox_def fun_eq_iff)
  qed
  then show "mailboxes (snd (dispatch k data d)) = deliver (accepts d) k data (mailboxes d)"
    "fst (dispatch k data d) \<longleftrightarrow> mailbox k d \<noteq> None \<or> ch_open (ud_accept d)" by blast+
qed

section \<open>Properties\<close>

text \<open>
  C26: in every state of the dispatcher that its operations, in any order, lead to, a registration
  belongs to a channel of the same five-tuple, two five-tuples never share a channel, no channel
  holds more than 128 datagrams, and the tunnels that wait to be accepted have their channels.
\<close>

theorem udp_dispatcher_invariant:
  assumes "udp_reachable d"
  shows "dispatcher_ok d
    \<and> (\<forall>k k' i. dm_get (ud_routes d) k = Some i \<longrightarrow> dm_get (ud_routes d) k' = Some i \<longrightarrow> k = k')
    \<and> length (ch_queue (chan_of i d)) \<le> 128"
proof -
  have ok: "dispatcher_ok d" by (rule udp_reachable_ok [OF assms])
  then show ?thesis
    using registered_distinct [OF ok] chan_of_ok [OF ok, of i] by (auto simp: chan_ok_def TUNNEL_CHANNEL_CAPACITY_def)
qed

definition tunnel_key :: "u16 \<Rightarrow> route_key" where
  "tunnel_key port = route_key_new UDP (SockV4 v4_unspecified 3000) (SockV4 (Ipv4Addr 127 0 0 1) port)"

definition sample_dispatcher :: dispatcher where
  "sample_dispatcher = snd (dispatch (tunnel_key 4001) [7] (snd (dispatch (tunnel_key 4000) [1] (dispatcher_new 4))))"

lemma sample_dispatcher_reachable: "udp_reachable sample_dispatcher"
  unfolding sample_dispatcher_def by (intro dispatch_reachable udp_reachable.init)

theorem udp_dispatcher_invariant_witness:
  "dispatcher_ok sample_dispatcher \<and> length (ch_queue (chan_of 1 sample_dispatcher)) \<le> 128"
  using udp_dispatcher_invariant [OF sample_dispatcher_reachable] by blast

text \<open>
  C25: the dispatcher implements one bounded mailbox per five-tuple: a datagram is appended to the
  mailbox of exactly its own five-tuple, dropped when that holds 128 datagrams, and opens a new
  mailbox when there is none and the accept queue has room; all other mailboxes stay as they are.
  It reports failure exactly when the datagram needs a new tunnel and the accept side is gone.
\<close>

theorem udp_dispatch_refines_mailboxes:
  assumes "udp_reachable d"
  shows "mailboxes (snd (dispatch k data d)) = deliver (accepts d) k data (mailboxes d)
    \<and> (fst (dispatch k data d) \<longleftrightarrow> mailboxes d k \<noteq> None \<or> ch_open (ud_accept d))"
  using dispatch_mailboxes [OF udp_reachable_ok [OF assms]] by (simp add: mailboxes_def)

lemma sample_mailboxes:
  "mailboxes sample_dispatcher (tunnel_key 4000) = Some [[1]]"
  by (simp add: mailboxes_def mailbox_def sample_dispatcher_def dispatch_eq dispatch_new_eq Let_def
      dispatcher_new_def chan_new_def fresh_tunnel_frame tunnel_key_def route_key_new_def)
    (simp add: fresh_tunnel_def chan_of_def)

theorem udp_dispatch_refines_mailboxes_witness:
  "mailboxes (snd (dispatch (tunnel_key 4000) [2] sample_dispatcher)) (tunnel_key 4000) = Some [[1], [2]]"
  using udp_dispatch_refines_mailboxes [OF sample_dispatcher_reachable, of "tunnel_key 4000" "[2]"]
  by (simp add: deliver_def sample_mailboxes TUNNEL_CHANNEL_CAPACITY_def)

text \<open>The datagrams of all five-tuples of a socket, in order of arrival.\<close>

definition dispatch_datagrams :: "(route_key \<times> bytes) list \<Rightarrow> dispatcher \<Rightarrow> dispatcher" where
  "dispatch_datagrams evs d = fold (\<lambda>(k, data) d. snd (dispatch k data d)) evs d"

lemma take_take_append: "take n (take n (xs @ [x]) @ ys) = take n (xs @ x # ys)"
  by (cases "length xs < n") (auto simp: take_Cons' min_def)

lemma dispatch_datagrams_mailbox:
  "udp_reachable d \<Longrightarrow> mailboxes d k = Some q \<Longrightarrow> length q \<le> TUNNEL_CHANNEL_CAPACITY \<Longrightarrow>
     mailboxes (dispatch_datagrams evs d) k =
       Some (take TUNNEL_CHANNEL_CAPACITY (q @ map snd (filter (\<lambda>(k', _). k' = k) evs)))"
proof (induction evs arbitrary: d q)
  case (Cons ev evs)
  obtain k' data where ev: "ev = (k', data)" by (cases ev)
  let ?d = "snd (dispatch k' data d)"
  have step: "dispatch_datagrams (ev # evs) d = dispatch_datagrams evs ?d" by (simp add: dispatch_datagrams_def ev)
  have reach: "udp_reachable ?d" by (rule dispatch_reachable [OF Cons.prems(1)])
  have box: "mailboxes ?d k = Some (if k' = k then take TUNNEL_CHANNEL_CAPACITY (q @ [data]) else q)"
    using dispatch_mailboxes(1) [OF udp_reachable_ok [OF Cons.prems(1)], of k' data] Cons.prems(2)
    by (auto simp: deliver_def split: option.splits)
  show ?case
    unfolding step using Cons.IH [OF reach box] Cons.prems(3)
    by (cases "k' = k") (simp_all add: ev take_take_append del: take_append)
qed (simp add: dispatch_datagrams_def)

text \<open>
  Demultiplexing is isolated, ordered and lossless up to the bound: while a tunnel is open and
  its owner does not read, the datagrams of all five-tuples arriving in any interleaving leave in
  its queue exactly the first 128 of what it held and of what arrived for it, in that order.
\<close>

theorem udp_demultiplexing:
  assumes "udp_reachable d" "mailboxes d k = Some q"
  shows "mailboxes (dispatch_datagrams evs d) k = Some (take 128 (q @ map snd (filter (\<lambda>(k', _). k' = k) evs)))"
proof -
  obtain i where "q = ch_queue (chan_of i d)"
    using assms(2) by (auto simp: mailboxes_def mailbox_def split: option.splits if_splits)
  then have "length q \<le> TUNNEL_CHANNEL_CAPACITY"
    using chan_of_ok [OF udp_reachable_ok [OF assms(1)], of i] by (simp add: chan_ok_def)
  from dispatch_datagrams_mailbox [OF assms this] show ?thesis by (simp add: TUNNEL_CHANNEL_CAPACITY_def)
qed

theorem udp_demultiplexing_witness:
  "mailboxes (dispatch_datagrams [(tunnel_key 4000, [2]), (tunnel_key 4001, [8]), (tunnel_key 4000, [3])] sample_dispatcher)
     (tunnel_key 4000) = Some [[1], [2], [3]]"
  using udp_demultiplexing [OF sample_dispatcher_reachable sample_mailboxes,
      of "[(tunnel_key 4000, [2]), (tunnel_key 4001, [8]), (tunnel_key 4000, [3])]"]
  by (simp add: tunnel_key_def route_key_new_def)

text \<open>
  Dropping a tunnel whose five-tuple has meanwhile been taken over by a newer tunnel changes
  no mailbox: the id in the registration protects the successor. Dropping the registered tunnel
  closes exactly its own mailbox.
\<close>

theorem tunnel_drop_spec:
  assumes "udp_reachable d" "chan_key d i = Some k"
  shows "mailboxes (tunnel_drop k i d) =
    (if dm_get (ud_routes d) k = Some i then (mailboxes d)(k := None) else mailboxes d)"
proof -
  note ok = udp_reachable_ok [OF assms(1)]
  have other: "mailbox k' (tunnel_drop k i d) = mailbox k' d" if "dm_get (ud_routes d) k' \<noteq> Some i" for k'
  proof (rule mailbox_cong)
    show "dm_get (ud_routes (tunnel_drop k i d)) k' = dm_get (ud_routes d) k'"
      using that by (auto simp: tunnel_drop_frame)
    fix j assume "dm_get (ud_routes (tunnel_drop k i d)) k' = Some j"
    then have "j \<noteq> i" using that by (auto simp: tunnel_drop_frame split: if_splits)
    then show "chan_of j (tunnel_drop k i d) = chan_of j d" by (simp add: tunnel_drop_frame)
  qed
  have "dm_get (ud_routes d) k' \<noteq> Some i" if "k' \<noteq> k" for k'
    using dispatcher_okD(2) [OF ok, of k' i] assms(2) that by auto
  moreover have "mailbox k (tunnel_drop k i d) = None" if "dm_get (ud_routes d) k = Some i"
    using that by (simp add: mailbox_def tunnel_drop_frame)
  ultimately have "mailboxes (tunnel_drop k i d) k' =
      (if dm_get (ud_routes d) k = Some i then (mailboxes d)(k := None) else mailboxes d) k'" for k'
    using other [of k'] by (cases "k' = k") (auto simp: mailboxes_def)
  then show ?thesis by (rule ext)
qed

text \<open>The first tunnel of the five-tuple was unregistered, a second one took over, the first is dropped.\<close>

definition succeeded_dispatcher :: dispatcher where
  "succeeded_dispatcher = snd (dispatch (tunnel_key 4000) [9] (unregister (tunnel_key 4000) 1 sample_dispatcher))"

lemma succeeded_dispatcher_facts:
  "udp_reachable succeeded_dispatcher" "chan_key succeeded_dispatcher 1 = Some (tunnel_key 4000)"
  "dm_get (ud_routes succeeded_dispatcher) (tunnel_key 4000) \<noteq> Some 1"
proof -
  show "udp_reachable succeeded_dispatcher"
    unfolding succeeded_dispatcher_def
    by (intro dispatch_reachable udp_reachable.step [OF sample_dispatcher_reachable udp_step.step_unregister])
  show "chan_key succeeded_dispatcher 1 = Some (tunnel_key 4000)"
    "dm_get (ud_routes succeeded_dispatcher) (tunnel_key 4000) \<noteq> Some 1"
    by (simp_all add: succeeded_dispatcher_def sample_dispatcher_def dispatch_eq dispatch_new_eq Let_def
        dispatcher_new_def chan_new_def fresh_tunnel_def tunnel_key_def route_key_new_def unregister_def
        tunnel_drop_def close_chan_def chan_key_def chan_of_def)
qed

theorem tunnel_drop_spec_witness:
  "mailboxes (tunnel_drop (tunnel_key 4000) 1 succeeded_dispatcher) = mailboxes succeeded_dispatcher"
  using tunnel_drop_spec [OF succeeded_dispatcher_facts(1,2)] succeeded_dispatcher_facts(3) by simp

end
