(* ===== verification/Socket_Pool.thy ===== *)
theory Socket_Pool
  imports Udp_Tunnel Punch
begin

text \<open>
  \<open>rustp2p-core/src/endpoint/pool.rs\<close>: the pool of UDP sockets and the sends through it, the choice
  of the socket model by NAT type, the reader and writer tasks of a UDP socket in their single and
  batched form, the conversion of socket addresses for the batched system calls, and the
  publication of TCP connections. A socket is a number; the kernel's answers are arguments.
\<close>

section \<open>The pool\<close>

record socket_pool =
  sp_main_v4 :: nat
  sp_main_v6 :: "nat option"
  sp_assistants :: "nat list"

definition socket_pool_new :: "nat \<Rightarrow> nat option \<Rightarrow> socket_pool" where
  "socket_pool_new v4 v6 = \<lparr>sp_main_v4 = v4, sp_main_v6 = v6, sp_assistants = []\<rparr>"

definition add_assistant_udp :: "nat \<Rightarrow> socket_pool \<Rightarrow> socket_pool" where
  "add_assistant_udp s pool = pool\<lparr>sp_assistants := sp_assistants pool @ [s]\<rparr>"

definition clean_assistant_udp :: "socket_pool \<Rightarrow> socket_pool" where
  "clean_assistant_udp pool = pool\<lparr>sp_assistants := []\<rparr>"

definition assistant_count :: "socket_pool \<Rightarrow> nat" where
  "assistant_count pool = length (sp_assistants pool)"

definition udp_sockets :: "socket_pool \<Rightarrow> nat list" where
  "udp_sockets pool = [sp_main_v4 pool] @ (case sp_main_v6 pool of None \<Rightarrow> [] | Some s \<Rightarrow> [s]) @ sp_assistants pool"

text \<open>
  The sends: the sockets a datagram is handed to. \<open>send_to\<close> reports the outcome of its socket, the
  others ignore it.
\<close>

type_synonym socket_send = "nat \<times> socket_addr"

definition pool_send_to ::
  "(nat \<Rightarrow> socket_addr \<Rightarrow> unit io_result) \<Rightarrow> socket_pool \<Rightarrow> socket_addr \<Rightarrow> unit io_result \<times> socket_send list" where
  "pool_send_to try_send_to pool addr =
     (if sa_is_ipv4 addr then
        ((case try_send_to (sp_main_v4 pool) addr of Inr _ \<Rightarrow> Inr () | Inl _ \<Rightarrow> Inl (IoError Other ''send failed'')),
         [(sp_main_v4 pool, addr)])
      else
        (case sp_main_v6 pool of
           None \<Rightarrow> (Inl (IoError Other ''IPv6 main socket not available''), [])
         | Some v6 \<Rightarrow>
             ((case try_send_to v6 addr of Inr _ \<Rightarrow> Inr () | Inl _ \<Rightarrow> Inl (IoError Other ''send failed'')),
              [(v6, addr)])))"

definition try_send_via_assistants :: "socket_pool \<Rightarrow> socket_addr \<Rightarrow> socket_send list" where
  "try_send_via_assistants pool addr =
     (if \<not> sa_is_ipv4 addr then [] else map (\<lambda>s. (s, addr)) (sp_assistants pool))"

definition try_send_via_all :: "socket_pool \<Rightarrow> socket_addr \<Rightarrow> socket_send list" where
  "try_send_via_all pool addr =
     (if sa_is_ipv4 addr then (sp_main_v4 pool, addr) # map (\<lambda>s. (s, addr)) (sp_assistants pool)
      else (case sp_main_v6 pool of None \<Rightarrow> [] | Some v6 \<Rightarrow> [(v6, addr)]))"

text \<open>
  \<open>Puncher::apply_nat_model\<close>: \<open>bind i\<close> is the outcome of the \<open>i\<close>-th bind, and the first error ends
  the loop.
\<close>

fun add_assistants :: "nat \<Rightarrow> (nat \<Rightarrow> nat io_result) \<Rightarrow> nat \<Rightarrow> socket_pool \<Rightarrow> unit io_result \<times> socket_pool" where
  "add_assistants 0 bind i pool = (Inr (), pool)"
| "add_assistants (Suc n) bind i pool =
     (case bind i of
        Inl e \<Rightarrow> (Inl e, pool)
      | Inr s \<Rightarrow> add_assistants n bind (Suc i) (add_assistant_udp s pool))"

definition apply_nat_model ::
  "nat_query_config \<Rightarrow> (nat \<Rightarrow> nat io_result) \<Rightarrow> nat_type \<Rightarrow> socket_pool \<Rightarrow> unit io_result \<times> socket_pool" where
  "apply_nat_model cfg bind t pool =
     (case t of
        Symmetric \<Rightarrow>
          (let current = assistant_count pool; target = nc_max_assistants cfg
           in if target > current then add_assistants (target - current) bind current pool else (Inr (), pool))
      | Cone \<Rightarrow> (Inr (), if assistant_count pool > 0 then clean_assistant_udp pool else pool))"

text \<open>The sends of a punch round on the pool.\<close>

fun run_punch_send :: "socket_pool \<Rightarrow> punch_send \<Rightarrow> socket_send list" where
  "run_punch_send pool (SendMain a) = snd (pool_send_to (\<lambda>_ _. Inr ()) pool a)"
| "run_punch_send pool (SendAll a) = try_send_via_all pool a"

section \<open>The reader task\<close>

text \<open>
  An error of the kernel is its kind and the code it came with. The recoverable codes are those of
  Linux (\<open>ECONNREFUSED\<close>, \<open>ECONNRESET\<close>, \<open>ECONNABORTED\<close>, \<open>EHOSTUNREACH\<close>, \<open>ENETUNREACH\<close>,
  \<open>EADDRNOTAVAIL\<close>, \<open>EPROTO\<close>, \<open>EMSGSIZE\<close>).
\<close>

definition recoverable_codes :: "nat list" where
  "recoverable_codes = [111, 104, 103, 113, 101, 99, 71, 90]"

definition is_recoverable_udp_recv_error :: "bool \<Rightarrow> error_kind \<Rightarrow> nat option \<Rightarrow> bool" where
  "is_recoverable_udp_recv_error linux kind raw =
     (if kind = Interrupted then True
      else linux \<and> (case raw of Some code \<Rightarrow> code \<in> set recoverable_codes | None \<Rightarrow> False))"

datatype recv_event = Datagram bytes socket_addr | RecvError error_kind "nat option" | ShutdownSignal

text \<open>The loop of the reader; the flag says that the task has ended.\<close>

fun run_udp_reader_single ::
  "bool \<Rightarrow> socket_addr \<Rightarrow> recv_event list \<Rightarrow> dispatcher \<Rightarrow> bool \<times> dispatcher" where
  "run_udp_reader_single linux local [] d = (False, d)"
| "run_udp_reader_single linux local (ev # evs) d =
     (case ev of
        Datagram data addr \<Rightarrow>
          (case dispatch (route_key_new UDP local addr) data d of
             (True, d') \<Rightarrow> run_udp_reader_single linux local evs d'
           | (False, d') \<Rightarrow> (True, d'))
      | RecvError kind raw \<Rightarrow>
          if is_recoverable_udp_recv_error linux kind raw then run_udp_reader_single linux local evs d else (True, d)
      | ShutdownSignal \<Rightarrow> (True, d))"

datatype batch_event = Batch "(bytes \<times> socket_addr) list" | BatchError error_kind "nat option" | BatchShutdown

fun dispatch_batch :: "socket_addr \<Rightarrow> (bytes \<times> socket_addr) list \<Rightarrow> dispatcher \<Rightarrow> bool \<times> dispatcher" where
  "dispatch_batch local [] d = (True, d)"
| "dispatch_batch local ((data, addr) # msgs) d =
     (case dispatch (route_key_new UDP local addr) data d of
        (True, d') \<Rightarrow> dispatch_batch local msgs d'
      | (False, d') \<Rightarrow> (False, d'))"

fun run_udp_reader_mmsg ::
  "bool \<Rightarrow> socket_addr \<Rightarrow> batch_event list \<Rightarrow> dispatcher \<Rightarrow> bool \<times> dispatcher" where
  "run_udp_reader_mmsg linux local [] d = (False, d)"
| "run_udp_reader_mmsg linux local (ev # evs) d =
     (case ev of
        Batch msgs \<Rightarrow>
          (case dispatch_batch local msgs d of
             (True, d') \<Rightarrow> run_udp_reader_mmsg linux local evs d'
           | (False, d') \<Rightarrow> (True, d'))
      | BatchError kind raw \<Rightarrow>
          if is_recoverable_udp_recv_error linux kind raw then run_udp_reader_mmsg linux local evs d else (True, d)
      | BatchShutdown \<Rightarrow> (True, d))"

text \<open>When either loop ends, the registrations of the socket go.\<close>

definition reader_end :: "socket_addr \<Rightarrow> bool \<times> dispatcher \<Rightarrow> bool \<times> dispatcher" where
  "reader_end local r = (fst r, if fst r then unregister_local local (snd r) else snd r)"

section \<open>The writer task\<close>

definition UDP_BATCH_SIZE :: nat where "UDP_BATCH_SIZE = 16"

type_synonym udp_message = "bytes \<times> socket_addr"

datatype udp_attempt = ViaMmsg udp_message | ViaSingle udp_message "unit io_result"

fun attempt_message :: "udp_attempt \<Rightarrow> udp_message" where
  "attempt_message (ViaMmsg m) = m"
| "attempt_message (ViaSingle m r) = m"

text \<open>
  \<open>send_mmsg\<close>, given the answer of the first system call that was not interrupted: a count or an
  error.
\<close>

definition send_mmsg :: "nat io_result \<Rightarrow> udp_message list \<Rightarrow> nat io_result" where
  "send_mmsg answer msgs =
     (if min (length msgs) UDP_BATCH_SIZE = 0 then Inl (IoError InvalidInput ''sendmmsg requires at least one message'')
      else (case answer of
          Inr sent \<Rightarrow> if sent > 0 then Inr sent else Inl (IoError WriteZero [])
        | Inl e \<Rightarrow> Inl e))"

lemma send_mmsg_pos: "send_mmsg answer msgs = Inr n \<Longrightarrow> 0 < n"
  by (auto simp: send_mmsg_def split: if_splits sum.splits)

text \<open>
  What the kernel and the shutdown channels do while a batch is written, by the number of messages
  already handled: the answer to the batched call, the outcome of a single send, and whether a
  shutdown ends the wait for the call or for the single send that retries it.
\<close>

record write_env =
  we_mmsg :: "nat \<Rightarrow> nat io_result"
  we_single :: "nat \<Rightarrow> unit io_result"
  we_stop :: "nat \<Rightarrow> bool"
  we_stop_retry :: "nat \<Rightarrow> bool"

function write_batch :: "write_env \<Rightarrow> udp_message list \<Rightarrow> nat \<Rightarrow> udp_attempt list \<times> bool" where
  "write_batch env batch sent =
     (if length batch \<le> sent then ([], True)
      else if we_stop env sent then ([], False)
      else if length batch - sent = 1 then
        (case write_batch env batch (sent + 1) of
           (out, b) \<Rightarrow> (ViaSingle (batch ! sent) (we_single env sent) # out, b))
      else (case send_mmsg (we_mmsg env sent) (drop sent batch) of
          Inr n \<Rightarrow>
            (case write_batch env batch (sent + n) of
               (out, b) \<Rightarrow> (map ViaMmsg (take n (drop sent batch)) @ out, b))
        | Inl e \<Rightarrow>
            if we_stop_retry env sent then ([], False)
            else (case write_batch env batch (sent + 1) of
               (out, b) \<Rightarrow> (ViaSingle (batch ! sent) (we_single env sent) # out, b))))"
  by pat_completeness auto

termination write_batch
  by (relation "measure (\<lambda>(env, batch, sent). length batch - sent)") (auto dest: send_mmsg_pos)

declare write_batch.simps [simp del]

text \<open>
  The writer empties the queue in batches of at most sixteen; \<open>envs i\<close> is met by the \<open>i\<close>-th batch.
\<close>

function run_udp_writer_mmsg :: "(nat \<Rightarrow> write_env) \<Rightarrow> nat \<Rightarrow> udp_message list \<Rightarrow> udp_attempt list \<times> bool" where
  "run_udp_writer_mmsg envs i [] = ([], True)"
| "run_udp_writer_mmsg envs i (m # queue) =
     (case write_batch (envs i) (m # take (UDP_BATCH_SIZE - 1) queue) 0 of
        (out, False) \<Rightarrow> (out, False)
      | (out, True) \<Rightarrow>
          (case run_udp_writer_mmsg envs (i + 1) (drop (UDP_BATCH_SIZE - 1) queue) of
             (out', b) \<Rightarrow> (out @ out', b)))"
  by pat_completeness auto

termination run_udp_writer_mmsg
  by (relation "measure (\<lambda>(envs, i, queue). length queue)") auto

text \<open>The single writer sends every message of the queue; errors are only logged.\<close>

fun run_udp_writer_single :: "(nat \<Rightarrow> unit io_result) \<Rightarrow> nat \<Rightarrow> udp_message list \<Rightarrow> udp_attempt list" where
  "run_udp_writer_single results i [] = []"
| "run_udp_writer_single results i (m # queue) =
     ViaSingle m (results i) # run_udp_writer_single results (i + 1) queue"

section \<open>Socket addresses of the batched calls\<close>

text \<open>
  Native integers in memory: \<open>le\<close> says that the machine is little-endian. \<open>to_be\<close> and \<open>from_be\<close> swap
  the bytes there.
\<close>

definition ne16 :: "bool \<Rightarrow> u16 \<Rightarrow> bytes" where
  "ne16 le w = (if le then rev (u16_to_be w) else u16_to_be w)"

definition ne32 :: "bool \<Rightarrow> u32 \<Rightarrow> bytes" where
  "ne32 le w = (if le then rev (u32_to_be w) else u32_to_be w)"

definition from_ne16 :: "bool \<Rightarrow> bytes \<Rightarrow> u16" where
  "from_ne16 le bs = u16_from_be (if le then rev bs else bs)"

definition from_ne32 :: "bool \<Rightarrow> bytes \<Rightarrow> u32" where
  "from_ne32 le bs = u32_from_be (if le then rev bs else bs)"

definition be16 :: "bool \<Rightarrow> u16 \<Rightarrow> u16" where
  "be16 le w = (if le then u16_from_be (rev (u16_to_be w)) else w)"

definition be32 :: "bool \<Rightarrow> u32 \<Rightarrow> u32" where
  "be32 le w = (if le then u32_from_be (rev (u32_to_be w)) else w)"

definition AF_INET :: u16 where "AF_INET = 2"
definition AF_INET6 :: u16 where "AF_INET6 = 10"

text \<open>A \<open>sockaddr_storage\<close> is its 128 bytes; the second component is the length of the address.\<close>

fun socket_addr_to_sockaddr :: "bool \<Rightarrow> socket_addr \<Rightarrow> bytes \<times> nat" where
  "socket_addr_to_sockaddr le (SockV4 ip port) =
     (ne16 le AF_INET @ ne16 le (be16 le port) @ ne32 le (from_ne32 le (v4_octets ip)) @ replicate 120 0, 16)"
| "socket_addr_to_sockaddr le (SockV6 ip port flow scope) =
     (ne16 le AF_INET6 @ ne16 le (be16 le port) @ ne32 le flow @ v6_octets ip @ ne32 le scope @ replicate 100 0, 28)"

definition v4_from_u32 :: "u32 \<Rightarrow> ipv4_addr" where
  "v4_from_u32 w = (case u32_to_be w of [a, b, c, d] \<Rightarrow> Ipv4Addr a b c d | _ \<Rightarrow> v4_unspecified)"

definition v6_from_octets :: "bytes \<Rightarrow> ipv6_addr" where
  "v6_from_octets bs =
     (let seg = (\<lambda>i. u16_from_be (take 2 (drop (2 * i) bs)))
      in Ipv6Addr (seg 0) (seg 1) (seg 2) (seg 3) (seg 4) (seg 5) (seg 6) (seg 7))"

definition sockaddr_to_socket_addr :: "bool \<Rightarrow> bytes \<Rightarrow> nat \<Rightarrow> socket_addr io_result" where
  "sockaddr_to_socket_addr le storage len =
     (let family = from_ne16 le (take 2 storage);
          port = be16 le (from_ne16 le (take 2 (drop 2 storage)))
      in if family = AF_INET \<and> len \<ge> 16 then
           Inr (SockV4 (v4_from_u32 (be32 le (from_ne32 le (take 4 (drop 4 storage))))) port)
         else if family = AF_INET6 \<and> len \<ge> 28 then
           Inr (SockV6 (v6_from_octets (take 16 (drop 8 storage))) port
             (from_ne32 le (take 4 (drop 4 storage))) (from_ne32 le (take 4 (drop 24 storage))))
         else Inl (IoError InvalidData ''unsupported sockaddr family or length''))"

text \<open>
  \<open>recv_mmsg\<close>, given the answer of the first system call that was not interrupted: per message the
  address storage and length, the bytes written and the reported length. \<open>cap\<close> is the capacity of
  the buffers. An address that cannot be read fails the whole batch.
\<close>

fun recv_messages :: "bool \<Rightarrow> nat \<Rightarrow> (bytes \<times> nat \<times> bytes \<times> nat) list \<Rightarrow> (bytes \<times> socket_addr) list io_result" where
  "recv_messages le cap [] = Inr []"
| "recv_messages le cap ((storage, len, data, msg_len) # ms) =
     and_then (sockaddr_to_socket_addr le storage len) (\<lambda>addr.
     and_then (recv_messages le cap ms) (\<lambda>rest.
       Inr ((take (min msg_len cap) data, addr) # rest)))"

definition recv_mmsg ::
  "bool \<Rightarrow> nat \<Rightarrow> nat \<Rightarrow> (bytes \<times> nat \<times> bytes \<times> nat) list io_result \<Rightarrow> (bytes \<times> socket_addr) list io_result" where
  "recv_mmsg le buffers cap answer =
     (if min buffers UDP_BATCH_SIZE = 0 then Inl (IoError InvalidInput ''recvmmsg requires at least one buffer'')
      else and_then answer (\<lambda>ms. if ms = [] then Inl (IoError WouldBlock []) else recv_messages le cap ms))"

section \<open>TCP connections\<close>

text \<open>\<open>SocketAddr::new(ip.to_canonical(), port)\<close>: an IPv4-mapped address becomes the IPv4 address.\<close>

fun sa_canonical :: "socket_addr \<Rightarrow> socket_addr" where
  "sa_canonical (SockV4 ip port) = SockV4 ip port"
| "sa_canonical (SockV6 (Ipv6Addr a b c d e f g h) port flow scope) =
     (if a = 0 \<and> b = 0 \<and> c = 0 \<and> d = 0 \<and> e = 0 \<and> f = 0xffff
      then SockV4 (v4_from_u32 (u32_from_be (u16_to_be g @ u16_to_be h))) port
      else SockV6 (Ipv6Addr a b c d e f g h) port 0 0)"

definition tcp_route_key :: "socket_addr io_result \<Rightarrow> socket_addr \<Rightarrow> route_key" where
  "tcp_route_key local peer =
     route_key_new TCP (case local of Inr a \<Rightarrow> a | Inl _ \<Rightarrow> SockV4 v4_unspecified 0) (sa_canonical peer)"

text \<open>
  \<open>publish_tcp\<close>: the outcome of the codec, the local address of the stream, the peer, the bytes to
  send first. A published tunnel is its key and its outgoing queue; \<open>None\<close> is a full accept queue.
\<close>

definition publish_tcp ::
  "unit io_result \<Rightarrow> socket_addr io_result \<Rightarrow> socket_addr \<Rightarrow> bytes option \<Rightarrow> (route_key \<times> bytes chan) chan
     \<Rightarrow> unit io_result option \<times> (route_key \<times> bytes chan) chan" where
  "publish_tcp codec local peer initial accept =
     (case codec of
        Inl e \<Rightarrow> (Some (Inl e), accept)
      | Inr _ \<Rightarrow>
          (let key = tcp_route_key local peer; out = chan_new 64;
               out' = (case initial of None \<Rightarrow> out | Some data \<Rightarrow> snd (tcp_send data out))
           in (case chan_try_send (key, out') accept of
                 (SendOk, a) \<Rightarrow> (Some (Inr ()), a)
               | (SendFull, a) \<Rightarrow> (None, a)
               | (SendClosed, a) \<Rightarrow> (Some (Inl (IoError Other ''tunnel incoming source closed'')), a))))"

section \<open>Properties of the socket model\<close>

lemma add_assistants_spec:
  "add_assistants n bind i pool = (r, pool') \<Longrightarrow>
     sp_main_v4 pool' = sp_main_v4 pool \<and> sp_main_v6 pool' = sp_main_v6 pool
     \<and> (\<exists>new. sp_assistants pool' = sp_assistants pool @ new
          \<and> (r = Inr () \<longrightarrow> length new = n) \<and> (r \<noteq> Inr () \<longrightarrow> length new < n))"
proof (induction n arbitrary: i pool)
  case (Suc n)
  show ?case
  proof (cases "bind i")
    case (Inr s)
    then show ?thesis using Suc.IH [of "Suc i" "add_assistant_udp s pool"] Suc.prems
      by (force simp: add_assistant_udp_def)
  qed (use Suc.prems in auto)
qed simp

text \<open>
  The socket model: a cone NAT leaves no assistant socket and never fails; a symmetric one
  keeps the sockets there are and, on success, fills up to the configured number, while a failed
  bind stops below it with the sockets made so far. The main sockets never change.
\<close>

theorem apply_nat_model_spec:
  assumes "apply_nat_model cfg bind t pool = (r, pool')"
  shows "sp_main_v4 pool' = sp_main_v4 pool \<and> sp_main_v6 pool' = sp_main_v6 pool
    \<and> (t = Cone \<longrightarrow> r = Inr () \<and> assistant_count pool' = 0)
    \<and> (t = Symmetric \<longrightarrow> take (assistant_count pool) (sp_assistants pool') = sp_assistants pool
        \<and> (r = Inr () \<longrightarrow> assistant_count pool' = max (assistant_count pool) (nc_max_assistants cfg))
        \<and> (r \<noteq> Inr () \<longrightarrow> assistant_count pool' < nc_max_assistants cfg))"
proof (cases t)
  case Cone
  then show ?thesis using assms by (auto simp: apply_nat_model_def assistant_count_def clean_assistant_udp_def split: if_splits)
next
  case Symmetric
  show ?thesis
  proof (cases "nc_max_assistants cfg > assistant_count pool")
    case True
    then have "add_assistants (nc_max_assistants cfg - assistant_count pool) bind (assistant_count pool) pool = (r, pool')"
      using assms Symmetric by (simp add: apply_nat_model_def Let_def)
    from add_assistants_spec [OF this] show ?thesis
      using True Symmetric by (auto simp: assistant_count_def)
  next
    case False
    then show ?thesis using assms Symmetric by (auto simp: apply_nat_model_def assistant_count_def)
  qed
qed

definition three_assistants :: nat_query_config where
  "three_assistants = (pu_config example_puncher)\<lparr>nc_max_assistants := 3\<rparr>"

theorem apply_nat_model_spec_witness:
  "assistant_count (snd (apply_nat_model three_assistants (\<lambda>i. if i = 2 then Inl (IoError AddrInUse []) else Inr (10 + i))
     Symmetric (socket_pool_new 0 None))) < nc_max_assistants three_assistants"
  using apply_nat_model_spec [of three_assistants "\<lambda>i. if i = 2 then Inl (IoError AddrInUse []) else Inr (10 + i)"
      Symmetric "socket_pool_new 0 None"]
  by (simp add: apply_nat_model_def three_assistants_def assistant_count_def socket_pool_new_def
      add_assistant_udp_def numeral_eq_Suc)

text \<open>
  A punch round uses only sockets of the target's family: the probes to an IPv4 address go out
  on the main IPv4 socket or the assistants, those to an IPv6 address on the main IPv6 socket, and
  a probe that is sent on all sockets reaches every assistant.
\<close>

theorem punch_sends_use_matching_sockets:
  "(\<forall>(s, a) \<in> set (run_punch_send pool p). a = send_target p
      \<and> (if sa_is_ipv4 a then s = sp_main_v4 pool \<or> s \<in> set (sp_assistants pool) else sp_main_v6 pool = Some s))
   \<and> (\<forall>a. p = SendAll a \<longrightarrow> sa_is_ipv4 a \<longrightarrow>
        set (run_punch_send pool p) = {(s, a) |s. s = sp_main_v4 pool \<or> s \<in> set (sp_assistants pool)})"
  by (cases p) (auto simp: pool_send_to_def try_send_via_all_def split: option.splits)

section \<open>Properties of the reader and writer tasks\<close>

text \<open>The attempts are a prefix of the messages, all of them unless a shutdown intervened.\<close>

definition never_stops :: "write_env \<Rightarrow> bool" where
  "never_stops env \<longleftrightarrow> (\<forall>i. \<not> we_stop env i \<and> \<not> we_stop_retry env i)"

definition attempted :: "bool \<Rightarrow> udp_message list \<Rightarrow> udp_attempt list \<times> bool \<Rightarrow> bool" where
  "attempted undisturbed msgs r \<longleftrightarrow>
     (\<exists>rest. msgs = map attempt_message (fst r) @ rest \<and> (snd r \<longrightarrow> rest = [])) \<and> (undisturbed \<longrightarrow> snd r)"

lemma attempted_done [simp]: "attempted u [] ([], True)"
  by (simp add: attempted_def)

lemma attempted_stop: "\<not> u \<Longrightarrow> attempted u msgs ([], False)"
  by (simp add: attempted_def)

lemma attempted_append:
  assumes "attempted u rest r" "map attempt_message out = msgs"
  shows "attempted u (msgs @ rest) (out @ fst r, snd r)"
  using assms by (auto simp: attempted_def)

lemma attempted_single:
  assumes "attempted u (drop (sent + 1) batch) r" "sent < length batch"
  shows "attempted u (drop sent batch) (ViaSingle (batch ! sent) res # fst r, snd r)"
  using attempted_append [OF assms(1), of "[ViaSingle (batch ! sent) res]" "[batch ! sent]"] assms(2)
  by (simp add: Cons_nth_drop_Suc)

lemma attempted_many:
  assumes "attempted u (drop (sent + n) batch) r"
  shows "attempted u (drop sent batch) (map ViaMmsg (take n (drop sent batch)) @ fst r, snd r)"
proof -
  have "map attempt_message (map ViaMmsg (take n (drop sent batch))) = take n (drop sent batch)"
    by (simp add: comp_def)
  moreover have "drop sent batch = take n (drop sent batch) @ drop (sent + n) batch"
    by (metis add.commute append_take_drop_id drop_drop)
  ultimately show ?thesis using attempted_append [OF assms] by metis
qed

lemma write_batch_attempts: "attempted (never_stops env) (drop sent batch) (write_batch env batch sent)"
proof (induction env batch sent rule: write_batch.induct)
  case (1 env batch sent)
  have stop: "we_stop env sent \<or> we_stop_retry env sent \<Longrightarrow> \<not> never_stops env"
    by (auto simp: never_stops_def)
  have unfold: "write_batch env batch sent =
      (if length batch \<le> sent then ([], True)
       else if we_stop env sent then ([], False)
       else if length batch - sent = 1 then
         (ViaSingle (batch ! sent) (we_single env sent) # fst (write_batch env batch (sent + 1)), snd (write_batch env batch (sent + 1)))
       else (case send_mmsg (we_mmsg env sent) (drop sent batch) of
           Inr n \<Rightarrow> (map ViaMmsg (take n (drop sent batch)) @ fst (write_batch env batch (sent + n)), snd (write_batch env batch (sent + n)))
         | Inl e \<Rightarrow> if we_stop_retry env sent then ([], False)
             else (ViaSingle (batch ! sent) (we_single env sent) # fst (write_batch env batch (sent + 1)), snd (write_batch env batch (sent + 1)))))"
    by (subst write_batch.simps) (simp add: case_prod_beta split: sum.splits)
  consider "length batch \<le> sent" | "sent < length batch" "we_stop env sent"
    | (one) "sent < length batch" "\<not> we_stop env sent" "length batch - sent = 1"
    | (many) "sent < length batch" "\<not> we_stop env sent" "length batch - sent \<noteq> 1" by linarith
  then show ?case
  proof cases
    case one
    then show ?thesis unfolding unfold using attempted_single [OF "1.IH"(1)] by simp
  next
    case many
    then show ?thesis unfolding unfold
      using attempted_single [OF "1.IH"(2)] attempted_many [OF "1.IH"(3)] stop
      by (cases "send_mmsg (we_mmsg env sent) (drop sent batch)") (simp_all add: attempted_stop)
  qed (use stop in \<open>simp_all add: unfold attempted_stop\<close>)
qed

lemma run_udp_writer_mmsg_attempts:
  "attempted (\<forall>j. never_stops (envs j)) queue (run_udp_writer_mmsg envs i queue)"
proof (induction envs i queue rule: run_udp_writer_mmsg.induct)
  case (2 envs i m queue)
  obtain out finished where wb: "write_batch (envs i) (m # take (UDP_BATCH_SIZE - 1) queue) 0 = (out, finished)"
    by (cases "write_batch (envs i) (m # take (UDP_BATCH_SIZE - 1) queue) 0")
  have batch: "attempted (never_stops (envs i)) (m # take (UDP_BATCH_SIZE - 1) queue) (out, finished)"
    using write_batch_attempts [of "envs i" 0 "m # take (UDP_BATCH_SIZE - 1) queue"] unfolding wb drop_0 .
  show ?case
  proof (cases finished)
    case True
    have "attempted (\<forall>j. never_stops (envs j)) ((m # take (UDP_BATCH_SIZE - 1) queue) @ drop (UDP_BATCH_SIZE - 1) queue)
        (out @ fst (run_udp_writer_mmsg envs (i + 1) (drop (UDP_BATCH_SIZE - 1) queue)),
         snd (run_udp_writer_mmsg envs (i + 1) (drop (UDP_BATCH_SIZE - 1) queue)))"
      using batch True "2.IH" [OF wb [symmetric]] by (intro attempted_append) (auto simp: attempted_def)
    then show ?thesis using True by (simp add: wb case_prod_beta del: One_nat_def)
  next
    case False
    then have "\<not> (\<forall>j. never_stops (envs j))" using batch by (auto simp: attempted_def)
    moreover obtain rest where "m # take (UDP_BATCH_SIZE - 1) queue = map attempt_message out @ rest"
      using batch by (auto simp: attempted_def)
    then have "m # queue = map attempt_message out @ rest @ drop (UDP_BATCH_SIZE - 1) queue"
      by (metis append.assoc append_Cons append_take_drop_id)
    moreover have "run_udp_writer_mmsg envs i (m # queue) = (out, False)"
      using False by (simp add: wb del: One_nat_def)
    ultimately show ?thesis unfolding attempted_def by fastforce
  qed
qed simp

text \<open>
  C27: the batched UDP writer hands every queued datagram to the kernel exactly once and in order,
  like the one that sends them singly, whatever partial counts and errors the batched calls
  return: when it is not shut down, the messages it attempts are the queue, and a shutdown only
  cuts off a suffix.
\<close>

theorem udp_writers_agree:
  "(\<exists>rest. queue = map attempt_message (fst (run_udp_writer_mmsg envs 0 queue)) @ rest)
   \<and> ((\<forall>j. never_stops (envs j)) \<longrightarrow>
        map attempt_message (fst (run_udp_writer_mmsg envs 0 queue))
          = map attempt_message (run_udp_writer_single results 0 queue))"
proof -
  have "map attempt_message (run_udp_writer_single results i queue) = queue" for i
    by (induction queue arbitrary: i) auto
  then show ?thesis
    using run_udp_writer_mmsg_attempts [of envs queue 0] by (auto simp: attempted_def)
qed

definition flaky_env :: write_env where
  "flaky_env = \<lparr>we_mmsg = (\<lambda>i. if i = 0 then Inr 2 else if i = 2 then Inl (IoError NetworkUnreachable []) else Inr 9),
     we_single = (\<lambda>_. Inr ()), we_stop = (\<lambda>_. False), we_stop_retry = (\<lambda>_. False)\<rparr>"

theorem udp_writers_agree_witness:
  "map attempt_message (fst (run_udp_writer_mmsg (\<lambda>_. flaky_env) 0
       (map (\<lambda>n. ([of_nat n], SockV4 v4_unspecified 9)) [0..<20])))
     = map (\<lambda>n. ([of_nat n], SockV4 v4_unspecified 9)) [0..<20]"
proof -
  have "map attempt_message (run_udp_writer_single (\<lambda>_. Inr ()) i queue) = queue" for i and queue :: "udp_message list"
    by (induction queue arbitrary: i) auto
  then show ?thesis
    using udp_writers_agree [of "map (\<lambda>n. ([of_nat n], SockV4 v4_unspecified 9)) [0..<20]" "\<lambda>_. flaky_env" "\<lambda>_. Inr ()"]
    by (simp add: never_stops_def flaky_env_def)
qed

text \<open>The batches of a reader as single events.\<close>

fun unbatch :: "batch_event \<Rightarrow> recv_event list" where
  "unbatch (Batch msgs) = map (\<lambda>(data, addr). Datagram data addr) msgs"
| "unbatch (BatchError kind raw) = [RecvError kind raw]"
| "unbatch BatchShutdown = [ShutdownSignal]"

lemma single_reader_batch:
  "run_udp_reader_single linux local (map (\<lambda>(data, addr). Datagram data addr) msgs @ evs) d =
     (case dispatch_batch local msgs d of
        (True, d') \<Rightarrow> run_udp_reader_single linux local evs d' | (False, d') \<Rightarrow> (True, d'))"
  by (induction local msgs d rule: dispatch_batch.induct) (auto split: prod.splits bool.splits)

text \<open>
  Reading UDP datagrams in batches gives the same tunnels, queues and end of the task as
  reading them one by one.
\<close>

theorem udp_readers_agree:
  "run_udp_reader_mmsg linux local evs d = run_udp_reader_single linux local (concat (map unbatch evs)) d"
proof (induction linux local evs d rule: run_udp_reader_mmsg.induct)
  case (2 linux local ev evs d)
  show ?case
  proof (cases ev)
    case (Batch msgs)
    then show ?thesis using "2.IH"(1) [OF Batch]
      by (auto simp: single_reader_batch split: prod.splits bool.splits)
  qed (use "2.IH" in auto)
qed simp

section \<open>Round trip of socket addresses\<close>

lemma length_ne [simp]: "length (ne16 le w) = 2" "length (ne32 le d) = 4"
  by (simp_all add: ne16_def ne32_def)

lemma from_ne_ne [simp]: "from_ne16 le (ne16 le w) = w" "from_ne32 le (ne32 le d) = d"
  by (simp_all add: from_ne16_def ne16_def from_ne32_def ne32_def)

lemma ne32_from_ne: "length bs = 4 \<Longrightarrow> ne32 le (from_ne32 le bs) = bs"
  by (simp add: from_ne32_def ne32_def to_be_from_be)

lemma be16_be16 [simp]: "be16 le (be16 le w) = w"
  by (simp add: be16_def to_be_from_be)

lemma be32_from_ne: "length bs = 4 \<Longrightarrow> be32 le (from_ne32 le bs) = u32_from_be bs"
  by (simp add: be32_def from_ne32_def to_be_from_be)

lemma length_v4_octets [simp]: "length (v4_octets ip) = 4"
  by (cases ip) simp

lemma v4_from_octets: "v4_from_u32 (u32_from_be (v4_octets ip)) = ip"
  by (cases ip) (simp add: v4_from_u32_def to_be_from_be)

lemma v6_from_octets_octets: "v6_from_octets (v6_octets ip) = ip"
  by (cases ip) (simp add: v6_from_octets_def v6_octets_def Let_def)

lemma sockaddr_storage_inverse:
  "sockaddr_to_socket_addr le (fst (socket_addr_to_sockaddr le a)) (snd (socket_addr_to_sockaddr le a)) = Inr a"
proof (cases a)
  case (SockV4 ip port)
  then show ?thesis
    by (simp add: sockaddr_to_socket_addr_def ne32_from_ne be32_from_ne v4_from_octets Let_def)
next
  case (SockV6 ip port flow scope)
  then show ?thesis
    by (simp add: sockaddr_to_socket_addr_def v6_from_octets_octets AF_INET_def AF_INET6_def Let_def)
qed

text \<open>
  A socket address survives the conversion to the kernel's representation and back, on little-
  and big-endian machines: address, port, flow information and scope of either family.
\<close>

theorem sockaddr_round_trip:
  "case socket_addr_to_sockaddr le a of (storage, len) \<Rightarrow>
     length storage = 128 \<and> sockaddr_to_socket_addr le storage len = Inr a"
  using sockaddr_storage_inverse [of le a] by (cases a) simp_all

text \<open>
  Receiving in batches delivers what was sent: datagrams that fit the buffers arrive whole and
  in order with the addresses they came from, up to sixteen at a time.
\<close>

theorem recv_mmsg_delivers:
  assumes "msgs \<noteq> []" "\<forall>(data, a) \<in> set msgs. length data \<le> cap" "0 < buffers"
  shows "recv_mmsg le buffers cap
      (Inr (map (\<lambda>(data, a). (fst (socket_addr_to_sockaddr le a), snd (socket_addr_to_sockaddr le a), data, length data)) msgs))
    = Inr msgs"
proof -
  have "recv_messages le cap
      (map (\<lambda>(data, a). (fst (socket_addr_to_sockaddr le a), snd (socket_addr_to_sockaddr le a), data, length data)) msgs) = Inr msgs"
    using assms(2)
  proof (induction msgs)
    case (Cons m ms)
    obtain data a where m: "m = (data, a)" by (cases m)
    have "sockaddr_to_socket_addr le (fst (socket_addr_to_sockaddr le a)) (snd (socket_addr_to_sockaddr le a)) = Inr a"
      using sockaddr_storage_inverse [of le a] .
    then show ?case using Cons by (simp add: m)
  qed simp
  then show ?thesis using assms(1,3) by (simp add: recv_mmsg_def UDP_BATCH_SIZE_def)
qed

end
