(* ===== verification/Tunnel_Halves.thy ===== *)
theory Tunnel_Halves
  imports Tcp_Framing Socket_Pool
begin

text \<open>
  Tunnels as their users see them, \<open>Tunnel\<close>, \<open>TunnelReadHalf\<close> and \<open>TunnelWriteHalf\<close> of \<open>rustp2p-core/src/endpoint/tunnel.rs\<close> and
  \<open>tcp_tunnel\<close> of \<open>endpoint/pool.rs\<close>: both kinds of tunnel behind one interface, and what the halves of a TCP tunnel, its two tasks and its channels do together.
\<close>

section \<open>Tunnels and their halves\<close>

datatype tunnel_writer_inner = WriterUdp "(bytes \<times> socket_addr) chan" | WriterTcp "bytes chan"

datatype tunnel_read_lifecycle = LifeUdp nat | LifeTcp

record tunnel_write_half =
  tw_inner :: tunnel_writer_inner
  tw_key :: route_key

text \<open>\<open>th_sender\<close> says whether a sender of the data channel is left: the registration of a UDP tunnel, the read task of a TCP tunnel.\<close>

record tunnel_read_half =
  th_key :: route_key
  th_data :: "bytes chan"
  th_sender :: bool
  th_lifecycle :: tunnel_read_lifecycle

record tunnel =
  tn_reader :: tunnel_read_half
  tn_writer :: tunnel_write_half

definition tunnel_udp :: "(bytes \<times> socket_addr) chan \<Rightarrow> route_key \<Rightarrow> bytes chan \<Rightarrow> nat \<Rightarrow> tunnel" where
  "tunnel_udp w k data i =
     \<lparr>tn_reader = \<lparr>th_key = k, th_data = data, th_sender = True, th_lifecycle = LifeUdp i\<rparr>,
      tn_writer = \<lparr>tw_inner = WriterUdp w, tw_key = k\<rparr>\<rparr>"

definition tunnel_tcp :: "bytes chan \<Rightarrow> route_key \<Rightarrow> bytes chan \<Rightarrow> tunnel" where
  "tunnel_tcp w k data =
     \<lparr>tn_reader = \<lparr>th_key = k, th_data = data, th_sender = True, th_lifecycle = LifeTcp\<rparr>,
      tn_writer = \<lparr>tw_inner = WriterTcp w, tw_key = k\<rparr>\<rparr>"

text \<open>The result of the codec factory comes first; the tasks start with empty queues.\<close>

definition tcp_tunnel :: "unit io_result \<Rightarrow> socket_addr io_result \<Rightarrow> socket_addr \<Rightarrow> tunnel io_result" where
  "tcp_tunnel codec local peer =
     and_then codec (\<lambda>_. Inr (tunnel_tcp (chan_new 64) (tcp_route_key local peer) (chan_new 64)))"

definition tunnel_split :: "tunnel \<Rightarrow> tunnel_read_half \<times> tunnel_write_half" where
  "tunnel_split t = (tn_reader t, tn_writer t)"

definition tunnel_remote_addr :: "tunnel \<Rightarrow> socket_addr" where
  "tunnel_remote_addr t = rk_peer (tw_key (tn_writer t))"

definition tunnel_local_addr :: "tunnel \<Rightarrow> socket_addr" where
  "tunnel_local_addr t = rk_local (tw_key (tn_writer t))"

definition tunnel_route_key :: "tunnel \<Rightarrow> route_key" where
  "tunnel_route_key t = tw_key (tn_writer t)"

definition tunnel_protocol :: "tunnel \<Rightarrow> protocol" where
  "tunnel_protocol t = rk_protocol (tw_key (tn_writer t))"

text \<open>A waiting call is \<open>None\<close> as long as it waits.\<close>

definition read_half_recv :: "tunnel_read_half \<Rightarrow> bytes option option \<times> tunnel_read_half" where
  "read_half_recv h =
     (case chan_pop (th_data h) of
        (Some data, c) \<Rightarrow> (Some (Some data), h\<lparr>th_data := c\<rparr>)
      | (None, _) \<Rightarrow> (if th_sender h then None else Some None, h))"

definition read_half_try_recv :: "tunnel_read_half \<Rightarrow> bytes option io_result \<times> tunnel_read_half" where
  "read_half_try_recv h =
     (case chan_pop (th_data h) of
        (Some data, c) \<Rightarrow> (Inr (Some data), h\<lparr>th_data := c\<rparr>)
      | (None, _) \<Rightarrow> (if th_sender h then Inl (IoError WouldBlock []) else Inr None, h))"

definition write_half_try_send :: "bytes \<Rightarrow> tunnel_write_half \<Rightarrow> unit io_result \<times> tunnel_write_half" where
  "write_half_try_send data h =
     (case tw_inner h of
        WriterUdp w \<Rightarrow> (case udp_try_send (tw_key h) data w of (r, w') \<Rightarrow> (r, h\<lparr>tw_inner := WriterUdp w'\<rparr>))
      | WriterTcp w \<Rightarrow> (case tcp_try_send data w of (r, w') \<Rightarrow> (r, h\<lparr>tw_inner := WriterTcp w'\<rparr>)))"

definition write_half_send :: "bytes \<Rightarrow> tunnel_write_half \<Rightarrow> unit io_result option \<times> tunnel_write_half" where
  "write_half_send data h =
     (case tw_inner h of
        WriterUdp w \<Rightarrow> (case udp_send (tw_key h) data w of (r, w') \<Rightarrow> (r, h\<lparr>tw_inner := WriterUdp w'\<rparr>))
      | WriterTcp w \<Rightarrow> (case tcp_send data w of (r, w') \<Rightarrow> (r, h\<lparr>tw_inner := WriterTcp w'\<rparr>)))"

text \<open>Dropping the receive half: a UDP tunnel leaves the dispatcher, the read task of a TCP tunnel is woken and ends.\<close>

definition read_half_drop :: "tunnel_read_half \<Rightarrow> dispatcher \<Rightarrow> dispatcher \<times> read_event list" where
  "read_half_drop h d =
     (case th_lifecycle h of
        LifeUdp i \<Rightarrow> (tunnel_drop (th_key h) i d, [])
      | LifeTcp \<Rightarrow> (d, [ReadTunnelShutdown]))"

section \<open>UDP tunnels\<close>

text \<open>The receive half of a UDP tunnel is a view of its channel at the dispatcher.\<close>

definition udp_view :: "route_key \<Rightarrow> nat \<Rightarrow> dispatcher \<Rightarrow> tunnel_read_half" where
  "udp_view k i d = \<lparr>th_key = k, th_data = chan_of i d, th_sender = is_registered i d, th_lifecycle = LifeUdp i\<rparr>"

lemma udp_view_try_recv:
  "fst (tunnel_try_recv i d) = fst (read_half_try_recv (udp_view k i d))"
  by (simp add: tunnel_try_recv_def read_half_try_recv_def udp_view_def split: prod.split option.split)

section \<open>Sequences of sends and receives\<close>

fun try_sends :: "bytes list \<Rightarrow> tunnel_write_half \<Rightarrow> unit io_result list \<times> tunnel_write_half" where
  "try_sends [] h = ([], h)"
| "try_sends (m # ms) h =
     (case write_half_try_send m h of (r, h') \<Rightarrow> (case try_sends ms h' of (rs, h'') \<Rightarrow> (r # rs, h'')))"

fun try_recvs :: "nat \<Rightarrow> tunnel_read_half \<Rightarrow> bytes option io_result list \<times> tunnel_read_half" where
  "try_recvs 0 h = ([], h)"
| "try_recvs (Suc n) h =
     (case read_half_try_recv h of (r, h') \<Rightarrow> (case try_recvs n h' of (rs, h'') \<Rightarrow> (r # rs, h'')))"

text \<open>What waits to be sent, with the address it goes to.\<close>

fun outgoing :: "tunnel_write_half \<Rightarrow> (bytes \<times> socket_addr) list" where
  "outgoing \<lparr>tw_inner = WriterUdp w, tw_key = k\<rparr> = ch_queue w"
| "outgoing \<lparr>tw_inner = WriterTcp w, tw_key = k\<rparr> = map (\<lambda>m. (m, rk_peer k)) (ch_queue w)"

definition send_answers :: "nat \<Rightarrow> nat \<Rightarrow> unit io_result list" where
  "send_answers room n = replicate (min room n) (Inr ()) @ replicate (n - room) (Inl (IoError WouldBlock []))"

lemma send_answers_simps:
  "send_answers room 0 = []" "send_answers (Suc room) (Suc n) = Inr () # send_answers room n"
  "send_answers 0 (Suc n) = Inl (IoError WouldBlock []) # send_answers 0 n"
  by (simp_all add: send_answers_def)

text \<open>An open queue takes messages while there is room and refuses the rest.\<close>

definition chan_sends :: "(bytes \<Rightarrow> 'a) \<Rightarrow> bytes list \<Rightarrow> 'a chan \<Rightarrow> 'a chan" where
  "chan_sends f ms w = ch.send_all (map f ms) w"

lemma chan_sends_simps:
  "chan_sends f [] w = w" "chan_sends f (m # ms) w = chan_sends f ms (snd (chan_try_send (f m) w))"
  by (simp_all add: chan_sends_def ch.send_all_def)

lemma try_sends_queue:
  assumes step: "\<And>m u. ch_open u \<Longrightarrow> write_half_try_send m (mk u) =
      (if length (ch_queue u) < ch_cap u then Inr () else Inl (IoError WouldBlock []), mk (snd (chan_try_send (f m) u)))"
    and "ch_open u"
  shows "try_sends ms (mk u) = (send_answers (ch_cap u - length (ch_queue u)) (length ms), mk (chan_sends f ms u))"
  using assms(2)
proof (induction ms arbitrary: u)
  case (Cons m ms)
  let ?u = "snd (chan_try_send (f m) u)"
  have IH: "try_sends ms (mk ?u) = (send_answers (ch_cap ?u - length (ch_queue ?u)) (length ms), mk (chan_sends f ms ?u))"
    using Cons.prems by (intro Cons.IH) (simp add: ch.send_frame)
  show ?case
  proof (cases "length (ch_queue u) < ch_cap u")
    case True
    then have "ch_cap u - length (ch_queue u) = Suc (ch_cap ?u - length (ch_queue ?u))"
      using Cons.prems by (simp add: chan_try_send_def)
    then show ?thesis using True IH by (simp add: step [OF Cons.prems] chan_sends_simps send_answers_simps)
  next
    case False
    then have "?u = u" by (simp add: chan_try_send_def)
    then show ?thesis using False IH by (simp add: step [OF Cons.prems] chan_sends_simps send_answers_simps)
  qed
qed (simp add: chan_sends_simps send_answers_simps)

lemma write_half_steps:
  "ch_open u \<Longrightarrow> write_half_try_send m \<lparr>tw_inner = WriterUdp u, tw_key = k\<rparr> =
      (if length (ch_queue u) < ch_cap u then Inr () else Inl (IoError WouldBlock []),
       \<lparr>tw_inner = WriterUdp (snd (chan_try_send (m, rk_peer k) u)), tw_key = k\<rparr>)"
  "ch_open w \<Longrightarrow> write_half_try_send m \<lparr>tw_inner = WriterTcp w, tw_key = k\<rparr> =
      (if length (ch_queue w) < ch_cap w then Inr () else Inl (IoError WouldBlock []),
       \<lparr>tw_inner = WriterTcp (snd (chan_try_send m w)), tw_key = k\<rparr>)"
  by (simp_all add: write_half_try_send_def udp_try_send_def tcp_try_send_def chan_try_send_def)

text \<open>
  The first messages fit, the others are refused with \<open>WouldBlock\<close>; what was taken waits in order, each message for the peer of the
  tunnel's route key.
\<close>

lemma chan_sends_new: "ch_queue (chan_sends f ms (chan_new cap)) = map f (take cap ms)"
proof -
  have "ch_queue (ch.send_all (map f ms) (chan_new cap)) = take cap (map f ms)"
    by (subst ch.send_all_contents) (simp_all add: chan_new_def chan_ok_def)
  then show ?thesis by (simp add: chan_sends_def take_map)
qed

lemma fresh_tunnel_sends:
  assumes "t = tunnel_udp (chan_new cap) k data i \<or> t = tunnel_tcp (chan_new cap) k data"
    and "try_sends ms (tn_writer t) = (answers, h)"
  shows "answers = send_answers cap (length ms) \<and> outgoing h = map (\<lambda>m. (m, rk_peer k)) (take cap ms)"
proof -
  have new: "ch_open (chan_new cap)" "ch_cap (chan_new cap) - length (ch_queue (chan_new cap)) = cap" by (simp_all add: chan_new_def)
  have "try_sends ms \<lparr>tw_inner = WriterUdp (chan_new cap), tw_key = k\<rparr> =
      (send_answers cap (length ms), \<lparr>tw_inner = WriterUdp (chan_sends (\<lambda>m. (m, rk_peer k)) ms (chan_new cap)), tw_key = k\<rparr>)"
    by (subst try_sends_queue [where mk = "\<lambda>u. \<lparr>tw_inner = WriterUdp u, tw_key = k\<rparr>" and f = "\<lambda>m. (m, rk_peer k)"])
      (simp_all add: write_half_steps new)
  moreover have "try_sends ms \<lparr>tw_inner = WriterTcp (chan_new cap), tw_key = k\<rparr> =
      (send_answers cap (length ms), \<lparr>tw_inner = WriterTcp (chan_sends id ms (chan_new cap)), tw_key = k\<rparr>)"
    by (subst try_sends_queue [where mk = "\<lambda>u. \<lparr>tw_inner = WriterTcp u, tw_key = k\<rparr>" and f = id]) (simp_all add: write_half_steps new)
  ultimately show ?thesis using assms by (auto simp: tunnel_udp_def tunnel_tcp_def chan_sends_new)
qed

lemma try_recvs_queue:
  assumes "n \<le> length (ch_queue (th_data h))"
  shows "try_recvs n h = (map (\<lambda>m. Inr (Some m)) (take n (ch_queue (th_data h))), h\<lparr>th_data := (th_data h)\<lparr>ch_queue := drop n (ch_queue (th_data h))\<rparr>\<rparr>)"
  using assms
proof (induction n arbitrary: h)
  case (Suc n)
  then obtain m q where q: "ch_queue (th_data h) = m # q" by (cases "ch_queue (th_data h)") auto
  let ?h = "h\<lparr>th_data := (th_data h)\<lparr>ch_queue := q\<rparr>\<rparr>"
  have "read_half_try_recv h = (Inr (Some m), ?h)" by (simp add: read_half_try_recv_def chan_pop_def q)
  then show ?case using Suc.IH [of ?h] Suc.prems by (simp add: q)
qed simp

section \<open>A TCP tunnel from end to end\<close>

text \<open>The read task puts the frames into the data channel.\<close>

definition receive_frames :: "bytes list \<Rightarrow> tunnel_read_half \<Rightarrow> tunnel_read_half" where
  "receive_frames frames h = h\<lparr>th_data := chan_sends id frames (th_data h)\<rparr>"

text \<open>
  C16: TCP tunnels carry messages whole and in order, from the send half of one tunnel to the receive half of the other. Of a burst of messages the first 64 are
  taken and the others are refused with \<open>WouldBlock\<close>. If the write task of the tunnel (length-prefixed codec,
  arbitrarily short vectored writes) finishes its queue, then the read task at the other end, whatever the sizes of its
  reads, hands over exactly the messages taken and ends with an empty buffer, still running; the receive half returns them one by one, then
  \<open>WouldBlock\<close>, and the end of the tunnel instead once the read task is gone.
\<close>

theorem tcp_tunnel_end_to_end:
  assumes "tcp_tunnel (Inr ()) local1 peer1 = Inr t1" and "tcp_tunnel (Inr ()) local2 peer2 = Inr t2"
    and "try_sends ms (tn_writer t1) = (answers, h)"
    and "tcp_write_task lp_encode (map fst (outgoing h)) evs = (sent, WriteDone)"
    and "legal_task_writes lp_encode (map fst (outgoing h)) evs"
    and "concat chunks = sent" and "[] \<notin> set chunks"
  shows "answers = send_answers 64 (length ms) \<and>
    tcp_read_task lp_decode (\<lambda>_. True) (map ReadData chunks) [] [] = Some ([], take 64 ms, True) \<and>
    (\<exists>r. try_recvs (min 64 (length ms)) (receive_frames (take 64 ms) (tn_reader t2)) = (map (\<lambda>m. Inr (Some m)) (take 64 ms), r) \<and>
       fst (read_half_try_recv r) = Inl (IoError WouldBlock []) \<and> fst (read_half_try_recv (r\<lparr>th_sender := False\<rparr>)) = Inr None)"
proof -
  have t1: "t1 = tunnel_tcp (chan_new 64) (tcp_route_key local1 peer1) (chan_new 64)"
    and t2: "t2 = tunnel_tcp (chan_new 64) (tcp_route_key local2 peer2) (chan_new 64)"
    using assms(1,2) by (simp_all add: tcp_tunnel_def)
  from fresh_tunnel_sends [OF disjI2 [OF t1] assms(3)]
  have a: "answers = send_answers 64 (length ms)" and o: "map fst (outgoing h) = take 64 ms" by (simp_all add: comp_def)
  have "encode_all lp_encode (take 64 ms) = Inr (concat chunks)"
    using tcp_write_task_done [OF assms(4,5)] by (simp add: o assms(6))
  then have r: "tcp_read_task lp_decode (\<lambda>_. True) (map ReadData chunks) [] [] = Some ([], take 64 ms, True)"
    using assms(7) by (rule lp.read_task_roundtrip)
  have q: "ch_queue (th_data (receive_frames (take 64 ms) (tn_reader t2))) = take 64 ms" "th_sender (tn_reader t2)"
    by (simp_all add: receive_frames_def t2 tunnel_tcp_def chan_sends_new)
  show ?thesis using a r q try_recvs_queue [of "min 64 (length ms)" "receive_frames (take 64 ms) (tn_reader t2)"]
    by (simp add: read_half_try_recv_def chan_pop_def receive_frames_def min_def)
qed

theorem tcp_tunnel_end_to_end_witness:
  "\<exists>t1 t2 answers h r. tcp_tunnel (Inr ()) (Inr (SockV4 (Ipv4Addr 10 0 0 1) 5000)) (SockV4 (Ipv4Addr 10 0 0 2) 6000) = Inr t1 \<and>
     tcp_tunnel (Inr ()) (Inr (SockV4 (Ipv4Addr 10 0 0 2) 6000)) (SockV4 (Ipv4Addr 10 0 0 1) 5000) = Inr t2 \<and>
     try_sends [[7, 8], []] (tn_writer t1) = (answers, h) \<and> answers = [Inr (), Inr ()] \<and>
     try_recvs 2 (receive_frames [[7, 8], []] (tn_reader t2)) = ([Inr (Some [7, 8]), Inr (Some [])], r)"
proof -
  let ?a = "SockV4 (Ipv4Addr 10 0 0 1) 5000" and ?b = "SockV4 (Ipv4Addr 10 0 0 2) 6000"
  obtain t1 t2 where t: "tcp_tunnel (Inr ()) (Inr ?a) ?b = Inr t1" "tcp_tunnel (Inr ()) (Inr ?b) ?a = Inr t2"
    by (simp add: tcp_tunnel_def)
  obtain answers h where s: "try_sends [[7, 8], []] (tn_writer t1) = (answers, h)" by fastforce
  have o: "map fst (outgoing h) = [[7, 8], []]"
    using fresh_tunnel_sends [OF disjI2 s, of 64 "tcp_route_key (Inr ?a) ?b" "chan_new 64"] t(1) by (simp add: tcp_tunnel_def)
  have w: "tcp_write_task lp_encode (map fst (outgoing h)) [Wrote 3, Wrote 1, Wrote 2, Wrote 4] = (concat [[0], [0, 0], [2, 7, 8, 0, 0], [0, 0]], WriteDone)"
    "legal_task_writes lp_encode (map fst (outgoing h)) [Wrote 3, Wrote 1, Wrote 2, Wrote 4]"
    unfolding o by (simp_all add: lp_encode_def MAX_FRAME_LEN_def u32_to_be_def be_bytes_unroll)
  have "answers = [Inr (), Inr ()]"
    "\<exists>r. try_recvs 2 (receive_frames [[7, 8], []] (tn_reader t2)) = ([Inr (Some [7, 8]), Inr (Some [])], r)"
    using tcp_tunnel_end_to_end [OF t s w refl] by (auto simp: send_answers_def numeral_2_eq_2)
  then show ?thesis using t s by blast
qed

end
