(* ===== verification/Quic_Socket.thy ===== *)
theory Quic_Socket
  imports Protocol_Layer
begin

text \<open>
  The socket adapter \<open>QuicPeerSocket\<close> of \<open>rustp2p-quic/src/quic.rs\<close>: the table of synthetic addresses
  that stand for peers, and the QUIC library's view of the protocol layer as a UDP socket.
\<close>

section \<open>State\<close>

record virtual_peer =
  vp_peer :: peer_id
  vp_route :: "route_key option"

record quic_socket =
  qs_by_addr :: "(socket_addr, virtual_peer) dashmap"
  qs_by_peer :: "(peer_id, socket_addr) dashmap"
  qs_via :: "(peer_id \<times> route_key, socket_addr) dashmap"
  qs_routed :: "(bytes \<times> socket_addr) list"

definition quic_socket_new :: quic_socket where
  "quic_socket_new = \<lparr>qs_by_addr = [], qs_by_peer = [], qs_via = [], qs_routed = []\<rparr>"

definition plain_peer :: "peer_id \<Rightarrow> virtual_peer" where
  "plain_peer p = \<lparr>vp_peer = p, vp_route = None\<rparr>"

definition via_peer :: "peer_id \<Rightarrow> route_key \<Rightarrow> virtual_peer" where
  "via_peer p k = \<lparr>vp_peer = p, vp_route = Some k\<rparr>"

section \<open>Synthetic addresses\<close>

text \<open>The \<open>i\<close>-th pair of random numbers is \<open>rnd i\<close>; the fallback loop uses the first only.\<close>

definition virtual_addr :: "u16 \<Rightarrow> u16 \<Rightarrow> socket_addr" where
  "virtual_addr suffix port = SockV4 (Ipv4Addr 127 255 (ucast (drop_bit 8 suffix)) (ucast suffix)) port"

definition virtual_port :: "u16 \<Rightarrow> u16" where
  "virtual_port r = 1024 + r mod (0xffff - 1024)"

definition random_addr :: "(nat \<Rightarrow> u16 \<times> u16) \<Rightarrow> nat \<Rightarrow> socket_addr" where
  "random_addr rnd i = virtual_addr (fst (rnd i)) (virtual_port (snd (rnd i)))"

definition is_vacant :: "socket_addr \<Rightarrow> quic_socket \<Rightarrow> bool" where
  "is_vacant a s \<longleftrightarrow> dm_get (qs_by_addr s) a = None"

definition reserve_addr :: "socket_addr \<Rightarrow> virtual_peer \<Rightarrow> quic_socket \<Rightarrow> quic_socket" where
  "reserve_addr a vp s = s\<lparr>qs_by_addr := dm_insert a vp (qs_by_addr s)\<rparr>"

text \<open>The last loop has no bound: \<open>None\<close> means that it does not end.\<close>

partial_function (option) fallback_addr :: "(nat \<Rightarrow> u16 \<times> u16) \<Rightarrow> nat \<Rightarrow> quic_socket \<Rightarrow> socket_addr option" where
  "fallback_addr rnd i s =
     (let a = virtual_addr (fst (rnd i)) 4433
      in if is_vacant a s then Some a else fallback_addr rnd (i + 1) s)"

definition choose_addr :: "(nat \<Rightarrow> u16 \<times> u16) \<Rightarrow> quic_socket \<Rightarrow> socket_addr option" where
  "choose_addr rnd s =
     (case find (\<lambda>a. is_vacant a s) (map (random_addr rnd) [0..<128]) of
        Some a \<Rightarrow> Some a
      | None \<Rightarrow> fallback_addr rnd 128 s)"

definition allocate_virtual_addr ::
  "(nat \<Rightarrow> u16 \<times> u16) \<Rightarrow> virtual_peer \<Rightarrow> quic_socket \<Rightarrow> (socket_addr \<times> quic_socket) option" where
  "allocate_virtual_addr rnd vp s =
     (case choose_addr rnd s of Some a \<Rightarrow> Some (a, reserve_addr a vp s) | None \<Rightarrow> None)"

definition release_reserved_virtual_addr :: "socket_addr \<Rightarrow> virtual_peer \<Rightarrow> quic_socket \<Rightarrow> quic_socket" where
  "release_reserved_virtual_addr a vp s = s\<lparr>qs_by_addr := dm_remove_if a (\<lambda>v. v = vp) (qs_by_addr s)\<rparr>"

definition ensure_virtual_mapping :: "socket_addr \<Rightarrow> virtual_peer \<Rightarrow> quic_socket \<Rightarrow> quic_socket" where
  "ensure_virtual_mapping a vp s = s\<lparr>qs_by_addr := dm_insert a vp (qs_by_addr s)\<rparr>"

section \<open>Registration\<close>

text \<open>
  \<open>race\<close> is what other tasks do to the table between the reservation of an address and its
  publication; the identity when nothing intervenes.
\<close>

definition register_virtual_peer ::
  "(nat \<Rightarrow> u16 \<times> u16) \<Rightarrow> (quic_socket \<Rightarrow> quic_socket) \<Rightarrow> peer_id \<Rightarrow> quic_socket \<Rightarrow> (socket_addr \<times> quic_socket) option" where
  "register_virtual_peer rnd race p s =
     (case dm_get (qs_by_peer s) p of
        Some a \<Rightarrow> Some (a, ensure_virtual_mapping a (plain_peer p) s)
      | None \<Rightarrow>
          (case allocate_virtual_addr rnd (plain_peer p) s of
             None \<Rightarrow> None
           | Some (a, s1) \<Rightarrow>
               (let s2 = race s1 in
                case dm_get (qs_by_peer s2) p of
                  None \<Rightarrow> Some (a, s2\<lparr>qs_by_peer := dm_insert p a (qs_by_peer s2)\<rparr>)
                | Some b \<Rightarrow>
                    Some (b, ensure_virtual_mapping b (plain_peer p)
                               (release_reserved_virtual_addr a (plain_peer p) s2)))))"

definition register_virtual_peer_via ::
  "(nat \<Rightarrow> u16 \<times> u16) \<Rightarrow> (quic_socket \<Rightarrow> quic_socket) \<Rightarrow> peer_id \<Rightarrow> route_key \<Rightarrow> quic_socket \<Rightarrow> (socket_addr \<times> quic_socket) option" where
  "register_virtual_peer_via rnd race p k s =
     (case dm_get (qs_via s) (p, k) of
        Some a \<Rightarrow> Some (a, ensure_virtual_mapping a (via_peer p k) s)
      | None \<Rightarrow>
          (case allocate_virtual_addr rnd (via_peer p k) s of
             None \<Rightarrow> None
           | Some (a, s1) \<Rightarrow>
               (let s2 = race s1 in
                case dm_get (qs_via s2) (p, k) of
                  None \<Rightarrow> Some (a, s2\<lparr>qs_via := dm_insert (p, k) a (qs_via s2)\<rparr>)
                | Some b \<Rightarrow>
                    Some (b, ensure_virtual_mapping b (via_peer p k)
                               (release_reserved_virtual_addr a (via_peer p k) s2)))))"

definition peer_for_virtual_addr :: "socket_addr \<Rightarrow> quic_socket \<Rightarrow> peer_id option" where
  "peer_for_virtual_addr a s = map_option vp_peer (dm_get (qs_by_addr s) a)"

definition release_virtual_peer :: "peer_id \<Rightarrow> quic_socket \<Rightarrow> quic_socket" where
  "release_virtual_peer p s =
     (case dm_get (qs_by_peer s) p of
        None \<Rightarrow> s
      | Some a \<Rightarrow> s\<lparr>qs_by_peer := dm_remove p (qs_by_peer s), qs_by_addr := dm_remove a (qs_by_addr s)\<rparr>)"

definition release_virtual_peer_via :: "peer_id \<Rightarrow> route_key \<Rightarrow> quic_socket \<Rightarrow> quic_socket" where
  "release_virtual_peer_via p k s =
     (case dm_get (qs_via s) (p, k) of
        None \<Rightarrow> s
      | Some a \<Rightarrow> s\<lparr>qs_via := dm_remove (p, k) (qs_via s), qs_by_addr := dm_remove a (qs_by_addr s)\<rparr>)"

section \<open>The UDP socket of the QUIC library\<close>

definition inject_routed_quic :: "bytes \<Rightarrow> socket_addr \<Rightarrow> quic_socket \<Rightarrow> quic_socket" where
  "inject_routed_quic data a s = s\<lparr>qs_routed := qs_routed s @ [(data, a)]\<rparr>"

definition quic_try_send :: "quic_socket \<Rightarrow> socket_addr \<Rightarrow> bytes \<Rightarrow> unit act" where
  "quic_try_send s dest contents =
     (case dm_get (qs_by_addr s) dest of
        Some vp \<Rightarrow>
          (case vp_route vp of
             Some k \<Rightarrow> try_send_quic_payload_via (vp_peer vp) k contents
           | None \<Rightarrow> try_send_quic_payload (vp_peer vp) contents)
      | None \<Rightarrow> (\<lambda>n. (Fail (IoError NotFound ''unknown synthetic QUIC destination''), n)))"

text \<open>
  \<open>poll_recv\<close> into buffers of the given sizes: a packet and its address, \<open>None\<close> for pending. Only the
  first buffer is used and a packet is cut to its size.
\<close>

definition quic_poll_recv ::
  "nat list \<Rightarrow> nat \<Rightarrow> quic_socket \<Rightarrow> (bytes \<times> socket_addr) option io_result \<times> quic_socket" where
  "quic_poll_recv bufs metas s =
     (if bufs = [] \<or> metas = 0 then
        (Inl (IoError InvalidInput ''poll_recv requires non-empty bufs and meta''), s)
      else (case qs_routed s of
          [] \<Rightarrow> (Inr None, s)
        | (data, a) # rest \<Rightarrow> (Inr (Some (take (min (length data) (hd bufs)) data, a)), s\<lparr>qs_routed := rest\<rparr>)))"

definition quic_local_addr :: socket_addr where
  "quic_local_addr = SockV4 (Ipv4Addr 127 255 0 1) 0"

section \<open>Allocation\<close>

lemma fallback_addr_vacant:
  assumes "fallback_addr rnd i s = Some a"
  shows "is_vacant a s \<and> (\<exists>x. a = virtual_addr x 4433)"
  by (rule fallback_addr.raw_induct [where P = "\<lambda>rnd i s a. is_vacant a s \<and> (\<exists>x. a = virtual_addr x 4433)", OF _ assms])
    (auto simp: Let_def split: if_splits)

lemma fallback_addr_ends:
  assumes "is_vacant (virtual_addr (fst (rnd j)) 4433) s" "i \<le> j"
  shows "\<exists>a. fallback_addr rnd i s = Some a"
  using assms(2,1)
proof (induction i rule: inc_induct)
  case base
  then show ?case by (simp add: fallback_addr.simps)
next
  case (step i)
  then show ?case by (subst fallback_addr.simps) (simp add: Let_def)
qed

lemma choose_addr_vacant: "choose_addr rnd s = Some a \<Longrightarrow> is_vacant a s"
  using fallback_addr_vacant by (auto simp: choose_addr_def split: option.splits dest: find_SomeD)

lemma virtual_port_bounds: "1024 \<le> unat (virtual_port r) \<and> unat (virtual_port r) \<le> 65534"
proof -
  have "unat r mod 64511 < 64511" by simp
  then show ?thesis
    by (simp add: virtual_port_def unat_word_ariths unat_mod)
qed

lemma choose_addr_shape:
  assumes "choose_addr rnd s = Some a"
  shows "\<exists>x port. a = virtual_addr x port \<and> 1024 \<le> unat port"
proof (cases "find (\<lambda>a. is_vacant a s) (map (random_addr rnd) [0..<128])")
  case None
  then have "fallback_addr rnd 128 s = Some a" using assms by (simp add: choose_addr_def)
  then obtain x where x: "a = virtual_addr x 4433" using fallback_addr_vacant by blast
  show ?thesis by (rule exI [of _ x], rule exI [of _ 4433]) (simp add: x)
next
  case (Some b)
  then have "a \<in> set (map (random_addr rnd) [0..<128])" using assms by (auto simp: choose_addr_def dest: find_SomeD)
  then show ?thesis using virtual_port_bounds by (auto simp: random_addr_def)
qed

section \<open>Tasks that share the table\<close>

text \<open>
  The table together with the reservations of the registrations that are under way. A registration
  reserves an address and later publishes it or finds that another task was faster; every other
  operation of the table is atomic.
\<close>

type_synonym sock_sys = "quic_socket \<times> (socket_addr \<times> virtual_peer) list"

definition lookup_vp :: "virtual_peer \<Rightarrow> quic_socket \<Rightarrow> socket_addr option" where
  "lookup_vp vp s = (case vp_route vp of
      None \<Rightarrow> dm_get (qs_by_peer s) (vp_peer vp) | Some k \<Rightarrow> dm_get (qs_via s) (vp_peer vp, k))"

definition publish_vp :: "virtual_peer \<Rightarrow> socket_addr \<Rightarrow> quic_socket \<Rightarrow> quic_socket" where
  "publish_vp vp a s = (case vp_route vp of
      None \<Rightarrow> s\<lparr>qs_by_peer := dm_insert (vp_peer vp) a (qs_by_peer s)\<rparr>
    | Some k \<Rightarrow> s\<lparr>qs_via := dm_insert (vp_peer vp, k) a (qs_via s)\<rparr>)"

definition withdraw_vp :: "virtual_peer \<Rightarrow> quic_socket \<Rightarrow> quic_socket" where
  "withdraw_vp vp s = (case vp_route vp of
      None \<Rightarrow> release_virtual_peer (vp_peer vp) s
    | Some k \<Rightarrow> release_virtual_peer_via (vp_peer vp) k s)"

text \<open>What a registration does after its reservation.\<close>

definition settle_vp :: "socket_addr \<Rightarrow> virtual_peer \<Rightarrow> quic_socket \<Rightarrow> socket_addr \<times> quic_socket" where
  "settle_vp a vp s = (case lookup_vp vp s of
      None \<Rightarrow> (a, publish_vp vp a s)
    | Some b \<Rightarrow> (b, ensure_virtual_mapping b vp (release_reserved_virtual_addr a vp s)))"

inductive sock_step :: "sock_sys \<Rightarrow> sock_sys \<Rightarrow> bool" where
  step_refresh: "lookup_vp vp s = Some a \<Longrightarrow> sock_step (s, pend) (ensure_virtual_mapping a vp s, pend)"
| step_reserve: "choose_addr rnd s = Some a \<Longrightarrow> sock_step (s, pend) (reserve_addr a vp s, (a, vp) # pend)"
| step_settle: "(a, vp) \<in> set pend \<Longrightarrow> sock_step (s, pend) (snd (settle_vp a vp s), remove1 (a, vp) pend)"
| step_release: "sock_step (s, pend) (withdraw_vp vp s, pend)"
| step_inject: "sock_step (s, pend) (inject_routed_quic d a s, pend)"
| step_poll: "sock_step (s, pend) (snd (quic_poll_recv bufs metas s), pend)"

inductive sock_steps :: "sock_sys \<Rightarrow> sock_sys \<Rightarrow> bool" where
  steps_refl: "sock_steps x x"
| steps_step: "sock_step x y \<Longrightarrow> sock_steps y z \<Longrightarrow> sock_steps x z"

definition sock_inv :: "sock_sys \<Rightarrow> bool" where
  "sock_inv = (\<lambda>(s, pend).
     (\<forall>vp a. lookup_vp vp s = Some a \<longrightarrow> dm_get (qs_by_addr s) a = Some vp) \<and>
     (\<forall>(a, vp) \<in> set pend. dm_get (qs_by_addr s) a = Some vp \<and> lookup_vp vp s \<noteq> Some a) \<and>
     distinct (map fst pend))"

lemma lookup_plain [simp]: "lookup_vp (plain_peer p) s = dm_get (qs_by_peer s) p"
  by (simp add: lookup_vp_def plain_peer_def)

lemma lookup_via [simp]: "lookup_vp (via_peer p k) s = dm_get (qs_via s) (p, k)"
  by (simp add: lookup_vp_def via_peer_def)

lemma vp_cases: "(\<exists>p. vp = plain_peer p) \<or> (\<exists>p k. vp = via_peer p k)"
  by (cases vp; cases "vp_route vp") (auto simp: plain_peer_def via_peer_def)

lemma vp_simps [simp]:
  "plain_peer p = plain_peer q \<longleftrightarrow> p = q" "via_peer p k = via_peer q l \<longleftrightarrow> p = q \<and> k = l"
  "plain_peer p \<noteq> via_peer q l" "via_peer q l \<noteq> plain_peer p"
  by (auto simp: plain_peer_def via_peer_def)

lemma lookup_publish [simp]: "lookup_vp vp (publish_vp w a s) = (if vp = w then Some a else lookup_vp vp s)"
  using vp_cases [of vp] vp_cases [of w]
  by (auto simp: publish_vp_def plain_peer_def via_peer_def lookup_vp_def split: if_splits)

lemma lookup_withdraw [simp]: "lookup_vp vp (withdraw_vp w s) = (if vp = w then None else lookup_vp vp s)"
  using vp_cases [of vp] vp_cases [of w]
  by (auto simp: withdraw_vp_def release_virtual_peer_def release_virtual_peer_via_def
      plain_peer_def via_peer_def lookup_vp_def split: option.splits)

lemma by_addr_publish [simp]: "qs_by_addr (publish_vp w a s) = qs_by_addr s"
  by (simp add: publish_vp_def split: option.splits)

lemma by_addr_withdraw [simp]:
  "dm_get (qs_by_addr (withdraw_vp w s)) = (case lookup_vp w s of
     None \<Rightarrow> dm_get (qs_by_addr s) | Some a \<Rightarrow> (dm_get (qs_by_addr s))(a := None))"
  by (auto simp: withdraw_vp_def release_virtual_peer_def release_virtual_peer_via_def lookup_vp_def split: option.splits)

lemma by_addr_ops [simp]:
  "dm_get (qs_by_addr (reserve_addr a vp s)) = (dm_get (qs_by_addr s))(a \<mapsto> vp)"
  "dm_get (qs_by_addr (ensure_virtual_mapping a vp s)) = (dm_get (qs_by_addr s))(a \<mapsto> vp)"
  "qs_by_addr (inject_routed_quic d a s) = qs_by_addr s"
  "qs_by_addr (snd (quic_poll_recv bufs metas s)) = qs_by_addr s"
  by (auto simp: reserve_addr_def ensure_virtual_mapping_def inject_routed_quic_def quic_poll_recv_def
      split: list.splits)

lemma by_addr_release_reserved [simp]:
  "dm_get (qs_by_addr (release_reserved_virtual_addr a vp s)) =
     (\<lambda>x. if x = a \<and> dm_get (qs_by_addr s) a = Some vp then None else dm_get (qs_by_addr s) x)"
  by (rule ext) (simp add: release_reserved_virtual_addr_def)

lemma lookup_ops [simp]:
  "lookup_vp w (reserve_addr a vp s) = lookup_vp w s"
  "lookup_vp w (ensure_virtual_mapping a vp s) = lookup_vp w s"
  "lookup_vp w (release_reserved_virtual_addr a vp s) = lookup_vp w s"
  "lookup_vp w (inject_routed_quic d a s) = lookup_vp w s"
  "lookup_vp w (snd (quic_poll_recv bufs metas s)) = lookup_vp w s"
  by (auto simp: lookup_vp_def reserve_addr_def ensure_virtual_mapping_def inject_routed_quic_def quic_poll_recv_def
      release_reserved_virtual_addr_def split: list.splits option.splits)

lemma sock_invI:
  assumes "\<And>vp a. lookup_vp vp s = Some a \<Longrightarrow> dm_get (qs_by_addr s) a = Some vp"
    and "\<And>a vp. (a, vp) \<in> set pend \<Longrightarrow> dm_get (qs_by_addr s) a = Some vp \<and> lookup_vp vp s \<noteq> Some a"
    and "distinct (map fst pend)"
  shows "sock_inv (s, pend)"
  using assms by (auto simp: sock_inv_def)

lemma sock_invD:
  assumes "sock_inv (s, pend)"
  shows "lookup_vp vp s = Some a \<Longrightarrow> dm_get (qs_by_addr s) a = Some vp"
    and "(a, vp) \<in> set pend \<Longrightarrow> dm_get (qs_by_addr s) a = Some vp"
    and "(a, vp) \<in> set pend \<Longrightarrow> lookup_vp vp s \<noteq> Some a"
    and "distinct (map fst pend)"
  using assms by (auto simp: sock_inv_def)

lemma sock_inv_init: "sock_inv (quic_socket_new, [])"
  by (rule sock_invI) (auto simp: quic_socket_new_def lookup_vp_def split: option.splits)

lemma settle_inv:
  assumes inv: "sock_inv (s, pend)" and pend: "(a, vp) \<in> set pend"
  shows "sock_inv (snd (settle_vp a vp s), remove1 (a, vp) pend)"
    and "lookup_vp vp (snd (settle_vp a vp s)) = Some (fst (settle_vp a vp s))"
proof -
  note D = sock_invD [OF inv]
  have dist: "distinct pend" using D(4) distinct_map by blast
  have fresh: "x \<noteq> a" if "(x, w) \<in> set (remove1 (a, vp) pend)" for x w
  proof
    assume "x = a"
    with that dist have "(a, w) \<in> set pend" "(a, w) \<noteq> (a, vp)" by auto
    then show False using D(4) pend by (metis Pair_inject eq_key_imp_eq_value)
  qed
  have mem: "(x, w) \<in> set pend" if "(x, w) \<in> set (remove1 (a, vp) pend)" for x w
    using that set_remove1_subset by fastforce
  show "sock_inv (snd (settle_vp a vp s), remove1 (a, vp) pend)"
  proof (rule sock_invI)
    show "distinct (map fst (remove1 (a, vp) pend))" using D(4) dist by (auto simp: distinct_map inj_on_def)
  next
    fix w x assume "lookup_vp w (snd (settle_vp a vp s)) = Some x"
    then show "dm_get (qs_by_addr (snd (settle_vp a vp s))) x = Some w"
      using D(1) [of w x] D(2,3) [OF pend]
      by (cases "lookup_vp vp s"; cases "w = vp") (auto simp: settle_vp_def dest: D(1))
  next
    fix x w assume xw: "(x, w) \<in> set (remove1 (a, vp) pend)"
    note m = fresh [OF xw] D(2,3) [OF mem [OF xw]]
    show "dm_get (qs_by_addr (snd (settle_vp a vp s))) x = Some w \<and> lookup_vp w (snd (settle_vp a vp s)) \<noteq> Some x"
      using m D(1) [of vp x] by (cases "lookup_vp vp s") (auto simp: settle_vp_def)
  qed
  show "lookup_vp vp (snd (settle_vp a vp s)) = Some (fst (settle_vp a vp s))"
    by (simp add: settle_vp_def split: option.splits)
qed

lemma reserve_inv:
  assumes inv: "sock_inv (s, pend)" and a: "choose_addr rnd s = Some a"
  shows "sock_inv (reserve_addr a vp s, (a, vp) # pend)"
proof -
  note D = sock_invD [OF inv]
  have v: "dm_get (qs_by_addr s) a = None" using choose_addr_vacant [OF a] by (simp add: is_vacant_def)
  show ?thesis
  proof (rule sock_invI)
    show "distinct (map fst ((a, vp) # pend))" using D(2,4) v by force
  qed (use D v in \<open>auto\<close>)
qed

lemma withdraw_inv:
  assumes inv: "sock_inv (s, pend)"
  shows "sock_inv (withdraw_vp vp s, pend)"
proof (rule sock_invI)
  note D = sock_invD [OF inv]
  show "distinct (map fst pend)" by (rule D(4))
  show "lookup_vp w (withdraw_vp vp s) = Some x \<Longrightarrow> dm_get (qs_by_addr (withdraw_vp vp s)) x = Some w" for w x
    using D(1) [of w x] D(1) [of vp x] by (auto split: option.splits if_splits)
  show "(x, w) \<in> set pend \<Longrightarrow> dm_get (qs_by_addr (withdraw_vp vp s)) x = Some w \<and> lookup_vp w (withdraw_vp vp s) \<noteq> Some x" for x w
    using D(2,3) [of x w] D(1) [of vp x] by (auto split: option.splits)
qed

lemma sock_step_inv: "sock_step x y \<Longrightarrow> sock_inv x \<Longrightarrow> sock_inv y"
proof (induction rule: sock_step.induct)
  case (step_refresh vp s a pend)
  note D = sock_invD [OF step_refresh(2)]
  note m = D(1) [OF step_refresh(1)]
  have same: "(dm_get (qs_by_addr s))(a \<mapsto> vp) = dm_get (qs_by_addr s)" using m by (simp add: fun_upd_idem)
  show ?case by (rule sock_invI) (use D same in \<open>simp_all\<close>)
next
  case (step_inject s pend d a)
  note D = sock_invD [OF step_inject]
  show ?case by (rule sock_invI) (use D in \<open>auto\<close>)
next
  case (step_poll s pend bufs metas)
  note D = sock_invD [OF step_poll]
  show ?case by (rule sock_invI) (use D in \<open>auto\<close>)
qed (simp_all add: settle_inv reserve_inv withdraw_inv)

lemma sock_steps_inv: "sock_steps x y \<Longrightarrow> sock_inv x \<Longrightarrow> sock_inv y"
  by (induction rule: sock_steps.induct) (auto intro: sock_step_inv)

lemma register_virtual_peer_eq:
  "register_virtual_peer rnd race p s = (case lookup_vp (plain_peer p) s of
     Some a \<Rightarrow> Some (a, ensure_virtual_mapping a (plain_peer p) s)
   | None \<Rightarrow> map_option (\<lambda>a. settle_vp a (plain_peer p) (race (reserve_addr a (plain_peer p) s))) (choose_addr rnd s))"
  by (simp add: register_virtual_peer_def allocate_virtual_addr_def settle_vp_def publish_vp_def Let_def
      split: option.splits) (simp add: plain_peer_def)

lemma register_virtual_peer_via_eq:
  "register_virtual_peer_via rnd race p k s = (case lookup_vp (via_peer p k) s of
     Some a \<Rightarrow> Some (a, ensure_virtual_mapping a (via_peer p k) s)
   | None \<Rightarrow> map_option (\<lambda>a. settle_vp a (via_peer p k) (race (reserve_addr a (via_peer p k) s))) (choose_addr rnd s))"
  by (simp add: register_virtual_peer_via_def allocate_virtual_addr_def settle_vp_def publish_vp_def Let_def
      split: option.splits) (simp add: via_peer_def)

text \<open>
  A registration races with the other tasks when they, starting after its reservation, take any
  number of steps of their own, none of them the settling of this very reservation.
\<close>

definition races_with :: "(quic_socket \<Rightarrow> quic_socket) \<Rightarrow> (nat \<Rightarrow> u16 \<times> u16) \<Rightarrow> virtual_peer \<Rightarrow> sock_sys \<Rightarrow> (socket_addr \<times> virtual_peer) list \<Rightarrow> bool" where
  "races_with race rnd vp x pend' \<longleftrightarrow> (case x of (s, pend) \<Rightarrow>
     \<forall>a. choose_addr rnd s = Some a \<longrightarrow>
       sock_steps (reserve_addr a vp s, (a, vp) # pend) (race (reserve_addr a vp s), (a, vp) # pend'))"

lemma races_with_id: "races_with (\<lambda>s. s) rnd vp (s, pend) pend"
  by (simp add: races_with_def steps_refl)

lemma register_race_ok:
  assumes inv: "sock_inv (s, pend)" and race: "races_with race rnd vp (s, pend) pend'"
    and new: "lookup_vp vp s = None" and a: "choose_addr rnd s = Some a"
    and r: "settle_vp a vp (race (reserve_addr a vp s)) = (b, s')"
  shows "sock_inv (s', pend')" and "lookup_vp vp s' = Some b"
proof -
  have st: "sock_steps (reserve_addr a vp s, (a, vp) # pend) (race (reserve_addr a vp s), (a, vp) # pend')"
    using race a by (simp add: races_with_def)
  have i: "sock_inv (race (reserve_addr a vp s), (a, vp) # pend')"
    by (rule sock_steps_inv [OF st reserve_inv [OF inv a]])
  show "sock_inv (s', pend')" "lookup_vp vp s' = Some b"
    using settle_inv [OF i, of a vp] r by auto
qed

lemma register_race:
  assumes inv: "sock_inv (s, pend)" and race: "races_with race rnd vp (s, pend) pend'"
    and r: "(case lookup_vp vp s of
        Some a \<Rightarrow> Some (a, ensure_virtual_mapping a vp s)
      | None \<Rightarrow> map_option (\<lambda>a. settle_vp a vp (race (reserve_addr a vp s))) (choose_addr rnd s)) = Some (b, s')"
  shows "sock_inv (s', if lookup_vp vp s = None then pend' else pend)" "lookup_vp vp s' = Some b"
    "dm_get (qs_by_addr s') b = Some vp"
proof -
  have "sock_inv (s', if lookup_vp vp s = None then pend' else pend) \<and> lookup_vp vp s' = Some b"
  proof (cases "lookup_vp vp s")
    case None
    then obtain a where "choose_addr rnd s = Some a" "settle_vp a vp (race (reserve_addr a vp s)) = (b, s')"
      using r by auto
    from register_race_ok [OF inv race None this] None show ?thesis by simp
  next
    case (Some a)
    then have eq: "b = a" "s' = ensure_virtual_mapping a vp s" using r by auto
    show ?thesis using sock_step_inv [OF step_refresh [OF Some] inv] Some by (simp add: eq)
  qed
  then show "sock_inv (s', if lookup_vp vp s = None then pend' else pend)" "lookup_vp vp s' = Some b"
    "dm_get (qs_by_addr s') b = Some vp"
    using sock_invD(1) by blast+
qed


lemma choose_addr_first: "is_vacant (random_addr rnd 0) s \<Longrightarrow> choose_addr rnd s = Some (random_addr rnd 0)"
  by (simp add: choose_addr_def upt_conv_Cons)

text \<open>Another task that reserves an address for the same peer and publishes it first.\<close>

definition sample_race :: "quic_socket \<Rightarrow> quic_socket" where
  "sample_race s = (case register_virtual_peer (\<lambda>i. (7, 7)) (\<lambda>s. s) (PeerId [0x62]) s of Some (_, s') \<Rightarrow> s' | None \<Rightarrow> s)"

lemma sample_race_steps:
  assumes "dm_get (qs_by_peer s) (PeerId [0x62]) = None" "is_vacant (random_addr (\<lambda>i. (7, 7)) 0) s"
  shows "sock_steps (s, pend) (sample_race s, pend)"
proof -
  define a vp where "a = random_addr (\<lambda>i. (7, 7)) 0" and "vp = plain_peer (PeerId [0x62])"
  have "choose_addr (\<lambda>i. (7, 7)) s = Some a" using choose_addr_first [OF assms(2)] by (simp add: a_def)
  then have "sock_step (s, pend) (reserve_addr a vp s, (a, vp) # pend)" and
    eq: "sample_race s = snd (settle_vp a vp (reserve_addr a vp s))"
    using assms(1) by (auto intro: step_reserve simp: sample_race_def register_virtual_peer_eq vp_def split: prod.splits)
  moreover have "sock_step (reserve_addr a vp s, (a, vp) # pend) (sample_race s, pend)"
    using step_settle [of a vp "(a, vp) # pend" "reserve_addr a vp s"] by (simp add: eq)
  ultimately show ?thesis by (blast intro: sock_steps.intros)
qed



text \<open>
  Allocation ends with a fresh address as soon as one of the random draws of its unbounded loop is free:
  the result was not in use, lies in 127.255.0.0/16, has an unprivileged port, and is reserved for the peer; no
  other entry of the table changes.
\<close>

theorem allocate_virtual_addr_terminates:
  assumes "i \<ge> 128" "is_vacant (virtual_addr (fst (rnd i)) 4433) s"
  shows "\<exists>a s'. allocate_virtual_addr rnd vp s = Some (a, s') \<and> dm_get (qs_by_addr s) a = None \<and>
      dm_get (qs_by_addr s') = (dm_get (qs_by_addr s))(a \<mapsto> vp) \<and> qs_by_peer s' = qs_by_peer s \<and> qs_via s' = qs_via s \<and>
      (\<exists>x port. a = virtual_addr x port \<and> 1024 \<le> unat port)"
proof -
  obtain a where a: "choose_addr rnd s = Some a"
    using fallback_addr_ends [of rnd i s 128] assms
    by (cases "find (\<lambda>a. is_vacant a s) (map (random_addr rnd) [0..<128])") (auto simp: choose_addr_def)
  show ?thesis using choose_addr_vacant [OF a] choose_addr_shape [OF a]
    by (simp add: allocate_virtual_addr_def a is_vacant_def) (simp add: reserve_addr_def)
qed

theorem allocate_virtual_addr_terminates_witness:
  "\<exists>a s'. allocate_virtual_addr (\<lambda>i. (of_nat i, 0)) (plain_peer (PeerId [0x62])) quic_socket_new = Some (a, s') \<and>
     dm_get (qs_by_addr s') a = Some (plain_peer (PeerId [0x62]))"
  using allocate_virtual_addr_terminates [of 200 "\<lambda>i. (of_nat i, 0)" quic_socket_new "plain_peer (PeerId [0x62])"]
  by (auto simp: is_vacant_def quic_socket_new_def)

end
