(* ===== verification/Quic_Endpoint.thy ===== *)
theory Quic_Endpoint
  imports Quic_Socket
begin

text \<open>
  The \<open>QuicEndpoint\<close> of \<open>rustp2p-quic/src/quic.rs\<close> with \<open>connection.rs\<close>: connection caches, datagrams,
  streams and their headers, the accept and transport loops, the tasks of a connection and what
  they clean up. The QUIC library itself is outside: how a connection attempt, a datagram or a stream
  ends, which connections are closed, and what other tasks do while a call waits come from a \<open>quinn\<close>
  record. \<open>Stuck\<close> stands for a call that waits without end.
\<close>

section \<open>State\<close>

record connection =
  cn_id :: nat
  cn_addr :: socket_addr

record received_message =
  rm_payload :: bytes
  rm_src :: peer_id
  rm_dest :: peer_id
  rm_route :: route_key
  rm_ttl :: u8
  rm_max_ttl :: u8
  rm_is_relay :: bool
  rm_is_broadcast :: bool

text \<open>A stream is its number at the QUIC library and, for the receive half, the bytes still to come.\<close>

record incoming_bi_stream =
  is_peer :: peer_id
  is_send :: nat
  is_recv :: bytes

text \<open>The two tasks of a connection: \<open>ct_streams\<close> tells the stream task from the datagram task.\<close>

record connection_task =
  ct_conn :: connection
  ct_peer :: "peer_id option"
  ct_via :: "route_key option"
  ct_streams :: bool

record quic =
  q_node :: node
  q_id :: peer_id
  q_sock :: quic_socket
  q_closed :: bool
  q_conns :: "(peer_id, connection) dashmap"
  q_via :: "(peer_id \<times> route_key, connection) dashmap"
  q_tasks :: "nat set"
  q_seen :: "(peer_id \<times> u64) set"
  q_inbox :: "received_message list"
  q_streams :: "incoming_bi_stream list"
  q_spawned :: "connection_task list"
  q_accepting :: bool
  q_pumping :: bool
  q_sent :: "(nat \<times> bytes) list"
  q_delivered :: "(peer_id \<times> u64) list"

text \<open>
  The last five fields are not in the struct: the running tasks of connections, whether the accept
  loop and the transport loop still run, the datagrams handed to the QUIC library, and the source and id of
  every message put into the inbox so far.
\<close>

definition INBOX_QUEUE :: nat where "INBOX_QUEUE = 512"
definition STREAM_QUEUE :: nat where "STREAM_QUEUE = 128"

definition quic_bind :: "peer_id \<Rightarrow> node \<Rightarrow> quic" where
  "quic_bind p n =
     \<lparr>q_node = n, q_id = p, q_sock = quic_socket_new, q_closed = False, q_conns = [], q_via = [], q_tasks = {},
      q_seen = {}, q_inbox = [], q_streams = [], q_spawned = [], q_accepting = True, q_pumping = True, q_sent = [],
      q_delivered = []\<rparr>"

section \<open>The QUIC library\<close>

text \<open>How \<open>endpoint.connect\<close> and the handshake end; after the handshake, 50 ms pass.\<close>

datatype handshake =
    ConnectRefused
  | HandshakeTimeout
  | HandshakeFailed
  | Established (hs_id: nat) (hs_closed: bool)

record quinn =
  qn_rnd :: "nat \<Rightarrow> u16 \<times> u16"
  qn_race :: "quic_socket \<Rightarrow> quic_socket"
  qn_closed :: "nat \<Rightarrow> bool"
  qn_connect :: "socket_addr \<Rightarrow> handshake"
  qn_meanwhile :: "quic \<Rightarrow> quic"
  qn_closed_later :: "nat \<Rightarrow> bool"
  qn_datagram_id :: u64
  qn_datagram :: "nat \<Rightarrow> unit io_result"
  qn_open_bi :: "nat \<Rightarrow> nat io_result"
  qn_write :: "nat \<Rightarrow> unit io_result"

type_synonym 'a qact = "quic \<Rightarrow> 'a eff \<times> quic"

definition qret :: "'a \<Rightarrow> 'a qact" where
  "qret x q = (Done x, q)"

definition qfail :: "error_kind \<Rightarrow> string \<Rightarrow> 'a qact" where
  "qfail k msg q = (Fail (IoError k msg), q)"

definition qupd :: "(quic \<Rightarrow> quic) \<Rightarrow> unit qact" where
  "qupd f q = (Done (), f q)"

definition qbind :: "'a qact \<Rightarrow> ('a \<Rightarrow> 'b qact) \<Rightarrow> 'b qact" where
  "qbind m f q = (case m q of (Done x, q') \<Rightarrow> f x q' | (Fail e, q') \<Rightarrow> (Fail e, q') | (Stuck, q') \<Rightarrow> (Stuck, q'))"

definition on_node :: "'a act \<Rightarrow> 'a qact" where
  "on_node m q = (case m (q_node q) of (r, n) \<Rightarrow> (r, q\<lparr>q_node := n\<rparr>))"

definition upd_sock :: "(quic_socket \<Rightarrow> quic_socket) \<Rightarrow> quic \<Rightarrow> quic" where
  "upd_sock f q = q\<lparr>q_sock := f (q_sock q)\<rparr>"

definition qregister :: "quinn \<Rightarrow> peer_id \<Rightarrow> socket_addr qact" where
  "qregister w p q =
     (case register_virtual_peer (qn_rnd w) (qn_race w) p (q_sock q) of
        None \<Rightarrow> (Stuck, q) | Some (a, s) \<Rightarrow> (Done a, q\<lparr>q_sock := s\<rparr>))"

definition qregister_via :: "quinn \<Rightarrow> peer_id \<Rightarrow> route_key \<Rightarrow> socket_addr qact" where
  "qregister_via w p k q =
     (case register_virtual_peer_via (qn_rnd w) (qn_race w) p k (q_sock q) of
        None \<Rightarrow> (Stuck, q) | Some (a, s) \<Rightarrow> (Done a, q\<lparr>q_sock := s\<rparr>))"

section \<open>Connections\<close>

definition connect_quic_addr :: "quinn \<Rightarrow> socket_addr \<Rightarrow> connection io_result" where
  "connect_quic_addr w a =
     (case qn_connect w a of
        ConnectRefused \<Rightarrow> Inl (IoError Other ''connect'')
      | HandshakeTimeout \<Rightarrow> Inl (IoError TimedOut ''QUIC handshake timed out'')
      | HandshakeFailed \<Rightarrow> Inl (IoError Other ''handshake'')
      | Established i closed \<Rightarrow>
          if closed then Inl (IoError Other ''connection closed'')
          else Inr \<lparr>cn_id = i, cn_addr = a\<rparr>)"

definition start_connection_tasks :: "connection \<Rightarrow> route_key option \<Rightarrow> quic \<Rightarrow> quic" where
  "start_connection_tasks conn via q =
     (if cn_id conn \<in> q_tasks q then q
      else let peer = peer_for_virtual_addr (cn_addr conn) (q_sock q);
               task = (\<lambda>streams. \<lparr>ct_conn = conn, ct_peer = peer, ct_via = via, ct_streams = streams\<rparr>)
           in q\<lparr>q_tasks := insert (cn_id conn) (q_tasks q), q_spawned := q_spawned q @ [task True, task False]\<rparr>)"

definition live_connection :: "('k, connection) dashmap \<Rightarrow> (nat \<Rightarrow> bool) \<Rightarrow> 'k \<Rightarrow> connection option" where
  "live_connection m closed k =
     (case dm_get m k of Some c \<Rightarrow> if closed (cn_id c) then None else Some c | None \<Rightarrow> None)"

text \<open>The connection attempt waits: \<open>qn_meanwhile\<close> is what the other tasks do to the endpoint until it ends.\<close>

definition connection_to_at :: "quinn \<Rightarrow> peer_id \<Rightarrow> socket_addr \<Rightarrow> connection qact" where
  "connection_to_at w p a q =
     (case live_connection (q_conns q) (qn_closed w) p of
        Some c \<Rightarrow> (Done c, q)
      | None \<Rightarrow>
          (let q1 = qn_meanwhile w q in
           case connect_quic_addr w a of
             Inr c \<Rightarrow> (Done c, start_connection_tasks c None (q1\<lparr>q_conns := dm_insert p c (q_conns q1)\<rparr>))
           | Inl e \<Rightarrow>
               (if live_connection (q_conns q1) (qn_closed_later w) p = None
                then (Fail e, upd_sock (release_virtual_peer p) q1) else (Fail e, q1))))"

definition connection_to :: "quinn \<Rightarrow> peer_id \<Rightarrow> connection qact" where
  "connection_to w p =
     qbind (on_node (ensure_peer_reachable p)) (\<lambda>_.
     qbind (qregister w p) (\<lambda>a.
     connection_to_at w p a))"

definition remove_closed_via :: "(nat \<Rightarrow> bool) \<Rightarrow> peer_id \<Rightarrow> route_key \<Rightarrow> quic \<Rightarrow> quic" where
  "remove_closed_via closed p k q = q\<lparr>q_via := dm_remove_if (p, k) (\<lambda>c. closed (cn_id c)) (q_via q)\<rparr>"

definition connection_to_via :: "quinn \<Rightarrow> peer_id \<Rightarrow> route_key \<Rightarrow> connection qact" where
  "connection_to_via w p k q =
     (case live_connection (q_via q) (qn_closed w) (p, k) of
        Some c \<Rightarrow> (Done c, q)
      | None \<Rightarrow>
          qbind (qregister_via w p k) (\<lambda>a q.
            let q1 = qn_meanwhile w q in
            case connect_quic_addr w a of
              Inr c \<Rightarrow> (Done c, start_connection_tasks c (Some k) (q1\<lparr>q_via := dm_insert (p, k) c (q_via q1)\<rparr>))
            | Inl e \<Rightarrow>
                (Fail e, upd_sock (release_virtual_peer_via p k) (remove_closed_via (qn_closed_later w) p k q1))) q)"

section \<open>Datagrams\<close>

definition user_datagram :: "env \<Rightarrow> quinn \<Rightarrow> quic \<Rightarrow> peer_id \<Rightarrow> bytes \<Rightarrow> bytes" where
  "user_datagram env w q p payload =
     encode_datagram_frame (en_codec env) (DatagramUser (qn_datagram_id w) (q_id q) p payload)"

definition send_datagram :: "string \<Rightarrow> unit io_result \<Rightarrow> connection \<Rightarrow> bytes \<Rightarrow> unit qact" where
  "send_datagram msg r c data q =
     (case r of
        Inl _ \<Rightarrow> (Fail (IoError Other msg), q)
      | Inr _ \<Rightarrow> (Done (), q\<lparr>q_sent := q_sent q @ [(cn_id c, data)]\<rparr>))"

text \<open>The copies of a datagram, 50 ms apart; the first failure ends the loop.\<close>

fun send_copies :: "quinn \<Rightarrow> connection \<Rightarrow> bytes \<Rightarrow> nat list \<Rightarrow> unit qact" where
  "send_copies w c data [] = qret ()"
| "send_copies w c data (i # is) =
     qbind (send_datagram ''send QUIC datagram'' (qn_datagram w i) c data) (\<lambda>_. send_copies w c data is)"

definition quic_send_to :: "env \<Rightarrow> quinn \<Rightarrow> peer_id \<Rightarrow> bytes \<Rightarrow> unit qact" where
  "quic_send_to env w p payload =
     qbind (connection_to w p) (\<lambda>c q. send_copies w c (user_datagram env w q p payload) [0..<5] q)"

definition quic_try_send_to :: "env \<Rightarrow> quinn \<Rightarrow> peer_id \<Rightarrow> bytes \<Rightarrow> unit qact" where
  "quic_try_send_to env w p payload q =
     (case live_connection (q_conns q) (qn_closed w) p of
        None \<Rightarrow> qfail WouldBlock [] q
      | Some c \<Rightarrow> send_datagram ''send QUIC datagram'' (qn_datagram w 0) c (user_datagram env w q p payload) q)"

definition quic_send_to_via :: "env \<Rightarrow> quinn \<Rightarrow> peer_id \<Rightarrow> route_key \<Rightarrow> bytes \<Rightarrow> unit qact" where
  "quic_send_to_via env w p k payload =
     qbind (connection_to_via w p k) (\<lambda>c q.
       send_datagram ''send QUIC datagram via route'' (qn_datagram w 0) c (user_datagram env w q p payload) q)"

definition quic_try_send_to_via :: "env \<Rightarrow> quinn \<Rightarrow> peer_id \<Rightarrow> route_key \<Rightarrow> bytes \<Rightarrow> unit qact" where
  "quic_try_send_to_via env w p k payload q =
     (case live_connection (q_via q) (qn_closed w) (p, k) of
        None \<Rightarrow> qfail WouldBlock [] q
      | Some c \<Rightarrow>
          send_datagram ''send QUIC datagram via route'' (qn_datagram w 0) c (user_datagram env w q p payload) q)"

text \<open>\<open>recv\<close> waits for a message, \<open>try_recv\<close> does not; the endpoint itself keeps the channel open.\<close>

definition quic_recv :: "received_message qact" where
  "quic_recv q = (case q_inbox q of [] \<Rightarrow> (Stuck, q) | m # ms \<Rightarrow> (Done m, q\<lparr>q_inbox := ms\<rparr>))"

definition quic_try_recv :: "received_message qact" where
  "quic_try_recv q =
     (case q_inbox q of [] \<Rightarrow> qfail WouldBlock [] q | m # ms \<Rightarrow> (Done m, q\<lparr>q_inbox := ms\<rparr>))"

section \<open>Stream headers\<close>

definition MAX_STREAM_HEADER :: nat where "MAX_STREAM_HEADER = 64 * 1024"

text \<open>What a frame writes to the send half; the i-th \<open>write_all\<close> ends as \<open>wr i\<close> says.\<close>

definition write_frame :: "(nat \<Rightarrow> unit io_result) \<Rightarrow> bytes \<Rightarrow> bytes io_result" where
  "write_frame wr data =
     (if length data > MAX_STREAM_HEADER then Inl (IoError InvalidInput ''stream header too large'')
      else (case wr 0 of
          Inl _ \<Rightarrow> Inl (IoError Other ''write stream header'')
        | Inr _ \<Rightarrow>
            (case wr 1 of
               Inl _ \<Rightarrow> Inl (IoError Other ''write stream header'')
             | Inr _ \<Rightarrow> Inr (u32_to_be (of_nat (length data)) @ data))))"

definition write_stream_frame :: "env \<Rightarrow> (nat \<Rightarrow> unit io_result) \<Rightarrow> stream_frame \<Rightarrow> bytes io_result" where
  "write_stream_frame env wr frame = write_frame wr (encode_stream_frame (en_codec env) frame)"

text \<open>The bytes of a stream up to its end; what is left belongs to the user.\<close>

definition read_exact :: "nat \<Rightarrow> bytes \<Rightarrow> (bytes \<times> bytes) io_result" where
  "read_exact n input =
     (if n \<le> length input then Inr (take n input, drop n input) else Inl (IoError UnexpectedEof []))"

definition read_frame :: "bytes \<Rightarrow> (bytes \<times> bytes) io_result" where
  "read_frame input =
     and_then (read_exact 4 input) (\<lambda>(hd, rest).
       let len = unat (u32_from_be hd)
       in if len > MAX_STREAM_HEADER then Inl (IoError InvalidData ''stream header too large'')
          else read_exact len rest)"

definition read_stream_frame :: "env \<Rightarrow> bytes \<Rightarrow> (stream_frame \<times> bytes) io_result" where
  "read_stream_frame env input =
     and_then (read_frame input) (\<lambda>(data, rest).
     and_then (decode_stream_frame (en_codec env) data) (\<lambda>f. Inr (f, rest)))"

section \<open>Opening and accepting streams\<close>

text \<open>The stream and the header that was written to it.\<close>

definition open_stream :: "env \<Rightarrow> quinn \<Rightarrow> peer_id \<Rightarrow> connection \<Rightarrow> (nat \<times> bytes) qact" where
  "open_stream env w p c q =
     (case qn_open_bi w (cn_id c) of
        Inl e \<Rightarrow> (Fail e, q)
      | Inr i \<Rightarrow>
          (case write_stream_frame env (qn_write w) (StreamUser (q_id q) p) of
             Inl e \<Rightarrow> (Fail e, q) | Inr header \<Rightarrow> (Done (i, header), q)))"

definition open_bi_once :: "env \<Rightarrow> quinn \<Rightarrow> peer_id \<Rightarrow> (nat \<times> bytes) qact" where
  "open_bi_once env w p = qbind (connection_to w p) (open_stream env w p)"

definition open_bi_via_once :: "env \<Rightarrow> quinn \<Rightarrow> peer_id \<Rightarrow> route_key \<Rightarrow> (nat \<times> bytes) qact" where
  "open_bi_via_once env w p k = qbind (connection_to_via w p k) (open_stream env w p)"

definition drop_closed :: "(nat \<Rightarrow> bool) \<Rightarrow> peer_id \<Rightarrow> quic \<Rightarrow> quic" where
  "drop_closed closed p q =
     (case dm_get (q_conns q) p of
        Some c \<Rightarrow>
          if closed (cn_id c) then upd_sock (release_virtual_peer p) (q\<lparr>q_conns := dm_remove p (q_conns q)\<rparr>) else q
      | None \<Rightarrow> q)"

definition drop_via :: "(nat \<Rightarrow> bool) \<Rightarrow> peer_id \<Rightarrow> route_key \<Rightarrow> quic \<Rightarrow> quic" where
  "drop_via closed p k q = upd_sock (release_virtual_peer_via p k) (remove_closed_via closed p k q)"

text \<open>The two attempts meet different worlds; \<open>f\<close> tidies up after a failure.\<close>

fun open_attempts ::
  "(quinn \<Rightarrow> 'a qact) \<Rightarrow> (quinn \<Rightarrow> quic \<Rightarrow> quic) \<Rightarrow> io_error \<Rightarrow> quinn list \<Rightarrow> 'a qact" where
  "open_attempts once f e [] q = (Fail e, q)"
| "open_attempts once f e (w # ws) q =
     (case once w q of
        (Done x, q') \<Rightarrow> (Done x, q')
      | (Stuck, q') \<Rightarrow> (Stuck, q')
      | (Fail e', q') \<Rightarrow> open_attempts once f e' ws (f w q'))"

definition open_bi :: "env \<Rightarrow> quinn \<Rightarrow> quinn \<Rightarrow> peer_id \<Rightarrow> (nat \<times> bytes) qact" where
  "open_bi env w1 w2 p =
     open_attempts (\<lambda>w. open_bi_once env w p) (\<lambda>w. drop_closed (qn_closed_later w) p)
       (IoError Other ''open reliable stream failed'') [w1, w2]"

definition open_bi_via :: "env \<Rightarrow> quinn \<Rightarrow> quinn \<Rightarrow> peer_id \<Rightarrow> route_key \<Rightarrow> (nat \<times> bytes) qact" where
  "open_bi_via env w1 w2 p k =
     open_attempts (\<lambda>w. open_bi_via_once env w p k) (\<lambda>w. drop_via (qn_closed_later w) p k)
       (IoError Other ''open reliable stream via route failed'') [w1, w2]"

definition quic_accept_bi :: "incoming_bi_stream qact" where
  "quic_accept_bi q = (case q_streams q of [] \<Rightarrow> (Stuck, q) | s # ss \<Rightarrow> (Done s, q\<lparr>q_streams := ss\<rparr>))"

definition quic_close :: "quic \<Rightarrow> quic" where
  "quic_close q = q\<lparr>q_closed := True\<rparr>"

section \<open>Handlers\<close>

definition deliver_stream :: "incoming_bi_stream \<Rightarrow> unit qact" where
  "deliver_stream st q =
     (if length (q_streams q) < STREAM_QUEUE then (Done (), q\<lparr>q_streams := q_streams q @ [st]\<rparr>) else (Stuck, q))"

definition deliver_message :: "u64 \<Rightarrow> received_message \<Rightarrow> unit qact" where
  "deliver_message i m q =
     (if length (q_inbox q) < INBOX_QUEUE
      then (Done (), q\<lparr>q_inbox := q_inbox q @ [m], q_delivered := q_delivered q @ [(rm_src m, i)]\<rparr>)
      else (Stuck, q))"

definition handle_incoming_stream :: "env \<Rightarrow> socket_addr \<Rightarrow> nat \<Rightarrow> bytes \<Rightarrow> unit qact" where
  "handle_incoming_stream env remote send input q =
     (if peer_for_virtual_addr remote (q_sock q) = None then
        qfail PermissionDenied ''stream arrived from unknown synthetic peer'' q
      else (case read_stream_frame env input of
          Inl e \<Rightarrow> (Fail e, q)
        | Inr (StreamUser src dest, rest) \<Rightarrow>
            if dest \<noteq> q_id q then qfail PermissionDenied ''stream destination peer mismatch'' q
            else qbind (on_node (node_route_metric_for src)) (\<lambda>_.
              deliver_stream \<lparr>is_peer = src, is_send = send, is_recv = rest\<rparr>) q))"

definition handle_incoming_datagram :: "env \<Rightarrow> socket_addr \<Rightarrow> bytes \<Rightarrow> unit qact" where
  "handle_incoming_datagram env remote data q =
     (if peer_for_virtual_addr remote (q_sock q) = None then
        qfail PermissionDenied ''datagram arrived from unknown synthetic peer'' q
      else (case decode_datagram_frame (en_codec env) data of
          Inl e \<Rightarrow> (Fail e, q)
        | Inr (DatagramUser i src dest payload) \<Rightarrow>
            if dest \<noteq> q_id q then (Done (), q)
            else if (src, i) \<in> q_seen q then (Done (), q)
            else
              (let q1 = q\<lparr>q_seen := insert (src, i) (q_seen q)\<rparr> in
               qbind (on_node (node_route_metric_for src)) (\<lambda>(route, metric) q2.
                 let ttl = pr_max_ttl (q_node q2) in
                 deliver_message i
                   \<lparr>rm_payload = payload, rm_src = src, rm_dest = dest, rm_route = route,
                    rm_ttl = (if metric \<le> ttl then ttl - metric else 0), rm_max_ttl = ttl,
                    rm_is_relay = (metric > 0), rm_is_broadcast = False\<rparr> q2) q1)))"

section \<open>Background tasks\<close>

definition cleanup_connection :: "nat \<Rightarrow> peer_id option \<Rightarrow> quic \<Rightarrow> quic" where
  "cleanup_connection i peer q =
     (let q1 = q\<lparr>q_tasks := q_tasks q - {i}\<rparr> in
      case peer of
        None \<Rightarrow> q1
      | Some p \<Rightarrow>
          (case dm_get (q_conns q1) p of
             Some c \<Rightarrow>
               if cn_id c = i then upd_sock (release_virtual_peer p) (q1\<lparr>q_conns := dm_remove p (q_conns q1)\<rparr>) else q1
           | None \<Rightarrow> q1))"

definition cleanup_via_connection :: "nat \<Rightarrow> peer_id option \<Rightarrow> route_key \<Rightarrow> quic \<Rightarrow> quic" where
  "cleanup_via_connection i peer k q =
     (let q1 = q\<lparr>q_tasks := q_tasks q - {i}\<rparr> in
      case peer of
        None \<Rightarrow> q1
      | Some p \<Rightarrow>
          (case dm_get (q_via q1) (p, k) of
             Some c \<Rightarrow>
               if cn_id c = i then upd_sock (release_virtual_peer_via p k) (q1\<lparr>q_via := dm_remove (p, k) (q_via q1)\<rparr>)
               else q1
           | None \<Rightarrow> q1))"

text \<open>
  What a connection task waits for: a stream with its bytes, a datagram, each with the remote address
  the connection has at that moment, or the end of the connection.
\<close>

datatype conn_event = GotStream socket_addr nat bytes | GotDatagram socket_addr bytes | ConnEnded

text \<open>An error of a handler is only logged. The handler of a stream runs as a task of its own.\<close>

definition qlogged :: "unit qact \<Rightarrow> unit qact" where
  "qlogged m q = (case m q of (Stuck, q') \<Rightarrow> (Stuck, q') | (_, q') \<Rightarrow> (Done (), q'))"

definition end_task :: "connection_task \<Rightarrow> quic \<Rightarrow> quic" where
  "end_task t q =
     (let q1 = q\<lparr>q_spawned := remove1 t (q_spawned q)\<rparr> in
      case ct_via t of
        Some k \<Rightarrow> cleanup_via_connection (cn_id (ct_conn t)) (ct_peer t) k q1
      | None \<Rightarrow> cleanup_connection (cn_id (ct_conn t)) (ct_peer t) q1)"

fun connection_task_turn :: "env \<Rightarrow> connection_task \<Rightarrow> conn_event \<Rightarrow> unit qact" where
  "connection_task_turn env t (GotStream remote i input) =
     (if ct_streams t then qlogged (handle_incoming_stream env remote i input) else qret ())"
| "connection_task_turn env t (GotDatagram remote data) =
     (if ct_streams t then qret () else qlogged (handle_incoming_datagram env remote data))"
| "connection_task_turn env t ConnEnded = qupd (end_task t)"

text \<open>\<open>accept\<close> ends with the endpoint; an incoming handshake may fail.\<close>

datatype incoming = EndpointClosed | IncomingFailed | IncomingOk connection

fun accept_quic :: "incoming \<Rightarrow> connection option" where
  "accept_quic EndpointClosed = None"
| "accept_quic IncomingFailed = None"
| "accept_quic (IncomingOk c) = Some c"

definition accept_loop_turn :: "incoming \<Rightarrow> quic \<Rightarrow> quic" where
  "accept_loop_turn ev q =
     (if \<not> q_accepting q then q
      else (case accept_quic ev of
          None \<Rightarrow> q\<lparr>q_accepting := False\<rparr>
        | Some c \<Rightarrow>
            if q_closed q then q\<lparr>q_accepting := False\<rparr> else start_connection_tasks c None q))"

definition transport_loop_turn :: "quinn \<Rightarrow> unit qact" where
  "transport_loop_turn w q =
     (if \<not> q_pumping q then (Done (), q)
      else if q_closed q then (Done (), q\<lparr>q_pumping := False\<rparr>)
      else (case recv_quic_payload (q_node q) of
          (None, n) \<Rightarrow> (Done (), q\<lparr>q_node := n\<rparr>)
        | (Some (src, payload), n) \<Rightarrow>
            qbind (qregister w src) (\<lambda>a. qupd (upd_sock (inject_routed_quic payload a))) (q\<lparr>q_node := n\<rparr>)))"

section \<open>Reachable endpoints\<close>

text \<open>
  Other tasks of the socket that run within a registration finish what they begin; those that run while a
  call waits for a handshake are steps of the endpoint themselves, so the two relations are defined together.
\<close>

definition race_ok :: "(quic_socket \<Rightarrow> quic_socket) \<Rightarrow> bool" where
  "race_ok race \<longleftrightarrow> (\<forall>s pend. sock_steps (s, pend) (race s, pend))"

inductive q_step :: "quic \<Rightarrow> quic \<Rightarrow> bool" and q_steps :: "quic \<Rightarrow> quic \<Rightarrow> bool" where
  q_refl: "q_steps q q"
| q_trans: "q_step q q' \<Longrightarrow> q_steps q' q'' \<Longrightarrow> q_steps q q''"
| q_protocol: "q_step q (q\<lparr>q_node := n\<rparr>)"
| q_send_to: "race_ok (qn_race w) \<Longrightarrow> (\<And>x. q_steps x (qn_meanwhile w x)) \<Longrightarrow> q_step q (snd (quic_send_to env w p data q))"
| q_send_to_via: "race_ok (qn_race w) \<Longrightarrow> (\<And>x. q_steps x (qn_meanwhile w x)) \<Longrightarrow>
    q_step q (snd (quic_send_to_via env w p k data q))"
| q_try_send_to: "q_step q (snd (quic_try_send_to env w p data q))"
| q_try_send_to_via: "q_step q (snd (quic_try_send_to_via env w p k data q))"
| q_open_bi: "race_ok (qn_race w) \<Longrightarrow> race_ok (qn_race w') \<Longrightarrow> (\<And>x. q_steps x (qn_meanwhile w x)) \<Longrightarrow>
    (\<And>x. q_steps x (qn_meanwhile w' x)) \<Longrightarrow> q_step q (snd (open_bi env w w' p q))"
| q_open_bi_via: "race_ok (qn_race w) \<Longrightarrow> race_ok (qn_race w') \<Longrightarrow> (\<And>x. q_steps x (qn_meanwhile w x)) \<Longrightarrow>
    (\<And>x. q_steps x (qn_meanwhile w' x)) \<Longrightarrow> q_step q (snd (open_bi_via env w w' p k q))"
| q_recv: "q_step q (snd (quic_recv q))"
| q_try_recv: "q_step q (snd (quic_try_recv q))"
| q_accept_bi: "q_step q (snd (quic_accept_bi q))"
| q_close: "q_step q (quic_close q)"
| q_task: "t \<in> set (q_spawned q) \<Longrightarrow> q_step q (snd (connection_task_turn env t ev q))"
| q_accept: "q_step q (accept_loop_turn inc q)"
| q_transport: "race_ok (qn_race w) \<Longrightarrow> q_step q (snd (transport_loop_turn w q))"
| q_poll: "q_step q (upd_sock (\<lambda>s. snd (quic_poll_recv bufs metas s)) q)"

definition queues_ok :: "quic \<Rightarrow> bool" where
  "queues_ok q \<longleftrightarrow>
     length (q_inbox q) \<le> INBOX_QUEUE \<and> length (q_streams q) \<le> STREAM_QUEUE \<and>
     distinct (q_delivered q) \<and> set (q_delivered q) \<subseteq> q_seen q \<and>
     (\<exists>old. map fst (q_delivered q) = old @ map rm_src (q_inbox q)) \<and>
     list_all (\<lambda>m. rm_dest m = q_id q \<and> rm_ttl m \<le> rm_max_ttl m) (q_inbox q)"

definition q_inv :: "quic \<Rightarrow> bool" where
  "q_inv q \<longleftrightarrow> sock_inv (q_sock q, []) \<and> queues_ok q"

lemma queues_ok_cong:
  assumes "q_inbox q' = q_inbox q" "q_streams q' = q_streams q" "q_delivered q' = q_delivered q"
    "q_seen q' = q_seen q" "q_id q' = q_id q"
  shows "queues_ok q' = queues_ok q"
  using assms by (simp add: queues_ok_def)

text \<open>Updates of other fields keep the invariant.\<close>

lemma q_inv_upd [simp]:
  "q_inv (q\<lparr>q_node := n\<rparr>) = q_inv q" "q_inv (q\<lparr>q_closed := b\<rparr>) = q_inv q" "q_inv (q\<lparr>q_conns := c\<rparr>) = q_inv q"
  "q_inv (q\<lparr>q_via := v\<rparr>) = q_inv q" "q_inv (q\<lparr>q_tasks := ts\<rparr>) = q_inv q" "q_inv (q\<lparr>q_spawned := sp\<rparr>) = q_inv q"
  "q_inv (q\<lparr>q_accepting := b\<rparr>) = q_inv q" "q_inv (q\<lparr>q_pumping := b\<rparr>) = q_inv q" "q_inv (q\<lparr>q_sent := st\<rparr>) = q_inv q"
  by (simp_all add: q_inv_def queues_ok_def)

lemma q_inv_sock: "q_inv q \<Longrightarrow> sock_inv (s, []) \<Longrightarrow> q_inv (q\<lparr>q_sock := s\<rparr>)"
  by (simp add: q_inv_def queues_ok_def)

lemma q_inv_sock_step: "q_inv q \<Longrightarrow> sock_step (q_sock q, []) (f (q_sock q), []) \<Longrightarrow> q_inv (upd_sock f q)"
  unfolding upd_sock_def by (rule q_inv_sock) (auto simp: q_inv_def intro: sock_step_inv)

lemma release_is_withdraw:
  "release_virtual_peer p = withdraw_vp (plain_peer p)" "release_virtual_peer_via p k = withdraw_vp (via_peer p k)"
  by (simp_all add: withdraw_vp_def plain_peer_def via_peer_def fun_eq_iff)

lemma q_inv_release [simp, intro]:
  "q_inv q \<Longrightarrow> q_inv (upd_sock (release_virtual_peer p) q)"
  "q_inv q \<Longrightarrow> q_inv (upd_sock (release_virtual_peer_via p k) q)"
  by (auto intro!: q_inv_sock_step simp: release_is_withdraw step_release)

lemma q_inv_inject [simp, intro]: "q_inv q \<Longrightarrow> q_inv (upd_sock (inject_routed_quic d a) q)"
  by (simp add: q_inv_sock_step step_inject)

lemma races_ok: "race_ok race \<Longrightarrow> races_with race rnd vp (s, []) []"
  by (simp add: race_ok_def races_with_def)

lemma q_inv_register:
  assumes "q_inv q" "race_ok (qn_race w)"
  shows "q_inv (snd (qregister w p q))" "q_inv (snd (qregister_via w p k q))"
proof -
  have i: "sock_inv (q_sock q, [])" using assms(1) by (simp add: q_inv_def)
  note ok = register_race_ok(1) [OF i races_ok [OF assms(2)]] and fresh = sock_step_inv [OF step_refresh i]
  have "sock_inv (s, [])" if "register_virtual_peer (qn_rnd w) (qn_race w) p (q_sock q) = Some (a, s)" for a s
    using that ok [of "plain_peer p"] fresh [of "plain_peer p"]
    by (auto simp: register_virtual_peer_eq simp del: lookup_plain split: option.splits)
  then show "q_inv (snd (qregister w p q))"
    using assms(1) by (auto simp: qregister_def q_inv_sock split: option.splits)
  have "sock_inv (s, [])" if "register_virtual_peer_via (qn_rnd w) (qn_race w) p k (q_sock q) = Some (a, s)" for a s
    using that ok [of "via_peer p k"] fresh [of "via_peer p k"]
    by (auto simp: register_virtual_peer_via_eq simp del: lookup_via split: option.splits)
  then show "q_inv (snd (qregister_via w p k q))"
    using assms(1) by (auto simp: qregister_via_def q_inv_sock split: option.splits)
qed

lemma q_inv_qbind:
  assumes "q_inv (snd (m q))" "\<And>x q'. m q = (Done x, q') \<Longrightarrow> q_inv q' \<Longrightarrow> q_inv (snd (f x q'))"
  shows "q_inv (snd (qbind m f q))"
  using assms by (auto simp: qbind_def split: prod.splits eff.splits)

lemma q_inv_on_node [simp]: "q_inv (snd (on_node m q)) = q_inv q"
  by (simp add: on_node_def split: prod.splits)

lemma q_inv_start_tasks [simp]: "q_inv (start_connection_tasks c via q) = q_inv q"
  by (simp add: start_connection_tasks_def Let_def)

definition world_ok :: "quinn \<Rightarrow> bool" where
  "world_ok w \<longleftrightarrow> race_ok (qn_race w) \<and> (\<forall>q. q_inv q \<longrightarrow> q_inv (qn_meanwhile w q))"

lemma world_okI: "race_ok (qn_race w) \<Longrightarrow> (\<And>q. q_inv q \<Longrightarrow> q_inv (qn_meanwhile w q)) \<Longrightarrow> world_ok w"
  by (simp add: world_ok_def)

lemma world_okD: "world_ok w \<Longrightarrow> race_ok (qn_race w)" "world_ok w \<Longrightarrow> q_inv q \<Longrightarrow> q_inv (qn_meanwhile w q)"
  by (auto simp: world_ok_def)

lemma connection_to_at_inv:
  assumes "world_ok w" "q_inv q"
  shows "q_inv (snd (connection_to_at w p a q))"
  using assms world_okD(2) [OF assms] by (simp add: connection_to_at_def Let_def split: option.splits sum.splits)

lemma connection_to_inv:
  assumes w: "world_ok w" and q: "q_inv q"
  shows "q_inv (snd (connection_to w p q))"
  unfolding connection_to_def
proof (intro q_inv_qbind)
  show "q_inv (snd (on_node (ensure_peer_reachable p) q))" using q by simp
  show "q_inv q' \<Longrightarrow> q_inv (snd (qregister w p q'))" for q' by (rule q_inv_register(1) [OF _ world_okD(1) [OF w]])
  show "q_inv q' \<Longrightarrow> q_inv (snd (connection_to_at w p a q'))" for q' a by (rule connection_to_at_inv [OF w])
qed

lemma connection_to_via_inv:
  assumes w: "world_ok w" and q: "q_inv q"
  shows "q_inv (snd (connection_to_via w p k q))"
proof (cases "live_connection (q_via q) (qn_closed w) (p, k)")
  case None
  show ?thesis unfolding connection_to_via_def None option.case
  proof (rule q_inv_qbind)
    show "q_inv (snd (qregister_via w p k q))" by (rule q_inv_register(2) [OF q world_okD(1) [OF w]])
  next
    fix a q' assume "q_inv q'"
    then show "q_inv (snd (let q1 = qn_meanwhile w q' in
            case connect_quic_addr w a of
              Inr c \<Rightarrow> (Done c, start_connection_tasks c (Some k) (q1\<lparr>q_via := dm_insert (p, k) c (q_via q1)\<rparr>))
            | Inl e \<Rightarrow>
                (Fail e, upd_sock (release_virtual_peer_via p k) (remove_closed_via (qn_closed_later w) p k q1))))"
      using world_okD(2) [OF w, of q'] by (simp add: remove_closed_via_def Let_def split: sum.splits)
  qed
qed (simp add: connection_to_via_def q)

lemma open_once_inv:
  assumes "world_ok w" "q_inv q"
  shows "q_inv (snd (open_bi_once env w p q))" "q_inv (snd (open_bi_via_once env w p k q))"
  unfolding open_bi_once_def open_bi_via_once_def
  by (rule q_inv_qbind; use assms in \<open>auto simp: open_stream_def intro: connection_to_inv connection_to_via_inv split: sum.splits\<close>)+

lemma send_datagram_inv: "q_inv q \<Longrightarrow> q_inv (snd (send_datagram msg r c data q))"
  by (simp add: send_datagram_def split: sum.splits)

lemma send_copies_inv: "q_inv q \<Longrightarrow> q_inv (snd (send_copies w c data is q))"
proof (induction "is" arbitrary: q)
  case (Cons i "is")
  then show ?case by (auto intro!: q_inv_qbind send_datagram_inv)
qed (simp add: qret_def)

lemma open_attempts_inv:
  assumes "\<And>w q. w \<in> set ws \<Longrightarrow> q_inv q \<Longrightarrow> q_inv (snd (once w q))" "\<And>w q. q_inv q \<Longrightarrow> q_inv (f w q)" "q_inv q"
  shows "q_inv (snd (open_attempts once f e ws q))"
  using assms
proof (induction ws arbitrary: q e)
  case (Cons w ws)
  obtain r q' where r: "once w q = (r, q')" by fastforce
  have "q_inv q'" using Cons.prems(1) [of w q] Cons.prems(3) by (simp add: r)
  then show ?case using Cons by (cases r) (simp_all add: r)
qed simp

lemma drop_inv [simp]:
  "q_inv q \<Longrightarrow> q_inv (drop_closed closed p q)" "q_inv q \<Longrightarrow> q_inv (drop_via closed p k q)"
  by (auto simp: drop_closed_def drop_via_def remove_closed_via_def split: option.splits)

lemma cleanup_inv [simp]:
  "q_inv q \<Longrightarrow> q_inv (cleanup_connection i p q)" "q_inv q \<Longrightarrow> q_inv (cleanup_via_connection i p k q)"
  by (auto simp: cleanup_connection_def cleanup_via_connection_def Let_def split: option.splits)

lemma qlogged_inv: "q_inv (snd (m q)) \<Longrightarrow> q_inv (snd (qlogged m q))"
  by (auto simp: qlogged_def split: prod.splits eff.splits)

lemma deliver_stream_inv: "q_inv q \<Longrightarrow> q_inv (snd (deliver_stream st q))"
  by (simp add: deliver_stream_def q_inv_def queues_ok_def)

lemma handle_incoming_stream_inv: "q_inv q \<Longrightarrow> q_inv (snd (handle_incoming_stream env remote i input q))"
  by (auto simp: handle_incoming_stream_def qfail_def intro!: q_inv_qbind deliver_stream_inv
      split: sum.splits prod.splits stream_frame.splits)

text \<open>A message may be delivered when its source and id are on record and were never delivered.\<close>

lemma deliver_message_inv:
  assumes "q_inv q" "(rm_src m, i) \<in> q_seen q" "(rm_src m, i) \<notin> set (q_delivered q)"
    "rm_dest m = q_id q" "rm_ttl m \<le> rm_max_ttl m"
  shows "q_inv (snd (deliver_message i m q))"
  using assms by (auto simp: deliver_message_def q_inv_def queues_ok_def)

lemma mark_seen_inv: "q_inv q \<Longrightarrow> q_inv (q\<lparr>q_seen := insert x (q_seen q)\<rparr>)"
  by (auto simp: q_inv_def queues_ok_def)

lemma delivered_seen: "q_inv q \<Longrightarrow> x \<in> set (q_delivered q) \<Longrightarrow> x \<in> q_seen q"
  by (auto simp: q_inv_def queues_ok_def)

lemma word_diff_le: "b \<le> a \<Longrightarrow> a - b \<le> (a :: u8)"
  by (simp add: word_le_nat_alt unat_sub)

lemma handle_incoming_datagram_inv:
  assumes inv: "q_inv q"
  shows "q_inv (snd (handle_incoming_datagram env remote data q))"
proof (cases "peer_for_virtual_addr remote (q_sock q) = None")
  case False
  show ?thesis
  proof (cases "decode_datagram_frame (en_codec env) data")
    case (Inr f)
    obtain i src dest payload where f: "f = DatagramUser i src dest payload" by (cases f)
    show ?thesis
    proof (cases "dest = q_id q \<and> (src, i) \<notin> q_seen q")
      case True
      define q1 where "q1 = q\<lparr>q_seen := insert (src, i) (q_seen q)\<rparr>"
      have q1: "q_inv q1" "(src, i) \<in> q_seen q1" "(src, i) \<notin> set (q_delivered q1)" "q_id q1 = q_id q"
        using True mark_seen_inv [OF inv] delivered_seen [OF inv] by (auto simp: q1_def)
      have fr: "q_seen q' = q_seen q1" "q_delivered q' = q_delivered q1" "q_id q' = q_id q1"
        if "on_node m q1 = (Done x, q')" for m :: "(route_key \<times> u8) act" and x q'
        using that by (auto simp: on_node_def split: prod.splits)
      show ?thesis using True False Inr f
        by (auto simp: handle_incoming_datagram_def q1_def [symmetric] Let_def q1 word_diff_le
            intro!: q_inv_qbind deliver_message_inv dest: fr)
    qed (use inv False Inr f in \<open>auto simp: handle_incoming_datagram_def\<close>)
  qed (use inv False in \<open>auto simp: handle_incoming_datagram_def\<close>)
qed (use inv in \<open>simp add: handle_incoming_datagram_def qfail_def\<close>)

lemma connection_task_turn_inv: "q_inv q \<Longrightarrow> q_inv (snd (connection_task_turn env t ev q))"
  by (cases ev) (auto simp: end_task_def qret_def qupd_def Let_def split: option.splits
      intro!: qlogged_inv handle_incoming_stream_inv handle_incoming_datagram_inv)

lemma accept_loop_turn_inv: "q_inv q \<Longrightarrow> q_inv (accept_loop_turn inc q)"
  by (simp add: accept_loop_turn_def split: option.splits)

lemma transport_loop_turn_inv:
  assumes "q_inv q" "race_ok (qn_race w)"
  shows "q_inv (snd (transport_loop_turn w q))"
  using assms by (auto simp: transport_loop_turn_def qupd_def intro!: q_inv_qbind q_inv_register split: prod.splits option.splits)

lemma quic_queue_ops_inv:
  "q_inv q \<Longrightarrow> q_inv (snd (quic_recv q))" "q_inv q \<Longrightarrow> q_inv (snd (quic_try_recv q))"
  "q_inv q \<Longrightarrow> q_inv (snd (quic_accept_bi q))"
  by (auto simp: quic_recv_def quic_try_recv_def quic_accept_bi_def qfail_def q_inv_def queues_ok_def split: list.splits)

lemma open_calls_inv:
  assumes "world_ok w" "world_ok w'" "q_inv q"
  shows "q_inv (snd (open_bi env w w' p q))" "q_inv (snd (open_bi_via env w w' p k q))"
  unfolding open_bi_def open_bi_via_def
  by (rule open_attempts_inv; use assms in \<open>auto intro: open_once_inv\<close>)+

lemma send_calls_inv:
  assumes "world_ok w" "q_inv q"
  shows "q_inv (snd (quic_send_to env w p data q))" "q_inv (snd (quic_send_to_via env w p k data q))"
  unfolding quic_send_to_def quic_send_to_via_def
  by (rule q_inv_qbind; use assms in \<open>simp add: connection_to_inv connection_to_via_inv send_copies_inv send_datagram_inv\<close>)+

lemma try_send_calls_inv:
  assumes "q_inv q"
  shows "q_inv (snd (quic_try_send_to env w p data q))" "q_inv (snd (quic_try_send_to_via env w p k data q))"
  using assms by (auto simp: quic_try_send_to_def quic_try_send_to_via_def qfail_def intro: send_datagram_inv split: option.splits)

lemmas q_ops_inv = open_calls_inv send_calls_inv try_send_calls_inv quic_queue_ops_inv connection_task_turn_inv
  accept_loop_turn_inv transport_loop_turn_inv

lemma q_step_inv: "q_step q q' \<Longrightarrow> q_inv q \<Longrightarrow> q_inv q'"
  and q_steps_inv: "q_steps q q' \<Longrightarrow> q_inv q \<Longrightarrow> q_inv q'"
proof (induction rule: q_step_q_steps.inducts)
  case (q_poll q bufs metas)
  then show ?case by (simp add: q_inv_sock_step step_poll)
qed (simp_all add: q_ops_inv world_okI quic_close_def)

lemma q_inv_bind: "q_inv (quic_bind p n)"
  by (simp add: q_inv_def queues_ok_def quic_bind_def sock_inv_init)

end
