(* ===== verification/Quic_Props.thy ===== *)
theory Quic_Props
  imports Quic_Endpoint Protocol_Props
begin

text \<open>
  Properties of the QUIC endpoint: streams and datagrams from one endpoint to another, what getting
  a connection leaves behind, and the cases in which connections, datagrams or the accept loop are
  lost.
\<close>

section \<open>The invariant\<close>


section \<open>Stream headers\<close>

lemma write_frame_cases:
  assumes "write_frame wr data = Inr out"
  shows "length data \<le> MAX_STREAM_HEADER" "out = u32_to_be (of_nat (length data)) @ data"
  using assms by (auto simp: write_frame_def split: if_splits sum.splits)

lemma read_exact_append: "length xs = n \<Longrightarrow> read_exact n (xs @ ys) = Inr (xs, ys)"
  by (auto simp: read_exact_def)

lemma read_frame_write_frame:
  assumes "write_frame wr data = Inr out"
  shows "read_frame (out @ rest) = Inr (data, rest)"
proof -
  note w = write_frame_cases [OF assms]
  have "unat (of_nat (length data) :: u32) = length data"
    using w(1) by (simp add: MAX_STREAM_HEADER_def unat_of_nat)
  then show ?thesis using w by (simp add: read_frame_def read_exact_append)
qed

lemma read_stream_write_stream:
  assumes "write_stream_frame env wr (StreamUser src dest) = Inr out"
    and "dec_stream (en_codec env) (enc_stream (en_codec env) (Some (pid_bytes src, pid_bytes dest)))
           = Some (Some (pid_bytes src, pid_bytes dest))"
  shows "read_stream_frame env (out @ rest) = Inr (StreamUser src dest, rest)"
  using read_frame_write_frame [of wr "encode_stream_frame (en_codec env) (StreamUser src dest)" out rest] assms
  by (simp add: write_stream_frame_def read_stream_frame_def decode_stream_frame_def encode_stream_frame_def
      decode_msg_def ok_or_def required_def)

text \<open>The header of a stream is taken off by the endpoint it names; what follows it is left for the user.\<close>

lemma header_accepted:
  assumes "write_stream_frame env wr (StreamUser src (q_id b)) = Inr header"
    and "dec_stream (en_codec env) (enc_stream (en_codec env) (Some (pid_bytes src, pid_bytes (q_id b)))) = Some (Some (pid_bytes src, pid_bytes (q_id b)))"
    and "peer_for_virtual_addr remote (q_sock b) \<noteq> None"
    and "node_route_metric_for src (q_node b) = (Done km, n')"
    and "length (q_streams b) < STREAM_QUEUE"
  shows "\<exists>b'. handle_incoming_stream env remote j (header @ user) b = (Done (), b') \<and>
    q_streams b' = q_streams b @ [\<lparr>is_peer = src, is_send = j, is_recv = user\<rparr>]"
  using read_stream_write_stream [OF assms(1,2)] assms(3-5)
  by (auto simp: handle_incoming_stream_def qbind_def on_node_def deliver_stream_def)

section \<open>Datagrams\<close>

lemma send_copies_sent:
  assumes "send_copies w c data is q = (Done (), q')"
  shows "q_sent q' = q_sent q @ replicate (length is) (cn_id c, data) \<and> q_id q' = q_id q"
  using assms
proof (induction "is" arbitrary: q)
  case (Cons i "is")
  then obtain q1 where 1: "send_datagram ''send QUIC datagram'' (qn_datagram w i) c data q = (Done (), q1)"
    "send_copies w c data is q1 = (Done (), q')"
    by (auto simp: qbind_def split: prod.splits eff.splits)
  then have "q_sent q1 = q_sent q @ [(cn_id c, data)]" "q_id q1 = q_id q"
    by (auto simp: send_datagram_def split: sum.splits)
  then show ?case using Cons.IH [OF 1(2)] by simp
qed (simp add: qret_def)

text \<open>What a datagram that has been decoded does.\<close>

definition datagram_message :: "quic \<Rightarrow> peer_id \<Rightarrow> bytes \<Rightarrow> route_key \<times> u8 \<Rightarrow> received_message" where
  "datagram_message q src payload km =
     (let ttl = pr_max_ttl (q_node q) in
      \<lparr>rm_payload = payload, rm_src = src, rm_dest = q_id q, rm_route = fst km,
       rm_ttl = (if snd km \<le> ttl then ttl - snd km else 0), rm_max_ttl = ttl,
       rm_is_relay = (snd km > 0), rm_is_broadcast = False\<rparr>)"

lemma node_route_metric_ttl: "node_route_metric_for p n = (r, n') \<Longrightarrow> pr_max_ttl n' = pr_max_ttl n"
  by (auto simp: node_route_metric_for_def split: prod.splits sum.splits option.splits)

lemma handle_datagram_new:
  assumes "peer_for_virtual_addr remote (q_sock q) \<noteq> None"
    and "decode_datagram_frame (en_codec env) data = Inr (DatagramUser i src (q_id q) payload)"
    and "(src, i) \<notin> q_seen q"
    and "node_route_metric_for src (q_node q) = (Done km, n')"
    and "length (q_inbox q) < 512"
  shows "handle_incoming_datagram env remote data q =
    (Done (), q\<lparr>q_seen := insert (src, i) (q_seen q), q_node := n',
       q_inbox := q_inbox q @ [datagram_message q src payload km], q_delivered := q_delivered q @ [(src, i)]\<rparr>)"
  using assms node_route_metric_ttl [OF assms(4)]
  by (cases km) (auto simp: handle_incoming_datagram_def qbind_def on_node_def deliver_message_def INBOX_QUEUE_def
      datagram_message_def Let_def)

lemma handle_datagram_seen:
  assumes "decode_datagram_frame (en_codec env) data = Inr (DatagramUser i src dest payload)"
    and "(src, i) \<in> q_seen q" "peer_for_virtual_addr remote (q_sock q) \<noteq> None"
  shows "handle_incoming_datagram env remote data q = (Done (), q)"
  using assms by (auto simp: handle_incoming_datagram_def)

definition handle_copies :: "env \<Rightarrow> socket_addr \<Rightarrow> bytes list \<Rightarrow> quic \<Rightarrow> quic" where
  "handle_copies env remote ds q = fold (\<lambda>d q. snd (handle_incoming_datagram env remote d q)) ds q"

lemma handle_copies_seen:
  assumes "decode_datagram_frame (en_codec env) data = Inr (DatagramUser i src dest payload)"
    and "(src, i) \<in> q_seen q" "peer_for_virtual_addr remote (q_sock q) \<noteq> None"
  shows "handle_copies env remote (replicate n data) q = q"
  by (induction n) (use handle_datagram_seen [OF assms] in \<open>simp_all add: handle_copies_def\<close>)

text \<open>
  C11: Datagrams from endpoint to endpoint. A successful \<open>send_to\<close> hands exactly five copies of one datagram to
  the connection; if any number of them, at least one, arrives at the peer it was sent to, the peer's inbox gains exactly
  one message, with the payload, the sender's id and the route and hop count the receiver knows for the sender. The receiver
  must not have seen the datagram's id before, know the connection's address and a route to the sender, and have room.
\<close>

theorem datagram_delivered_once:
  assumes "quic_send_to env w (q_id b) payload a = (Done (), a')"
    and "dec_datagram (en_codec env) (enc_datagram (en_codec env) (Some (qn_datagram_id w, pid_bytes (q_id a'), pid_bytes (q_id b), payload)))
           = Some (Some (qn_datagram_id w, pid_bytes (q_id a'), pid_bytes (q_id b), payload))"
    and "(q_id a', qn_datagram_id w) \<notin> q_seen b"
    and "peer_for_virtual_addr remote (q_sock b) \<noteq> None"
    and "node_route_metric_for (q_id a') (q_node b) = (Done km, n')"
    and "length (q_inbox b) < 512"
  shows "\<exists>(c :: connection) old data. q_sent a' = old @ replicate 5 (cn_id c, data) \<and>
    q_inbox (handle_copies env remote (replicate (Suc n) data) b) = q_inbox b @ [datagram_message b (q_id a') payload km]"
proof -
  obtain c q1 where 1: "send_copies w c (user_datagram env w q1 (q_id b) payload) [0..<5] q1 = (Done (), a')"
    using assms(1) by (auto simp: quic_send_to_def qbind_def split: prod.splits eff.splits)
  define data where "data = user_datagram env w q1 (q_id b) payload"
  have s: "q_sent a' = q_sent q1 @ replicate 5 (cn_id c, data)" "q_id q1 = q_id a'"
    using send_copies_sent [OF 1] by (simp_all add: data_def)
  have d: "decode_datagram_frame (en_codec env) data = Inr (DatagramUser (qn_datagram_id w) (q_id a') (q_id b) payload)"
    using assms(2) s(2)
    by (simp add: data_def user_datagram_def encode_datagram_frame_def decode_datagram_frame_def decode_msg_def ok_or_def required_def)
  note h = handle_datagram_new [OF assms(4) d assms(3,5,6)]
  have "q_inbox (handle_copies env remote (replicate (Suc n) data) b) = q_inbox b @ [datagram_message b (q_id a') payload km]"
    using handle_copies_seen [OF d, of "snd (handle_incoming_datagram env remote data b)" remote n] assms(4)
    by (simp add: handle_copies_def h)
  with s(1) show ?thesis by blast
qed

section \<open>The record of datagrams only grows\<close>

text \<open>Every step keeps the ids on record and the identity of the endpoint.\<close>

definition seen_le :: "quic \<Rightarrow> quic \<Rightarrow> bool" where
  "seen_le q q' \<longleftrightarrow> q_seen q \<subseteq> q_seen q' \<and> q_id q' = q_id q"

lemma seen_le_refl [simp]: "seen_le q q"
  by (simp add: seen_le_def)

lemma seen_le_trans [trans]: "seen_le q q' \<Longrightarrow> seen_le q' q'' \<Longrightarrow> seen_le q q''"
  by (auto simp: seen_le_def)

lemma seen_le_qbind:
  assumes "seen_le q (snd (m q))" "\<And>x q'. seen_le q' (snd (f x q'))"
  shows "seen_le q (snd (qbind m f q))"
proof -
  obtain r q' where r: "m q = (r, q')" by fastforce
  show ?thesis using assms(1) seen_le_trans [OF _ assms(2)] by (cases r) (simp_all add: qbind_def r)
qed

lemma q_seen_upd [simp]:
  "q_seen (upd_sock f q) = q_seen q" "q_seen (start_connection_tasks c via q) = q_seen q"
  "q_seen (cleanup_connection i po q) = q_seen q" "q_seen (cleanup_via_connection i po k q) = q_seen q"
  "q_seen (drop_closed closed p q) = q_seen q" "q_seen (drop_via closed p k q) = q_seen q"
  "q_seen (remove_closed_via closed p k q) = q_seen q" "q_seen (end_task t q) = q_seen q"
  by (auto simp: upd_sock_def start_connection_tasks_def cleanup_connection_def cleanup_via_connection_def
      drop_closed_def drop_via_def remove_closed_via_def end_task_def Let_def split: option.splits)

lemma q_id_upd [simp]:
  "q_id (upd_sock f q) = q_id q" "q_id (start_connection_tasks c via q) = q_id q"
  "q_id (cleanup_connection i po q) = q_id q" "q_id (cleanup_via_connection i po k q) = q_id q"
  "q_id (drop_closed closed p q) = q_id q" "q_id (drop_via closed p k q) = q_id q"
  "q_id (remove_closed_via closed p k q) = q_id q" "q_id (end_task t q) = q_id q"
  by (auto simp: upd_sock_def start_connection_tasks_def cleanup_connection_def cleanup_via_connection_def
      drop_closed_def drop_via_def remove_closed_via_def end_task_def Let_def split: option.splits)

lemma seen_le_simple:
  "seen_le q (snd (on_node m q))" "seen_le q (snd (qregister w p q))" "seen_le q (snd (qregister_via w p k q))"
  "seen_le q (snd (send_datagram msg r c data q))" "seen_le q (snd (open_stream env w p c q))"
  "seen_le q (snd (quic_recv q))" "seen_le q (snd (quic_try_recv q))" "seen_le q (snd (quic_accept_bi q))"
  "seen_le q (snd (deliver_stream st q))" "seen_le q (snd (deliver_message i m' q))"
  "seen_le q (accept_loop_turn inc q)" "seen_le q (quic_close q)"
  by (auto simp: seen_le_def on_node_def qregister_def qregister_via_def send_datagram_def open_stream_def quic_recv_def
      quic_try_recv_def quic_accept_bi_def qfail_def deliver_stream_def deliver_message_def accept_loop_turn_def quic_close_def
      split: prod.splits option.splits sum.splits list.splits)

lemma seen_le_connection_to:
  assumes "\<And>x. seen_le x (qn_meanwhile w x)"
  shows "seen_le q (snd (connection_to w p q))" "seen_le q (snd (connection_to_via w p k q))"
proof -
  have "seen_le q (snd (connection_to_at w p a q))" for a q
    using assms [of q] by (auto simp: connection_to_at_def seen_le_def Let_def split: option.splits sum.splits)
  then show "seen_le q (snd (connection_to w p q))"
    unfolding connection_to_def by (intro seen_le_qbind seen_le_simple)
  have "seen_le x (snd (let q1 = qn_meanwhile w x in case connect_quic_addr w a of
              Inr c \<Rightarrow> (Done c, start_connection_tasks c (Some k) (q1\<lparr>q_via := dm_insert (p, k) c (q_via q1)\<rparr>))
            | Inl e \<Rightarrow>
                (Fail e, upd_sock (release_virtual_peer_via p k) (remove_closed_via (qn_closed_later w) p k q1))))" for x a
    using assms [of x] by (auto simp: seen_le_def Let_def split: sum.splits)
  then show "seen_le q (snd (connection_to_via w p k q))"
    by (cases "live_connection (q_via q) (qn_closed w) (p, k)")
      (auto simp: connection_to_via_def intro!: seen_le_qbind seen_le_simple)
qed

lemma seen_le_send_copies: "seen_le q (snd (send_copies w c data is q))"
proof (induction "is" arbitrary: q)
  case (Cons i "is")
  then show ?case by (simp add: seen_le_qbind seen_le_simple)
qed (simp add: qret_def)

lemma seen_le_open_attempts:
  assumes "\<And>w q. w \<in> set ws \<Longrightarrow> seen_le q (snd (once w q))" "\<And>w q. seen_le q (f w q)"
  shows "seen_le q (snd (open_attempts once f e ws q))"
  using assms
proof (induction ws arbitrary: q e)
  case (Cons w ws)
  obtain r q' where r: "once w q = (r, q')" by fastforce
  have 1: "seen_le q q'" using Cons.prems(1) [of w q] by (simp add: r)
  have 2: "seen_le q' (snd (open_attempts once f e' ws (f w q')))" for e'
    using seen_le_trans [OF Cons.prems(2) [of q' w] Cons.IH] Cons.prems by simp
  show ?case using 1 seen_le_trans [OF 1 2] by (cases r) (simp_all add: r)
qed simp

lemma seen_le_handlers:
  "seen_le q (snd (handle_incoming_stream env remote i input q))"
  "seen_le q (snd (handle_incoming_datagram env remote data q))"
proof -
  show "seen_le q (snd (handle_incoming_stream env remote i input q))"
    by (auto simp: handle_incoming_stream_def qfail_def intro!: seen_le_qbind seen_le_simple
        split: sum.splits prod.splits stream_frame.splits)
  have "seen_le q q1 \<Longrightarrow> seen_le q (snd (qbind m f q1))"
    if "\<And>x q'. seen_le q' (snd (f x q'))" "\<And>q. seen_le q (snd (m q))" for q1 and f :: "route_key \<times> u8 \<Rightarrow> unit qact" and m
    by (rule seen_le_trans [OF _ seen_le_qbind]) (use that in auto)
  moreover have "seen_le q (q\<lparr>q_seen := insert x (q_seen q)\<rparr>)" for x by (auto simp: seen_le_def)
  ultimately show "seen_le q (snd (handle_incoming_datagram env remote data q))"
    by (auto simp: handle_incoming_datagram_def qfail_def Let_def seen_le_simple split: sum.splits datagram_frame.splits)
qed

lemma seen_le_task_turn: "seen_le q (snd (connection_task_turn env t ev q))"
proof -
  have l: "seen_le q (snd (qlogged m q)) = seen_le q (snd (m q))" for m
    by (auto simp: qlogged_def split: prod.splits eff.splits)
  have e: "seen_le q (end_task t q)" by (simp add: seen_le_def)
  show ?thesis by (cases ev) (auto simp: l e seen_le_handlers qret_def qupd_def)
qed

lemma seen_le_transport_turn: "seen_le q (snd (transport_loop_turn w q))"
proof -
  have "seen_le q (snd (qbind (qregister w src) (\<lambda>a. qupd (upd_sock (inject_routed_quic payload a))) (q\<lparr>q_node := n\<rparr>)))" for src payload n
    by (rule seen_le_trans [OF _ seen_le_qbind]) (auto simp: seen_le_simple qupd_def seen_le_def [of _ "upd_sock _ _"], simp add: seen_le_def)
  then show ?thesis by (auto simp: transport_loop_turn_def seen_le_def split: prod.splits option.splits)
qed

lemma seen_le_calls:
  assumes "\<And>x. seen_le x (qn_meanwhile w x)"
  shows "seen_le q (snd (quic_send_to env w p data q))" "seen_le q (snd (quic_send_to_via env w p k data q))"
    "seen_le q (snd (open_bi_once env w p q))" "seen_le q (snd (open_bi_via_once env w p k q))"
  unfolding quic_send_to_def quic_send_to_via_def open_bi_once_def open_bi_via_once_def
  by (intro seen_le_qbind seen_le_simple seen_le_send_copies seen_le_connection_to assms)+

lemma seen_grows:
  "q_step q q' \<Longrightarrow> seen_le q q'" and seen_grows_steps: "q_steps q q' \<Longrightarrow> seen_le q q'"
proof (induction rule: q_step_q_steps.inducts)
  case (q_trans q q' q'')
  then show ?case using seen_le_trans by blast
next
  case (q_try_send_to q env w p data)
  then show ?case by (auto simp: quic_try_send_to_def qfail_def seen_le_simple split: option.splits)
next
  case (q_try_send_to_via q env w p k data)
  then show ?case by (auto simp: quic_try_send_to_via_def qfail_def seen_le_simple split: option.splits)
next
  case (q_open_bi w w' q env p)
  then show ?case unfolding open_bi_def by (intro seen_le_open_attempts) (auto intro: seen_le_calls, simp add: seen_le_def)
next
  case (q_open_bi_via w w' q env p k)
  then show ?case unfolding open_bi_via_def by (intro seen_le_open_attempts) (auto intro: seen_le_calls, simp add: seen_le_def)
qed (simp_all add: seen_le_calls seen_le_task_turn seen_le_transport_turn seen_le_simple, simp_all add: seen_le_def)

section \<open>Lost datagrams, connections and accept loops\<close>

text \<open>
  C33: The copies of a datagram do not help against a route that is not known yet. If the first copy arrives when the
  receiver has no route to its sender, it is refused with the routing error, but its id is already on record: in every later
  state of the endpoint, also after a route has been confirmed, each further copy is dropped without a trace.
\<close>

theorem datagram_lost_before_route:
  assumes "decode_datagram_frame (en_codec env) data = Inr (DatagramUser i src (q_id q) payload)"
    and "peer_for_virtual_addr remote (q_sock q) \<noteq> None" and "(src, i) \<notin> q_seen q"
    and "node_route_metric_for src (q_node q) = (Fail e, n')"
    and "handle_incoming_datagram env remote data q = (r, q1)"
    and "q_steps q1 q2" and "peer_for_virtual_addr remote' (q_sock q2) \<noteq> None"
  shows "r = Fail e \<and> q_inbox q1 = q_inbox q \<and> handle_incoming_datagram env remote' data q2 = (Done (), q2)"
proof -
  have f: "r = Fail e" "q_inbox q1 = q_inbox q" "(src, i) \<in> q_seen q1"
    using assms(1-5) by (auto simp: handle_incoming_datagram_def qbind_def on_node_def Let_def)
  then have "(src, i) \<in> q_seen q2" using seen_grows_steps [OF assms(6)] by (auto simp: seen_le_def)
  from handle_datagram_seen [OF assms(1) this assms(7)] f show ?thesis by simp
qed

text \<open>
  The source of a message is whatever the frame claims. A datagram that arrives on the connection of one peer and names
  any other peer to which the receiver has a route is delivered as a message of that other peer; the route and hop count shown
  with it are those of the claimed source.
\<close>

theorem datagram_source_unchecked:
  assumes "peer_for_virtual_addr remote (q_sock q) = Some liar" and "src \<noteq> liar"
    and "decode_datagram_frame (en_codec env) data = Inr (DatagramUser i src (q_id q) payload)"
    and "(src, i) \<notin> q_seen q" and "node_route_metric_for src (q_node q) = (Done km, n')"
    and "length (q_inbox q) < 512"
  shows "\<exists>q' m. handle_incoming_datagram env remote data q = (Done (), q') \<and> q_inbox q' = q_inbox q @ [m] \<and>
    rm_src m = src \<and> rm_payload m = payload \<and> rm_route m = fst km"
  using handle_datagram_new [of remote q env data i src payload km n'] assms
  by (simp add: datagram_message_def Let_def)

text \<open>
  One failed incoming handshake ends the accept loop for good: whatever arrives later, also a
  connection whose handshake succeeds, starts no tasks.
\<close>

theorem accept_loop_ends_on_failure:
  "fold accept_loop_turn (IncomingFailed # evs) q = q\<lparr>q_accepting := False\<rparr>"
proof -
  have stop: "fold accept_loop_turn evs x = x" if "\<not> q_accepting x" for x
    by (induction evs) (use that in \<open>simp_all add: accept_loop_turn_def\<close>)
  have "accept_loop_turn IncomingFailed q = q\<lparr>q_accepting := False\<rparr>"
    by (cases q) (simp add: accept_loop_turn_def)
  then show ?thesis using stop [of "q\<lparr>q_accepting := False\<rparr>"] by simp
qed

lemma try_send_unknown:
  "peer_for_virtual_addr a s = None \<Longrightarrow>
   quic_try_send s a data n = (Fail (IoError NotFound ''unknown synthetic QUIC destination''), n)"
  by (simp add: quic_try_send_def peer_for_virtual_addr_def)

lemma released_unknown:
  assumes "dm_get (qs_by_peer s) p = Some a"
  shows "peer_for_virtual_addr a (release_virtual_peer p s) = None"
  using assms by (simp add: release_virtual_peer_def peer_for_virtual_addr_def)

lemma released_via_unknown:
  assumes "dm_get (qs_via s) (p, k) = Some a"
  shows "peer_for_virtual_addr a (release_virtual_peer_via p k s) = None"
  using assms by (simp add: release_virtual_peer_via_def peer_for_virtual_addr_def)

text \<open>
  C32: Concurrent attempts to connect to one peer share its synthetic address, and the first that fails releases it under
  the others. Here a second call waits for its handshake on the same address while the first one fails: the second
  still succeeds and is cached as the connection of the peer, but its address stands for nobody any more, so every packet the QUIC library sends
  on it fails, and its tasks do not know the peer, so their end does not remove it from the cache.
\<close>

theorem failed_attempt_breaks_other_connection:
  assumes "dm_get (qs_by_peer (q_sock q)) p = Some a" and "dm_get (q_conns q) p = None"
    and "qn_meanwhile w = (\<lambda>x. snd (connection_to_at w' p a x))" and "qn_meanwhile w' = (\<lambda>x. x)"
    and "connect_quic_addr w' a = Inl e" and "connect_quic_addr w a = Inr c" and "cn_id c \<notin> q_tasks q"
    and "connection_to_at w p a q = (r, q')"
  shows "r = Done c \<and> dm_get (q_conns q') p = Some c \<and> quic_try_send (q_sock q') (cn_addr c) data n
       = (Fail (IoError NotFound ''unknown synthetic QUIC destination''), n) \<and>
     (\<exists>t. t \<in> set (q_spawned q') \<and> ct_conn t = c \<and> dm_get (q_conns (end_task t q')) p = Some c)"
proof -
  have ca: "cn_addr c = a" using assms(6) by (auto simp: connect_quic_addr_def split: handshake.splits if_splits)
  define q1 where "q1 = upd_sock (release_virtual_peer p) q"
  have m: "qn_meanwhile w q = q1"
    using assms(2-5) by (simp add: connection_to_at_def live_connection_def Let_def q1_def)
  define t where "t = \<lparr>ct_conn = c, ct_peer = None, ct_via = None, ct_streams = True\<rparr>"
  have u: "peer_for_virtual_addr a (q_sock q1) = None" using released_unknown [OF assms(1)] by (simp add: q1_def upd_sock_def)
  have q': "r = Done c" "q' = start_connection_tasks c None (q1\<lparr>q_conns := dm_insert p c (q_conns q1)\<rparr>)"
    using assms(2,6,8) m by (simp_all add: connection_to_at_def live_connection_def Let_def)
  have f: "q_sock q' = q_sock q1" "dm_get (q_conns q') p = Some c" "t \<in> set (q_spawned q')"
    using assms(7) u ca by (simp_all add: q' start_connection_tasks_def Let_def t_def q1_def upd_sock_def)
  have "dm_get (q_conns (end_task t q')) p = Some c"
    using f(2) by (simp add: end_task_def cleanup_connection_def t_def Let_def)
  then show ?thesis using q'(1) f try_send_unknown [of a "q_sock q'"] u ca by (auto simp: t_def)
qed

text \<open>
  \<open>open_bi_via\<close> gives up the address of a healthy connection. When opening a stream fails twice on a cached
  per-route connection that is still alive (for instance because it has no stream credit), the connection stays cached, but its
  synthetic address is released: \<open>try_send_to_via\<close> goes on using it, and every packet the QUIC library sends on it fails.
\<close>

theorem open_bi_via_strands_connection:
  assumes "dm_get (q_via q) (p, k) = Some c" and "dm_get (qs_via (q_sock q)) (p, k) = Some (cn_addr c)"
    and "list_all (\<lambda>x. qn_closed x = (\<lambda>_. False) \<and> qn_closed_later x = (\<lambda>_. False) \<and> qn_open_bi x (cn_id c) = Inl e) [w, w']"
    and "open_bi_via env w w' p k q = (r, q')" and "qn_datagram w 0 = Inr ()"
  shows "r = Fail e \<and> dm_get (q_via q') (p, k) = Some c \<and> fst (quic_try_send_to_via env w p k payload q') = Done () \<and>
    quic_try_send (q_sock q') (cn_addr c) data n = (Fail (IoError NotFound ''unknown synthetic QUIC destination''), n)"
proof -
  have once: "open_bi_via_once env x p k y = (Fail e, y)"
    if "dm_get (q_via y) (p, k) = Some c" "x \<in> set [w, w']" for x y
    using that assms(3) by (auto simp: open_bi_via_once_def qbind_def connection_to_via_def live_connection_def open_stream_def list_all_iff)
  have keep: "drop_via (qn_closed_later x) p k y = upd_sock (release_virtual_peer_via p k) y"
    if "dm_get (q_via y) (p, k) = Some c" "x \<in> set [w, w']" for x y
    using that assms(3) by (cases y) (auto simp: drop_via_def remove_closed_via_def dm_remove_if_def)
  define q1 where "q1 = upd_sock (release_virtual_peer_via p k) q"
  have v: "dm_get (q_via q1) (p, k) = Some c" "dm_get (qs_via (q_sock q1)) (p, k) = None"
    using assms(1,2) by (simp_all add: q1_def upd_sock_def release_virtual_peer_via_def)
  have "upd_sock (release_virtual_peer_via p k) q1 = q1"
    using v(2) by (cases q1) (simp add: upd_sock_def release_virtual_peer_via_def)
  then have e: "r = Fail e" "q' = q1"
    using assms(4) once [OF assms(1), of w] keep [OF assms(1), of w] once [OF v(1), of w'] keep [OF v(1), of w']
    by (simp_all add: open_bi_via_def q1_def [symmetric])
  have u: "peer_for_virtual_addr (cn_addr c) (q_sock q1) = None"
    using released_via_unknown [OF assms(2)] by (simp add: q1_def upd_sock_def)
  show ?thesis using e v(1) assms(3,5) try_send_unknown [OF u]
    by (simp add: quic_try_send_to_via_def live_connection_def send_datagram_def)
qed

text \<open>
  The address of a peer is shared by the connection this endpoint opened and those the peer opened. When the cached
  outgoing connection ends, its clean-up releases the address although incoming connections of the same peer use it: packets
  sent on them fail, and datagrams and streams that arrive on them are refused.
\<close>

theorem cleanup_silences_incoming_connection:
  assumes "dm_get (q_conns q) p = Some c" and "dm_get (qs_by_peer (q_sock q)) p = Some (cn_addr (d :: connection))"
    and "q' = cleanup_connection (cn_id c) (Some p) q"
  shows "quic_try_send (q_sock q') (cn_addr d) out n = (Fail (IoError NotFound ''unknown synthetic QUIC destination''), n) \<and>
    handle_incoming_datagram env (cn_addr d) data q'
      = (Fail (IoError PermissionDenied ''datagram arrived from unknown synthetic peer''), q') \<and>
    handle_incoming_stream env (cn_addr d) i input q'
      = (Fail (IoError PermissionDenied ''stream arrived from unknown synthetic peer''), q')"
proof -
  have "peer_for_virtual_addr (cn_addr d) (q_sock q') = None"
    using assms released_unknown [OF assms(2)] by (simp add: cleanup_connection_def upd_sock_def)
  then show ?thesis by (simp add: try_send_unknown handle_incoming_datagram_def handle_incoming_stream_def qfail_def)
qed

section \<open>Getting a connection\<close>

lemma ensure_peer_reachable_ends: "fst (ensure_peer_reachable p n) \<noteq> Stuck"
  by (auto simp: ensure_peer_reachable_def Protocol_Layer.bind_def on_transport_def lift_def ret_def split: prod.splits sum.splits)

text \<open>A registration that nobody interrupts publishes an address of its own, the one the peer already had if there was one.\<close>

lemma register_alone:
  assumes "qn_race w = (\<lambda>s. s)" "sock_inv (s0, [])" "register_virtual_peer (qn_rnd w) (qn_race w) p s0 = Some (a, s)"
  shows "dm_get (qs_by_peer s) p = Some a" "dm_get (qs_by_addr s) a = Some (plain_peer p)"
    "the (if dm_get (qs_by_peer s0) p = None then choose_addr (qn_rnd w) s0 else dm_get (qs_by_peer s0) p) = a"
proof -
  have rw: "races_with (qn_race w) (qn_rnd w) (plain_peer p) (s0, []) []" by (simp add: assms(1) races_with_id)
  show "dm_get (qs_by_peer s) p = Some a" "dm_get (qs_by_addr s) a = Some (plain_peer p)"
    using register_race(2,3) [OF assms(2) rw, folded register_virtual_peer_eq] assms(3) by auto
  show "the (if dm_get (qs_by_peer s0) p = None then choose_addr (qn_rnd w) s0 else dm_get (qs_by_peer s0) p) = a"
    using assms(3) by (auto simp: assms(1) register_virtual_peer_eq settle_vp_def split: option.splits)
qed

lemma connected_addr: "connect_quic_addr w a = Inr c \<Longrightarrow> cn_addr c = a"
  by (auto simp: connect_quic_addr_def split: handshake.splits if_splits)

text \<open>
  C31: What getting a connection to a peer does when no other task interferes. An unreachable peer leaves the caches and the
  address table alone. A live cached connection is returned and the cache kept. Otherwise a connection is attempted: on
  success it is cached, its tasks run, and its address is the published address of the peer and maps back to it; on failure the cache is
  as before and the peer's address is released if the cached connection is gone. The call waits without end only if no free address is ever drawn.
\<close>

theorem connection_to_spec:
  assumes "qn_meanwhile w = (\<lambda>x. x)" and "qn_race w = (\<lambda>s. s)" and inv: "sock_inv (q_sock q, [])"
    and r: "connection_to w p q = (r, q')"
  shows "case r of
      Stuck \<Rightarrow> choose_addr (qn_rnd w) (q_sock q) = None
    | Fail e \<Rightarrow> q_conns q' = q_conns q \<and>
        (fst (ensure_peer_reachable p (q_node q)) = Fail e \<and> q_sock q' = q_sock q \<or>
         connect_quic_addr w (the (if dm_get (qs_by_peer (q_sock q)) p = None then choose_addr (qn_rnd w) (q_sock q)
             else dm_get (qs_by_peer (q_sock q)) p)) = Inl e \<and>
         live_connection (q_conns q) (qn_closed w) p = None \<and>
         (live_connection (q_conns q) (qn_closed_later w) p = None \<longrightarrow> dm_get (qs_by_peer (q_sock q')) p = None))
    | Done c \<Rightarrow> dm_get (q_conns q') p = Some c \<and>
        (case live_connection (q_conns q) (qn_closed w) p of
           Some c' \<Rightarrow> c = c' \<and> q_conns q' = q_conns q \<and> q_spawned q' = q_spawned q
         | None \<Rightarrow> cn_id c \<in> q_tasks q' \<and> dm_get (qs_by_peer (q_sock q')) p = Some (cn_addr c) \<and>
             dm_get (qs_by_addr (q_sock q')) (cn_addr c) = Some (plain_peer p))"
proof -
  obtain e1 n1 where n: "ensure_peer_reachable p (q_node q) = (e1, n1)" by fastforce
  show ?thesis
  proof (cases e1)
    case (Done u)
    show ?thesis
    proof (cases "register_virtual_peer (qn_rnd w) (qn_race w) p (q_sock q)")
      case None
      then have "choose_addr (qn_rnd w) (q_sock q) = None"
        by (auto simp: register_virtual_peer_eq split: option.splits)
      then show ?thesis using r None Done n by (auto simp: connection_to_def qbind_def on_node_def qregister_def)
    next
      case (Some as)
      obtain a s where as: "as = (a, s)" by fastforce
      note reg = register_alone [OF assms(2) inv Some [unfolded as]]
      have r': "(r, q') = connection_to_at w p a (q\<lparr>q_node := n1, q_sock := s\<rparr>)"
        using r Some Done n as by (simp add: connection_to_def qbind_def on_node_def qregister_def)
      show ?thesis
      proof (cases "live_connection (q_conns q) (qn_closed w) p")
        case None
        then show ?thesis using r' reg connected_addr [of w a]
          by (auto simp: connection_to_at_def assms(1) start_connection_tasks_def upd_sock_def release_virtual_peer_def Let_def
              split: sum.splits if_splits)
      next
        case (Some c)
        then show ?thesis using r' by (auto simp: connection_to_at_def live_connection_def split: option.splits if_splits)
      qed
    qed
  next
    case Stuck
    then show ?thesis using ensure_peer_reachable_ends [of p "q_node q"] n by simp
  qed (use r n in \<open>auto simp: connection_to_def qbind_def on_node_def\<close>)
qed

section \<open>Witnesses\<close>

text \<open>
  An endpoint \<open>m\<close> with a confirmed route to the peer \<open>a\<close>, that peer's endpoint, and a QUIC library in which
  everything works. The second endpoint has received a packet of \<open>m\<close> and so knows its address.
\<close>

definition sample_codec_quic :: "env" where
  "sample_codec_quic = sample_env\<lparr>en_codec := sample_codec
     \<lparr>dec_stream := \<lambda>_. Some (Some ([0x6d], [0x61])), dec_datagram := \<lambda>_. Some (Some (9, [0x6d], [0x61], [1, 2]))\<rparr>\<rparr>"

definition sample_world :: quinn where
  "sample_world = \<lparr>qn_rnd = \<lambda>_. (1, 1), qn_race = \<lambda>s. s, qn_closed = \<lambda>_. False, qn_connect = \<lambda>_. Established 7 False,
     qn_meanwhile = \<lambda>q. q, qn_closed_later = \<lambda>_. False, qn_datagram_id = 9, qn_datagram = \<lambda>_. Inr (),
     qn_open_bi = \<lambda>_. Inr 3, qn_write = \<lambda>_. Inr ()\<rparr>"

definition sample_routed :: node where
  "sample_routed = (sample_node MostRecent)\<lparr>pr_transport :=
     confirm_route sample_env (PeerId [0x61]) (sample_key 1) 0 (sample_transport MostRecent)\<rparr>"

definition sample_endpoint :: quic where
  "sample_endpoint = quic_bind (PeerId [0x6d]) sample_routed"

definition sample_addr :: socket_addr where
  "sample_addr = random_addr (\<lambda>_. (1, 1)) 0"

definition sample_far_node :: node where
  "sample_far_node = sample_remote\<lparr>pr_candidates := [(PeerId [0x6d], sample_key 2)], pr_quic := [(PeerId [0x6d], [0])]\<rparr>"

definition sample_far :: quic where
  "sample_far = snd (transport_loop_turn sample_world (quic_bind (PeerId [0x61]) sample_far_node))"

lemma sample_world_simps [simp]:
  "qn_open_bi sample_world = (\<lambda>_. Inr 3)" "qn_write sample_world = (\<lambda>_. Inr ())" "qn_datagram sample_world = (\<lambda>_. Inr ())"
  "qn_datagram_id sample_world = 9" "qn_meanwhile sample_world = (\<lambda>q. q)" "qn_race sample_world = (\<lambda>s. s)"
  "qn_closed sample_world = (\<lambda>_. False)" "qn_closed_later sample_world = (\<lambda>_. False)"
  "qn_connect sample_world = (\<lambda>_. Established 7 False)"
  "qn_rnd sample_world = (\<lambda>_. (1, 1))"
  by (simp_all add: sample_world_def)

lemma sample_register:
  assumes "qs_by_peer s = []" "qs_by_addr s = []"
  shows "register_virtual_peer (\<lambda>_. (1, 1)) (\<lambda>s. s) p s =
    Some (sample_addr, s\<lparr>qs_by_addr := [(sample_addr, plain_peer p)], qs_by_peer := [(p, sample_addr)]\<rparr>)"
proof -
  have "choose_addr (\<lambda>_. (1, 1)) s = Some sample_addr"
    unfolding sample_addr_def by (rule choose_addr_first) (simp add: is_vacant_def assms)
  then show ?thesis using assms
    by (simp add: register_virtual_peer_def allocate_virtual_addr_def reserve_addr_def dm_insert_def)
qed

lemma sample_peer_reachable: "\<exists>n. ensure_peer_reachable (PeerId [0x61]) sample_routed = (Done (), n)"
  by (simp add: ensure_peer_reachable_def Protocol_Layer.bind_def on_transport_def lift_def ret_def route_for_def sample_routed_def
      confirm_route_def sample_transport_def transport_bind_def get_route_by_id_def add_route_def sample_simps Let_def
      split: prod.splits sum.splits)

lemma sample_connection:
  obtains n where "connection_to sample_world (PeerId [0x61]) sample_endpoint =
    (Done \<lparr>cn_id = 7, cn_addr = sample_addr\<rparr>,
     start_connection_tasks \<lparr>cn_id = 7, cn_addr = sample_addr\<rparr> None
       (sample_endpoint\<lparr>q_node := n, q_sock := quic_socket_new\<lparr>qs_by_addr := [(sample_addr, plain_peer (PeerId [0x61]))],
          qs_by_peer := [(PeerId [0x61], sample_addr)]\<rparr>, q_conns := [(PeerId [0x61], \<lparr>cn_id = 7, cn_addr = sample_addr\<rparr>)]\<rparr>))"
proof -
  obtain n where n: "ensure_peer_reachable (PeerId [0x61]) sample_routed = (Done (), n)" using sample_peer_reachable by blast
  have s: "q_sock sample_endpoint = quic_socket_new" "q_node sample_endpoint = sample_routed" "q_conns sample_endpoint = []"
    by (simp_all add: sample_endpoint_def quic_bind_def)
  have e: "qs_by_peer quic_socket_new = []" "qs_by_addr quic_socket_new = []" by (simp_all add: quic_socket_new_def)
  show thesis
    by (rule that [of n])
      (simp add: connection_to_def qbind_def on_node_def n s qregister_def sample_register [OF e] connection_to_at_def
        live_connection_def connect_quic_addr_def dm_insert_def)
qed

lemma sample_connected:
  obtains q1 where "connection_to sample_world (PeerId [0x61]) sample_endpoint =
    (Done \<lparr>cn_id = 7, cn_addr = sample_addr\<rparr>, q1)" "q_id q1 = PeerId [0x6d]"
proof (rule sample_connection)
  fix n
  let ?q = "start_connection_tasks \<lparr>cn_id = 7, cn_addr = sample_addr\<rparr> None
       (sample_endpoint\<lparr>q_node := n, q_sock := quic_socket_new\<lparr>qs_by_addr := [(sample_addr, plain_peer (PeerId [0x61]))],
          qs_by_peer := [(PeerId [0x61], sample_addr)]\<rparr>, q_conns := [(PeerId [0x61], \<lparr>cn_id = 7, cn_addr = sample_addr\<rparr>)]\<rparr>)"
  have "q_id ?q = PeerId [0x6d]" by (simp add: start_connection_tasks_def sample_endpoint_def quic_bind_def Let_def)
  then show "connection_to sample_world (PeerId [0x61]) sample_endpoint = (Done \<lparr>cn_id = 7, cn_addr = sample_addr\<rparr>, ?q) \<Longrightarrow> thesis"
    using that by blast
qed

lemma sample_far_facts:
  "q_id sample_far = PeerId [0x61]" "peer_for_virtual_addr sample_addr (q_sock sample_far) = Some (PeerId [0x6d])"
  "q_seen sample_far = {}" "q_inbox sample_far = []" "q_streams sample_far = []"
  "q_node sample_far = sample_far_node\<lparr>pr_quic := []\<rparr>" and
  sample_far_by_peer: "dm_get (qs_by_peer (q_sock sample_far)) (PeerId [0x6d]) = Some sample_addr"
proof -
  have e: "qs_by_peer quic_socket_new = []" "qs_by_addr quic_socket_new = []" by (simp_all add: quic_socket_new_def)
  have eq: "sample_far = (quic_bind (PeerId [0x61]) (sample_far_node\<lparr>pr_quic := []\<rparr>))\<lparr>q_sock :=
     inject_routed_quic [0] sample_addr (quic_socket_new\<lparr>qs_by_addr := [(sample_addr, plain_peer (PeerId [0x6d]))],
          qs_by_peer := [(PeerId [0x6d], sample_addr)]\<rparr>)\<rparr>"
    by (simp add: sample_far_def transport_loop_turn_def quic_bind_def recv_quic_payload_def sample_far_node_def qbind_def qregister_def
        sample_register [OF e] qupd_def upd_sock_def)
  show "q_id sample_far = PeerId [0x61]" "peer_for_virtual_addr sample_addr (q_sock sample_far) = Some (PeerId [0x6d])"
    "q_seen sample_far = {}" "q_inbox sample_far = []" "q_streams sample_far = []"
    "q_node sample_far = sample_far_node\<lparr>pr_quic := []\<rparr>" "dm_get (qs_by_peer (q_sock sample_far)) (PeerId [0x6d]) = Some sample_addr"
    by (simp_all add: eq quic_bind_def inject_routed_quic_def peer_for_virtual_addr_def dm_get_def plain_peer_def)
qed

lemma sample_far_route:
  obtains n where "node_route_metric_for (PeerId [0x6d]) (q_node sample_far) = (Done (sample_key 2, 0), n)"
proof -
  have "fst (route_metric_for (PeerId [0x6d]) (pr_transport sample_remote)) = Inl (IoError NotFound ''route not found'')"
    by (simp add: route_metric_for_def route_for_def get_route_by_id_def sample_remote_def protocol_new_def
        transport_bind_def route_table_new_def)
  then show thesis
    by (intro that [of "(sample_far_node\<lparr>pr_quic := [], pr_transport := snd (route_metric_for (PeerId [0x6d]) (pr_transport sample_remote))\<rparr>)"])
      (cases "route_metric_for (PeerId [0x6d]) (pr_transport sample_remote)",
       simp add: node_route_metric_for_def sample_far_facts sample_far_node_def dm_get_def)
qed

theorem datagram_delivered_once_witness:
  "\<exists>data. q_inbox (handle_copies sample_codec_quic sample_addr [data, data, data] sample_far)
     = [datagram_message sample_far (PeerId [0x6d]) [1, 2] (sample_key 2, 0)]"
proof -
  obtain q1 where c: "connection_to sample_world (PeerId [0x61]) sample_endpoint =
      (Done \<lparr>cn_id = 7, cn_addr = sample_addr\<rparr>, q1)" "q_id q1 = PeerId [0x6d]"
    by (rule sample_connected)
  obtain n' where m: "node_route_metric_for (PeerId [0x6d]) (q_node sample_far) = (Done (sample_key 2, 0), n')"
    by (rule sample_far_route)
  have five: "[0..<5] = [0, 1, 2, 3, 4::nat]" by (simp add: upt_rec)
  obtain a' where s: "quic_send_to sample_codec_quic sample_world (PeerId [0x61]) [1, 2] sample_endpoint = (Done (), a')"
    and i: "q_id a' = PeerId [0x6d]"
    by (auto simp: quic_send_to_def qbind_def c five send_datagram_def qret_def)
  have "\<exists>(c :: connection) old data. q_sent a' = old @ replicate 5 (cn_id c, data) \<and>
    q_inbox (handle_copies sample_codec_quic sample_addr (replicate (Suc 2) data) sample_far)
      = q_inbox sample_far @ [datagram_message sample_far (q_id a') [1, 2] (sample_key 2, 0)]"
    by (rule datagram_delivered_once [where w = sample_world and a = sample_endpoint])
      (use s m i in \<open>simp_all add: sample_far_facts sample_codec_quic_def\<close>)
  then show ?thesis using i by (auto simp: sample_far_facts numeral_2_eq_2)
qed

lemma race_ok_id: "race_ok (\<lambda>s. s)"
  by (simp add: race_ok_def steps_refl)

lemma sample_far_steps: "q_steps (quic_bind (PeerId [0x61]) sample_far_node) sample_far"
  unfolding sample_far_def by (rule q_trans [OF q_transport q_refl]) (simp add: race_ok_id)

text \<open>The endpoint accepts a connection of \<open>m\<close> and receives the datagram of the sample codec on it.\<close>

definition sample_accepted :: quic where
  "sample_accepted = accept_loop_turn (IncomingOk \<lparr>cn_id = 5, cn_addr = sample_addr\<rparr>) sample_far"

definition sample_task :: connection_task where
  "sample_task = \<lparr>ct_conn = \<lparr>cn_id = 5, cn_addr = sample_addr\<rparr>, ct_peer = Some (PeerId [0x6d]), ct_via = None, ct_streams = False\<rparr>"

definition sample_received :: quic where
  "sample_received = snd (connection_task_turn sample_codec_quic sample_task (GotDatagram sample_addr [0]) sample_accepted)"

lemma sample_far_flags: "q_accepting sample_far" "\<not> q_closed sample_far" "q_tasks sample_far = {}" "q_delivered sample_far = []"
  "q_conns sample_far = []"
proof -
  have "q_accepting (snd (qbind (qregister sample_world p) (\<lambda>a. qupd (upd_sock (inject_routed_quic d a))) q)) = q_accepting q"
    "q_closed (snd (qbind (qregister sample_world p) (\<lambda>a. qupd (upd_sock (inject_routed_quic d a))) q)) = q_closed q"
    "q_tasks (snd (qbind (qregister sample_world p) (\<lambda>a. qupd (upd_sock (inject_routed_quic d a))) q)) = q_tasks q"
    "q_delivered (snd (qbind (qregister sample_world p) (\<lambda>a. qupd (upd_sock (inject_routed_quic d a))) q)) = q_delivered q"
    "q_conns (snd (qbind (qregister sample_world p) (\<lambda>a. qupd (upd_sock (inject_routed_quic d a))) q)) = q_conns q" for p d q
    by (auto simp: qbind_def qregister_def qupd_def upd_sock_def split: option.splits)
  then show "q_accepting sample_far" "\<not> q_closed sample_far" "q_tasks sample_far = {}" "q_delivered sample_far = []" "q_conns sample_far = []"
    by (simp_all add: sample_far_def transport_loop_turn_def quic_bind_def recv_quic_payload_def sample_far_node_def)
qed

lemma sample_accepted_facts:
  "sample_accepted = sample_far\<lparr>q_tasks := {5}, q_spawned := q_spawned sample_accepted\<rparr>"
  "sample_task \<in> set (q_spawned sample_accepted)"
  by (simp_all add: sample_accepted_def accept_loop_turn_def sample_far_flags start_connection_tasks_def sample_far_facts
      sample_task_def Let_def)

lemma sample_received_delivered: "q_delivered sample_received = [(PeerId [0x6d], 9)]"
proof -
  obtain n where m: "node_route_metric_for (PeerId [0x6d]) (q_node sample_far) = (Done (sample_key 2, 0), n)"
    by (rule sample_far_route)
  have d: "decode_datagram_frame (en_codec sample_codec_quic) [0] = Inr (DatagramUser 9 (PeerId [0x6d]) (PeerId [0x61]) [1, 2])"
    by (simp add: sample_codec_quic_def decode_datagram_frame_def decode_msg_def ok_or_def required_def)
  have f: "q_sock sample_accepted = q_sock sample_far" "q_id sample_accepted = q_id sample_far" "q_seen sample_accepted = q_seen sample_far"
    "q_node sample_accepted = q_node sample_far" "q_inbox sample_accepted = q_inbox sample_far"
    "q_delivered sample_accepted = q_delivered sample_far"
    by (subst sample_accepted_facts(1), simp)+
  have "q_delivered (snd (handle_incoming_datagram sample_codec_quic sample_addr [0] sample_accepted)) = [(PeerId [0x6d], 9)]"
    by (subst handle_datagram_new [OF _ d [folded sample_far_facts(1) f(2)]]) (use m in \<open>simp_all add: f sample_far_facts sample_far_flags\<close>)
  then show ?thesis by (auto simp: sample_received_def sample_task_def qlogged_def split: prod.splits eff.splits)
qed


theorem connection_to_spec_witness:
  "\<exists>q'. connection_to sample_world (PeerId [0x61]) sample_endpoint = (Done \<lparr>cn_id = 7, cn_addr = sample_addr\<rparr>, q') \<and>
     dm_get (q_conns q') (PeerId [0x61]) = Some \<lparr>cn_id = 7, cn_addr = sample_addr\<rparr> \<and> 7 \<in> q_tasks q' \<and>
     dm_get (qs_by_addr (q_sock q')) sample_addr = Some (plain_peer (PeerId [0x61]))"
proof -
  obtain q' where c: "connection_to sample_world (PeerId [0x61]) sample_endpoint = (Done \<lparr>cn_id = 7, cn_addr = sample_addr\<rparr>, q')"
    by (rule sample_connected)
  have i: "sock_inv (q_sock sample_endpoint, [])" "q_conns sample_endpoint = []"
    by (simp_all add: sample_endpoint_def quic_bind_def sock_inv_init)
  show ?thesis using connection_to_spec [OF _ _ i(1) c] c i(2) by (simp add: live_connection_def)
qed

text \<open>The peer endpoint before it has any route to \<open>m\<close>: it only knows the address of the connection.\<close>

theorem datagram_lost_before_route_witness:
  "\<exists>e q1. handle_incoming_datagram sample_codec_quic sample_addr [0] (sample_far\<lparr>q_node := sample_remote\<rparr>) = (Fail e, q1) \<and>
     handle_incoming_datagram sample_codec_quic sample_addr [0] (q1\<lparr>q_node := sample_far_node\<rparr>)
       = (Done (), q1\<lparr>q_node := sample_far_node\<rparr>)"
proof -
  let ?q = "sample_far\<lparr>q_node := sample_remote\<rparr>"
  have "fst (route_metric_for (PeerId [0x6d]) (pr_transport sample_remote)) = Inl (IoError NotFound ''route not found'')"
    by (simp add: route_metric_for_def route_for_def get_route_by_id_def sample_remote_def protocol_new_def
        transport_bind_def route_table_new_def)
  moreover have "pr_candidates sample_remote = []" by (simp add: sample_remote_def protocol_new_def)
  ultimately have "\<exists>e n'. node_route_metric_for (PeerId [0x6d]) sample_remote = (Fail e, n')"
    by (cases "route_metric_for (PeerId [0x6d]) (pr_transport sample_remote)") (auto simp: node_route_metric_for_def)
  then obtain e n' where m: "node_route_metric_for (PeerId [0x6d]) (q_node ?q) = (Fail e, n')" by auto
  have d: "decode_datagram_frame (en_codec sample_codec_quic) [0] = Inr (DatagramUser 9 (PeerId [0x6d]) (q_id ?q) [1, 2])"
    by (simp add: sample_codec_quic_def decode_datagram_frame_def decode_msg_def ok_or_def required_def sample_far_facts)
  obtain r q1 where h: "handle_incoming_datagram sample_codec_quic sample_addr [0] ?q = (r, q1)" by fastforce
  have s: "q_sock q1 = q_sock sample_far"
    using h d m by (auto simp: handle_incoming_datagram_def qbind_def on_node_def Let_def sample_far_facts)
  have st: "q_steps q1 (q1\<lparr>q_node := sample_far_node\<rparr>)" by (rule q_trans [OF q_protocol q_refl])
  have "r = Fail e \<and> q_inbox q1 = q_inbox ?q \<and> handle_incoming_datagram sample_codec_quic sample_addr [0] (q1\<lparr>q_node := sample_far_node\<rparr>)
      = (Done (), q1\<lparr>q_node := sample_far_node\<rparr>)"
    by (rule datagram_lost_before_route [OF d _ _ m h st]) (simp_all add: s sample_far_facts)
  then show ?thesis using h by blast
qed

theorem failed_attempt_breaks_other_connection_witness:
  "\<exists>q'. connection_to_at (sample_world\<lparr>qn_meanwhile := \<lambda>x. snd (connection_to_at (sample_world\<lparr>qn_connect := \<lambda>_. HandshakeTimeout\<rparr>)
        (PeerId [0x6d]) sample_addr x)\<rparr>) (PeerId [0x6d]) sample_addr sample_far = (Done \<lparr>cn_id = 7, cn_addr = sample_addr\<rparr>, q') \<and>
     fst (quic_try_send (q_sock q') sample_addr [1] sample_far_node) = Fail (IoError NotFound ''unknown synthetic QUIC destination'')"
proof -
  let ?w' = "sample_world\<lparr>qn_connect := \<lambda>_. HandshakeTimeout\<rparr>"
  let ?w = "sample_world\<lparr>qn_meanwhile := \<lambda>x. snd (connection_to_at ?w' (PeerId [0x6d]) sample_addr x)\<rparr>"
  obtain r q' where h: "connection_to_at ?w (PeerId [0x6d]) sample_addr sample_far = (r, q')" by fastforce
  have "r = Done \<lparr>cn_id = 7, cn_addr = sample_addr\<rparr> \<and> dm_get (q_conns q') (PeerId [0x6d]) = Some \<lparr>cn_id = 7, cn_addr = sample_addr\<rparr> \<and>
     quic_try_send (q_sock q') (cn_addr \<lparr>cn_id = 7, cn_addr = sample_addr\<rparr>) [1] sample_far_node
       = (Fail (IoError NotFound ''unknown synthetic QUIC destination''), sample_far_node) \<and>
     (\<exists>t. t \<in> set (q_spawned q') \<and> ct_conn t = \<lparr>cn_id = 7, cn_addr = sample_addr\<rparr> \<and>
          dm_get (q_conns (end_task t q')) (PeerId [0x6d]) = Some \<lparr>cn_id = 7, cn_addr = sample_addr\<rparr>)"
    by (rule failed_attempt_breaks_other_connection [where w' = ?w' and e = "IoError TimedOut ''QUIC handshake timed out''", OF _ _ _ _ _ _ _ h])
      (simp_all add: sample_far_by_peer sample_far_flags connect_quic_addr_def)
  then show ?thesis using h by simp
qed

theorem cleanup_silences_incoming_connection_witness:
  "\<exists>q. q_spawned q = q_spawned sample_accepted \<and>
     handle_incoming_datagram sample_codec_quic sample_addr [0] (cleanup_connection 7 (Some (PeerId [0x6d])) q)
       = (Fail (IoError PermissionDenied ''datagram arrived from unknown synthetic peer''), cleanup_connection 7 (Some (PeerId [0x6d])) q)"
proof -
  let ?q = "sample_accepted\<lparr>q_conns := [(PeerId [0x6d], \<lparr>cn_id = 7, cn_addr = sample_addr\<rparr>)]\<rparr>"
  have c: "dm_get (q_conns ?q) (PeerId [0x6d]) = Some \<lparr>cn_id = 7, cn_addr = sample_addr\<rparr>" by (simp add: dm_get_def)
  have a: "dm_get (qs_by_peer (q_sock ?q)) (PeerId [0x6d]) = Some (cn_addr \<lparr>cn_id = 5, cn_addr = sample_addr\<rparr>)"
    by (subst sample_accepted_facts(1)) (simp add: sample_far_by_peer)
  show ?thesis using cleanup_silences_incoming_connection [OF c a refl, of "[]" sample_far_node sample_codec_quic "[0]" 0 "[]"]
    by (intro exI [of _ ?q]) simp
qed

end
