(* ===== verification/Reliable_Stream.thy ===== *)
theory Reliable_Stream
  imports Quic_Props
begin

text \<open>
  The two halves of a stream in \<open>rustp2p-quic/src/reliable.rs\<close>. They wrap the halves of the QUIC library, whose answers are arguments: how
  much of a write was taken, how many bytes a read returned, or an error with the text it displays. A send half carries the bytes the library has
  taken so far, a receive half the bytes that are still to come before the end of the stream.
\<close>

record reliable_send_stream =
  rs_stream :: nat
  rs_written :: bytes
  rs_finished :: bool

record reliable_recv_stream =
  rr_pending :: bytes

text \<open>The send half right after the header, the receive half of an accepted stream.\<close>

definition reliable_send_new :: "nat \<times> bytes \<Rightarrow> reliable_send_stream" where
  "reliable_send_new opened = \<lparr>rs_stream = fst opened, rs_written = snd opened, rs_finished = False\<rparr>"

definition reliable_recv_new :: "incoming_bi_stream \<Rightarrow> reliable_recv_stream" where
  "reliable_recv_new st = \<lparr>rr_pending = is_recv st\<rparr>"

text \<open>A write that fails may have been taken in part: the error comes with the number of bytes.\<close>

definition stream_write_all :: "string \<times> nat + unit \<Rightarrow> bytes \<Rightarrow> reliable_send_stream \<Rightarrow> unit io_result \<times> reliable_send_stream" where
  "stream_write_all ans data s =
     (case ans of
        Inr _ \<Rightarrow> (Inr (), s\<lparr>rs_written := rs_written s @ data\<rparr>)
      | Inl (e, n) \<Rightarrow> (Inl (IoError Other (''write reliable stream: '' @ e)), s\<lparr>rs_written := rs_written s @ take n data\<rparr>))"

definition stream_finish :: "string + unit \<Rightarrow> reliable_send_stream \<Rightarrow> unit io_result \<times> reliable_send_stream" where
  "stream_finish ans s =
     (case ans of
        Inr _ \<Rightarrow> (Inr (), s\<lparr>rs_finished := True\<rparr>)
      | Inl e \<Rightarrow> (Inl (IoError Other (''finish reliable stream: '' @ e)), s))"

text \<open>A read returns the next bytes, as many as the library says, or the end of the stream.\<close>

definition stream_read :: "string + nat option \<Rightarrow> reliable_recv_stream \<Rightarrow> bytes option io_result \<times> reliable_recv_stream" where
  "stream_read ans r =
     (case ans of
        Inl e \<Rightarrow> (Inl (IoError Other (''read reliable stream: '' @ e)), r)
      | Inr None \<Rightarrow> (Inr None, r)
      | Inr (Some n) \<Rightarrow> (Inr (Some (take n (rr_pending r))), r\<lparr>rr_pending := drop n (rr_pending r)\<rparr>))"

definition stream_read_to_end :: "string + bytes \<Rightarrow> bytes io_result" where
  "stream_read_to_end ans =
     (case ans of
        Inl e \<Rightarrow> Inl (IoError Other (''read reliable stream to end: '' @ e))
      | Inr data \<Rightarrow> Inr data)"

section \<open>What the library documents\<close>

text \<open>
  A read fills at most the buffer and returns at least one byte unless the buffer is empty; the end is reported only when
  nothing is left. Reading to the end returns all that is left if it is within the limit and an error otherwise.
\<close>

fun read_answer_ok :: "nat \<Rightarrow> string + nat option \<Rightarrow> reliable_recv_stream \<Rightarrow> bool" where
  "read_answer_ok len (Inl e) r = True"
| "read_answer_ok len (Inr None) r = (rr_pending r = [])"
| "read_answer_ok len (Inr (Some n)) r = (n \<le> len \<and> n \<le> length (rr_pending r) \<and> (0 < n \<or> len = 0))"

definition read_to_end_ok :: "nat \<Rightarrow> string + bytes \<Rightarrow> reliable_recv_stream \<Rightarrow> bool" where
  "read_to_end_ok max_size ans r =
     (case ans of Inr data \<Rightarrow> data = rr_pending r \<and> length data \<le> max_size | Inl _ \<Rightarrow> True)"

section \<open>Sequences of calls\<close>

text \<open>The user of a send half stops at the first error.\<close>

fun write_chunks :: "(string \<times> nat + unit) list \<Rightarrow> bytes list \<Rightarrow> reliable_send_stream \<Rightarrow> unit io_result \<times> reliable_send_stream" where
  "write_chunks (ans # as) (c # cs) s =
     (case stream_write_all ans c s of (Inr _, s') \<Rightarrow> write_chunks as cs s' | (Inl e, s') \<Rightarrow> (Inl e, s'))"
| "write_chunks _ _ s = (Inr (), s)"

text \<open>Reads with the sizes of their buffers: the data returned, and whether the last of them reported the end.\<close>

fun run_reads :: "(nat \<times> (string + nat option)) list \<Rightarrow> reliable_recv_stream \<Rightarrow> bytes \<times> bool" where
  "run_reads [] r = ([], False)"
| "run_reads ((len, ans) # calls) r =
     (case stream_read ans r of
        (Inr (Some data), r') \<Rightarrow> (data @ fst (run_reads calls r'), snd (run_reads calls r'))
      | (Inr None, _) \<Rightarrow> ([], True)
      | (Inl _, _) \<Rightarrow> ([], False))"

fun reads_ok :: "(nat \<times> (string + nat option)) list \<Rightarrow> reliable_recv_stream \<Rightarrow> bool" where
  "reads_ok [] r = True"
| "reads_ok ((len, ans) # calls) r = (read_answer_ok len ans r \<and> reads_ok calls (snd (stream_read ans r)))"

lemma run_reads_prefix:
  assumes "reads_ok calls r"
  shows "\<exists>rest. rr_pending r = fst (run_reads calls r) @ rest \<and> (snd (run_reads calls r) \<longrightarrow> rest = [])"
  using assms
proof (induction calls arbitrary: r)
  case (Cons call calls)
  obtain len ans where c: "call = (len, ans)" by fastforce
  show ?case
  proof (cases "\<exists>n. ans = Inr (Some n)")
    case True
    then obtain n where n: "ans = Inr (Some n)" by blast
    let ?r = "r\<lparr>rr_pending := drop n (rr_pending r)\<rparr>"
    obtain rest where rest: "drop n (rr_pending r) = fst (run_reads calls ?r) @ rest" "snd (run_reads calls ?r) \<longrightarrow> rest = []"
      using Cons.IH [of ?r] Cons.prems by (auto simp: c n stream_read_def)
    then have "rr_pending r = take n (rr_pending r) @ fst (run_reads calls ?r) @ rest" by (metis append_take_drop_id)
    then show ?thesis using rest(2) by (auto simp: c n stream_read_def intro!: exI [of _ rest])
  next
    case False
    then show ?thesis using Cons.prems by (auto simp: c stream_read_def split: sum.split option.split)
  qed
qed simp

lemma write_chunks_all:
  assumes "length answers = length chunks" "write_chunks answers chunks s = (Inr (), s')"
  shows "rs_written s' = rs_written s @ concat chunks \<and> rs_stream s' = rs_stream s"
  using assms
proof (induction answers chunks arbitrary: s rule: list_induct2)
  case (Cons ans as c cs)
  then show ?case by (cases ans) (fastforce simp: stream_write_all_def)+
qed simp

lemma opened_header:
  assumes "open_bi env w1 w2 p a = (Done (i, header), a') \<or> open_bi_via env w1 w2 p k a = (Done (i, header), a')"
  shows "\<exists>w :: quinn. write_stream_frame env (qn_write w) (StreamUser (q_id a') p) = Inr header"
proof -
  have o: "\<exists>w :: quinn. write_stream_frame env (qn_write w) (StreamUser (q_id a') p) = Inr header"
    if "open_stream env w p c q = (Done (i, header), a')" for w c q
    using that by (cases "qn_open_bi w (cn_id c)") (auto simp: open_stream_def split: sum.splits)
  show ?thesis using assms
    by (auto simp: open_bi_def open_bi_via_def open_bi_once_def open_bi_via_once_def qbind_def intro: o
        split: prod.splits eff.splits)
qed

text \<open>Reads into buffers that are not empty come to the end, each with at least one byte.\<close>

lemma run_reads_end:
  assumes "reads_ok calls r" "list_all (\<lambda>(len, ans). 0 < len \<and> \<not> isl ans) calls" "length (rr_pending r) < length calls"
  shows "snd (run_reads calls r)"
  using assms
proof (induction calls arbitrary: r)
  case (Cons call calls)
  obtain len ans where c: "call = (len, Inr ans)" "0 < len" using Cons.prems(2) by (cases call) (auto simp: isl_def split: sum.splits, metis sumE)
  show ?case
  proof (cases ans)
    case (Some n)
    let ?r = "r\<lparr>rr_pending := drop n (rr_pending r)\<rparr>"
    have "snd (run_reads calls ?r)" using Cons.prems Some c(2) by (intro Cons.IH) (auto simp: c stream_read_def)
    then show ?thesis by (simp add: c Some stream_read_def)
  qed (simp add: c stream_read_def)
qed simp

text \<open>
  C12: A stream from end to end. One endpoint opens a stream to another, on its default connection or on a given route, writes any chunks and
  finishes; all writes succeed. The bytes arrive in order at the endpoint the stream was opened to, which knows the address of the connection and a route to the
  opener and has room in its queue. Then it queues a stream of the opener; whatever sequence of reads its user makes and however
  the library cuts the data, they return a prefix of the concatenated chunks, nothing of the header, all of it when
  the end is reported, and the end is reported after at most as many reads as there are bytes; reading to the end returns all of it or an error. The
  hypotheses on the library are that protobuf decodes what it encoded and the documented answers of reads.
\<close>

theorem reliable_stream_end_to_end:
  assumes "open_bi env w1 w2 (q_id b) a = (Done opened, a') \<or> open_bi_via env w1 w2 (q_id b) k a = (Done opened, a')"
    and "dec_stream (en_codec env) (enc_stream (en_codec env) (Some (pid_bytes (q_id a'), pid_bytes (q_id b))))
           = Some (Some (pid_bytes (q_id a'), pid_bytes (q_id b)))"
    and "peer_for_virtual_addr remote (q_sock b) \<noteq> None"
    and "node_route_metric_for (q_id a') (q_node b) = (Done km, n')"
    and "length (q_streams b) < 128"
    and "length answers = length chunks" and "write_chunks answers chunks (reliable_send_new opened) = (Inr (), s)"
    and "stream_finish ans s = (Inr (), s')"
  shows "\<exists>b' st. handle_incoming_stream env remote j (rs_written s') b = (Done (), b') \<and>
    q_streams b' = q_streams b @ [st] \<and> is_peer st = q_id a' \<and>
    (\<forall>calls. reads_ok calls (reliable_recv_new st) \<longrightarrow>
      (\<exists>rest. concat chunks = fst (run_reads calls (reliable_recv_new st)) @ rest \<and> (snd (run_reads calls (reliable_recv_new st)) \<longrightarrow> rest = [])) \<and>
      (list_all (\<lambda>(len, x). 0 < len \<and> \<not> isl x) calls \<and> length (concat chunks) < length calls \<longrightarrow> snd (run_reads calls (reliable_recv_new st)))) \<and>
    (\<forall>max_size x. read_to_end_ok max_size x (reliable_recv_new st) \<longrightarrow>
      (case stream_read_to_end x of Inr data \<Rightarrow> data = concat chunks \<and> length data \<le> max_size | Inl e \<Rightarrow> err_kind e = Other))"
proof -
  obtain i header where o: "opened = (i, header)" by fastforce
  obtain w :: quinn where h: "write_stream_frame env (qn_write w) (StreamUser (q_id a') (q_id b)) = Inr header"
    using opened_header assms(1) unfolding o by blast
  have "rs_written s' = header @ concat chunks"
    using write_chunks_all [OF assms(6,7)] assms(8) by (auto simp: o reliable_send_new_def stream_finish_def split: sum.splits)
  then obtain b' where b': "handle_incoming_stream env remote j (rs_written s') b = (Done (), b')"
    "q_streams b' = q_streams b @ [\<lparr>is_peer = q_id a', is_send = j, is_recv = concat chunks\<rparr>]"
    using header_accepted [OF h assms(2,3,4), of j "concat chunks"] assms(5) by (auto simp: STREAM_QUEUE_def)
  let ?st = "\<lparr>is_peer = q_id a', is_send = j, is_recv = concat chunks\<rparr>"
  have p: "rr_pending (reliable_recv_new ?st) = concat chunks" by (simp add: reliable_recv_new_def)
  have "case stream_read_to_end x of Inr data \<Rightarrow> data = concat chunks \<and> length data \<le> max_size | Inl e \<Rightarrow> err_kind e = Other"
    if "read_to_end_ok max_size x (reliable_recv_new ?st)" for max_size x
    using that p by (auto simp: stream_read_to_end_def read_to_end_ok_def split: sum.splits)
  then show ?thesis using b' run_reads_prefix [where r = "reliable_recv_new ?st"] run_reads_end [where r = "reliable_recv_new ?st"] p
    by (intro exI [of _ b'] exI [of _ ?st]) (simp add: conj_imp_eq_imp_imp)
qed

theorem reliable_stream_end_to_end_witness:
  "\<exists>opened a' s b' st. open_bi sample_codec_quic sample_world sample_world (PeerId [0x61]) sample_endpoint = (Done opened, a') \<and>
     write_chunks [Inr (), Inr ()] [[10, 20], [30]] (reliable_send_new opened) = (Inr (), s) \<and>
     handle_incoming_stream sample_codec_quic sample_addr 4 (rs_written s) sample_far = (Done (), b') \<and>
     q_streams b' = [st] \<and> is_peer st = PeerId [0x6d] \<and>
     run_reads [(2, Inr (Some 1)), (2, Inr (Some 2)), (2, Inr None)] (reliable_recv_new st) = ([10, 20, 30], True)"
proof -
  obtain q1 where c: "connection_to sample_world (PeerId [0x61]) sample_endpoint =
      (Done \<lparr>cn_id = 7, cn_addr = sample_addr\<rparr>, q1)" "q_id q1 = PeerId [0x6d]"
    by (rule sample_connected)
  obtain n' where m: "node_route_metric_for (PeerId [0x6d]) (q_node sample_far) = (Done (sample_key 2, 0), n')"
    by (rule sample_far_route)
  obtain opened a' where o: "open_bi sample_codec_quic sample_world sample_world (PeerId [0x61]) sample_endpoint = (Done opened, a')"
    and i: "q_id a' = PeerId [0x6d]"
    by (auto simp: open_bi_def open_bi_once_def qbind_def c open_stream_def write_stream_frame_def write_frame_def
        encode_stream_frame_def sample_codec_quic_def sample_codec_def MAX_STREAM_HEADER_def)
  obtain s where s: "write_chunks [Inr (), Inr ()] [[10, 20], [30]] (reliable_send_new opened) = (Inr (), s)"
    by (simp add: stream_write_all_def)
  have far: "q_id sample_far = PeerId [0x61]" "q_streams sample_far = []" by (simp_all add: sample_far_facts)
  have f: "stream_finish (Inr ()) s = (Inr (), s\<lparr>rs_finished := True\<rparr>)" by (simp add: stream_finish_def)
  have p: "dec_stream (en_codec sample_codec_quic) (enc_stream (en_codec sample_codec_quic) (Some (pid_bytes (q_id a'), pid_bytes (q_id sample_far))))
      = Some (Some (pid_bytes (q_id a'), pid_bytes (q_id sample_far)))" "peer_for_virtual_addr sample_addr (q_sock sample_far) \<noteq> None"
    "node_route_metric_for (q_id a') (q_node sample_far) = (Done (sample_key 2, 0), n')" "length (q_streams sample_far) < 128"
    using m i by (simp_all add: sample_far_facts sample_codec_quic_def)
  obtain b' st where b: "handle_incoming_stream sample_codec_quic sample_addr 4 (rs_written (s\<lparr>rs_finished := True\<rparr>)) sample_far = (Done (), b')"
    "q_streams b' = q_streams sample_far @ [st]" "is_peer st = q_id a'"
    and e: "\<forall>max_size x. read_to_end_ok max_size x (reliable_recv_new st) \<longrightarrow>
      (case stream_read_to_end x of Inr data \<Rightarrow> data = concat [[10, 20], [30]] \<and> length data \<le> max_size | Inl e \<Rightarrow> err_kind e = Other)"
    using reliable_stream_end_to_end [OF disjI1 [OF o [folded far(1)]] p _ s f] by (simp, blast)
  have "is_recv st = [10, 20, 30]"
    using e [rule_format, of "length (is_recv st)" "Inr (is_recv st)"] by (simp add: read_to_end_ok_def reliable_recv_new_def stream_read_to_end_def)
  then show ?thesis using o s b i by (auto simp: far reliable_recv_new_def stream_read_def)
qed

end
