(* ===== verification/Service.thy ===== *)
theory Service
  imports Socket_Pool
begin

text \<open>
  Socket set-up of \<open>rustp2p-core/src/socket/mod.rs\<close> as sequences of system calls, and the binding of the main UDP
  sockets and the TCP listeners in \<open>rustp2p-core/src/endpoint/service.rs\<close>. What the operating system answers to
  each call is an argument; a bound socket is the address it is bound to.
\<close>

section \<open>Socket set-up\<close>

datatype sock_call =
    NewSocket bool bool
  | SetUnicastIf local_interface bool
  | SetOnlyV6 bool
  | SetReuseAddress
  | SetReusePort
  | IgnoreConnReset
  | SetNonblocking
  | SetTtl u8
  | SetNodelay
  | BindTo socket_addr
  | Listen nat
  | ConnectTo socket_addr

text \<open>
  \<open>NewSocket\<close> takes whether the domain is IPv6 and whether the type is a stream. A call must succeed, or its error is ignored, or (a
  non-blocking connect) it may be in progress; \<open>Give\<close> is an error of the function itself.
\<close>

datatype setup_item = Must sock_call | Try sock_call | Pending sock_call | Give io_error

definition in_progress :: "bool \<Rightarrow> io_error \<Rightarrow> bool" where
  "in_progress unix e \<longleftrightarrow> err_kind e = WouldBlock \<or> unix \<and> err_kind e = OtherKind 115"

fun run_setup :: "bool \<Rightarrow> (sock_call \<Rightarrow> unit io_result) \<Rightarrow> setup_item list \<Rightarrow> sock_call list \<times> unit io_result" where
  "run_setup unix sys [] = ([], Inr ())"
| "run_setup unix sys (Give e # xs) = ([], Inl e)"
| "run_setup unix sys (Must c # xs) =
     (case sys c of
        Inl e \<Rightarrow> ([c], Inl e)
      | Inr _ \<Rightarrow> (case run_setup unix sys xs of (cs, r) \<Rightarrow> (c # cs, r)))"
| "run_setup unix sys (Try c # xs) = (case run_setup unix sys xs of (cs, r) \<Rightarrow> (c # cs, r))"
| "run_setup unix sys (Pending c # xs) =
     (case sys c of
        Inl e \<Rightarrow>
          if in_progress unix e then (case run_setup unix sys xs of (cs, r) \<Rightarrow> (c # cs, r)) else ([c], Inl e)
      | Inr _ \<Rightarrow> (case run_setup unix sys xs of (cs, r) \<Rightarrow> (c # cs, r)))"

definition use_interface :: "local_interface option \<Rightarrow> bool \<Rightarrow> setup_item list" where
  "use_interface i v6 = (case i of None \<Rightarrow> [] | Some x \<Rightarrow> [Must (SetUnicastIf x v6)])"

definition bind_udp_ops :: "bool \<Rightarrow> socket_addr \<Rightarrow> bool \<Rightarrow> local_interface option \<Rightarrow> setup_item list" where
  "bind_udp_ops unix addr only_v6 i =
     (if sa_is_ipv4 addr then [Must (NewSocket False False)] @ use_interface i False
      else [Must (NewSocket True False), Must (SetOnlyV6 only_v6)] @ use_interface i True)
     @ (if unix then [] else [Try IgnoreConnReset])
     @ [Must SetNonblocking, Must (BindTo addr)]"

definition bind_udp :: "bool \<Rightarrow> socket_addr \<Rightarrow> local_interface option \<Rightarrow> setup_item list" where
  "bind_udp unix addr i = bind_udp_ops unix addr True i"

definition bind_tcp_listener :: "bool \<Rightarrow> socket_addr \<Rightarrow> bool \<Rightarrow> local_interface option \<Rightarrow> setup_item list" where
  "bind_tcp_listener unix addr only_v6 i =
     (let v6 = \<not> sa_is_ipv4 addr in
      [Must (NewSocket v6 True)] @ (if v6 then [Must (SetOnlyV6 only_v6)] else []) @ use_interface i v6
      @ [Must SetReuseAddress] @ (if unix then [Try SetReusePort] else [])
      @ [Must SetNonblocking, Must (BindTo addr), Must (Listen 1024)])"

definition configure_accepted_tcp_stream ::
  "local_interface option \<Rightarrow> socket_addr io_result \<Rightarrow> setup_item list" where
  "configure_accepted_tcp_stream i peer =
     [Must SetNodelay] @
     (case i of
        None \<Rightarrow> []
      | Some x \<Rightarrow> (case peer of Inl e \<Rightarrow> [Give e] | Inr a \<Rightarrow> [Must (SetUnicastIf x (\<not> sa_is_ipv4 a))]))"

definition create_tcp0 ::
  "bool \<Rightarrow> socket_addr \<Rightarrow> socket_addr option \<Rightarrow> local_interface option \<Rightarrow> u8 option \<Rightarrow> setup_item list" where
  "create_tcp0 unix addr bind_addr i ttl =
     (let v4 = sa_is_ipv4 addr in
      [Must (NewSocket (\<not> v4) True)] @ use_interface i (\<not> v4)
      @ (case bind_addr of
           None \<Rightarrow> []
         | Some b \<Rightarrow>
             if sa_is_ipv4 b \<noteq> v4
             then [Give (IoError InvalidInput ''local TCP bind address family differs from remote address'')]
             else [Try SetReuseAddress] @ (if unix then [Try SetReusePort] else [])
                  @ (if v4 then [] else [Must (SetOnlyV6 True)]) @ [Must (BindTo b)])
      @ (case ttl of None \<Rightarrow> [] | Some t \<Rightarrow> [Try (SetTtl t)])
      @ [Must SetNonblocking, Must SetNodelay, Pending (ConnectTo addr)])"

text \<open>The wait for the socket (\<open>None\<close> after ten seconds), then the error the socket recorded.\<close>

definition connect_tcp ::
  "unit io_result \<Rightarrow> unit io_result option \<Rightarrow> io_error option io_result \<Rightarrow> unit io_result" where
  "connect_tcp created writable recorded =
     and_then created (\<lambda>_.
     and_then (case writable of None \<Rightarrow> Inl (IoError TimedOut ''TCP connect timed out'') | Some r \<Rightarrow> r) (\<lambda>_.
     and_then recorded (\<lambda>err. case err of Some e \<Rightarrow> Inl e | None \<Rightarrow> Inr ())))"

section \<open>Configuration\<close>

record endpoint_config =
  ec_stun_servers :: "string list"
  ec_udp_port :: "u16 option"
  ec_tcp_port :: "u16 option"
  ec_max_assistants :: nat
  ec_mapping_tcp :: "socket_addr list"
  ec_mapping_udp :: "socket_addr list"
  ec_interface :: "local_interface option"
  ec_bind_ipv4 :: "ipv4_addr option"
  ec_bind_ipv6 :: "ipv6_addr option"
  ec_enable_ipv6 :: bool
  ec_max_datagram :: nat

definition endpoint_config_default :: endpoint_config where
  "endpoint_config_default =
     \<lparr>ec_stun_servers = [], ec_udp_port = Some 0, ec_tcp_port = Some 0, ec_max_assistants = 0, ec_mapping_tcp = [],
      ec_mapping_udp = [], ec_interface = None, ec_bind_ipv4 = None, ec_bind_ipv6 = None, ec_enable_ipv6 = True,
      ec_max_datagram = 65536\<rparr>"

definition endpoint_config_udp :: "u16 \<Rightarrow> endpoint_config" where
  "endpoint_config_udp port = endpoint_config_default\<lparr>ec_udp_port := Some port, ec_tcp_port := None\<rparr>"

definition endpoint_config_tcp :: "u16 \<Rightarrow> endpoint_config" where
  "endpoint_config_tcp port = endpoint_config_default\<lparr>ec_udp_port := None, ec_tcp_port := Some port\<rparr>"

text \<open>The setters of the configuration; that of the codec is left out, since the codec is an argument of the tasks that use it.\<close>

definition with_udp_port :: "u16 \<Rightarrow> endpoint_config \<Rightarrow> endpoint_config" where
  "with_udp_port x cfg = cfg\<lparr>ec_udp_port := Some x\<rparr>"

definition with_tcp_port :: "u16 \<Rightarrow> endpoint_config \<Rightarrow> endpoint_config" where
  "with_tcp_port x cfg = cfg\<lparr>ec_tcp_port := Some x\<rparr>"

definition with_stun_servers :: "string list \<Rightarrow> endpoint_config \<Rightarrow> endpoint_config" where
  "with_stun_servers x cfg = cfg\<lparr>ec_stun_servers := x\<rparr>"

definition with_max_assistant_sockets :: "nat \<Rightarrow> endpoint_config \<Rightarrow> endpoint_config" where
  "with_max_assistant_sockets x cfg = cfg\<lparr>ec_max_assistants := x\<rparr>"

definition with_mapping_tcp_addr :: "socket_addr list \<Rightarrow> endpoint_config \<Rightarrow> endpoint_config" where
  "with_mapping_tcp_addr x cfg = cfg\<lparr>ec_mapping_tcp := x\<rparr>"

definition with_mapping_udp_addr :: "socket_addr list \<Rightarrow> endpoint_config \<Rightarrow> endpoint_config" where
  "with_mapping_udp_addr x cfg = cfg\<lparr>ec_mapping_udp := x\<rparr>"

definition with_default_interface :: "local_interface \<Rightarrow> endpoint_config \<Rightarrow> endpoint_config" where
  "with_default_interface x cfg = cfg\<lparr>ec_interface := Some x\<rparr>"

definition with_bind_ipv4 :: "ipv4_addr \<Rightarrow> endpoint_config \<Rightarrow> endpoint_config" where
  "with_bind_ipv4 x cfg = cfg\<lparr>ec_bind_ipv4 := Some x\<rparr>"

definition with_bind_ipv6 :: "ipv6_addr \<Rightarrow> endpoint_config \<Rightarrow> endpoint_config" where
  "with_bind_ipv6 x cfg = cfg\<lparr>ec_bind_ipv6 := Some x\<rparr>"

definition with_enable_ipv6 :: "bool \<Rightarrow> endpoint_config \<Rightarrow> endpoint_config" where
  "with_enable_ipv6 x cfg = cfg\<lparr>ec_enable_ipv6 := x\<rparr>"

definition with_max_udp_datagram_size :: "nat \<Rightarrow> endpoint_config \<Rightarrow> endpoint_config" where
  "with_max_udp_datagram_size x cfg = cfg\<lparr>ec_max_datagram := x\<rparr>"

lemmas with_defs = with_udp_port_def with_tcp_port_def with_stun_servers_def with_max_assistant_sockets_def with_mapping_tcp_addr_def with_mapping_udp_addr_def with_default_interface_def with_bind_ipv4_def with_bind_ipv6_def with_enable_ipv6_def with_max_udp_datagram_size_def

section \<open>Binding the UDP sockets\<close>

text \<open>
  The answer of the operating system to the \<open>i\<close>-th attempt of each kind: the local address of the new socket.
\<close>

record bind_os =
  bo_udp4 :: "nat \<Rightarrow> socket_addr \<Rightarrow> socket_addr io_result"
  bo_udp6 :: "nat \<Rightarrow> socket_addr \<Rightarrow> socket_addr io_result"
  bo_tcp4 :: "nat \<Rightarrow> socket_addr \<Rightarrow> socket_addr io_result"
  bo_tcp6 :: "nat \<Rightarrow> socket_addr \<Rightarrow> socket_addr io_result"

definition v4_addr :: "ipv4_addr option \<Rightarrow> u16 \<Rightarrow> socket_addr" where
  "v4_addr ip port = SockV4 (case ip of None \<Rightarrow> v4_unspecified | Some x \<Rightarrow> x) port"

definition v6_addr :: "ipv6_addr option \<Rightarrow> u16 \<Rightarrow> socket_addr" where
  "v6_addr ip port = SockV6 (case ip of None \<Rightarrow> v6_unspecified | Some x \<Rightarrow> x) port 0 0"

definition bind_v6_same_port ::
  "bind_os \<Rightarrow> socket_addr \<Rightarrow> socket_addr \<Rightarrow> bool \<Rightarrow> (socket_addr \<times> socket_addr option) io_result" where
  "bind_v6_same_port os main_v4 addr explicit =
     (case bo_udp6 os 0 addr of
        Inr main_v6 \<Rightarrow> Inr (main_v4, Some main_v6)
      | Inl e \<Rightarrow> if explicit then Inl e else Inr (main_v4, None))"

text \<open>The pairing loop with the attempts that are left; \<open>i\<close> counts the attempts made.\<close>

fun pair_udp ::
  "bind_os \<Rightarrow> ipv4_addr option \<Rightarrow> ipv6_addr option \<Rightarrow> nat \<Rightarrow> nat \<Rightarrow> socket_addr \<Rightarrow> (socket_addr \<times> socket_addr option) io_result" where
  "pair_udp os ip4 ip6 0 i main_v6 =
     and_then (bo_udp4 os i (v4_addr ip4 0)) (\<lambda>main_v4. Inr (main_v4, Some main_v6))"
| "pair_udp os ip4 ip6 (Suc left) i main_v6 =
     (case bo_udp4 os i (v4_addr ip4 (sa_port main_v6)) of
        Inr main_v4 \<Rightarrow> Inr (main_v4, Some main_v6)
      | Inl _ \<Rightarrow>
          and_then (bo_udp6 os (Suc i) (v6_addr ip6 0)) (\<lambda>main_v6'. pair_udp os ip4 ip6 left (Suc i) main_v6'))"

definition bind_main_udp ::
  "bind_os \<Rightarrow> u16 \<Rightarrow> bool \<Rightarrow> ipv4_addr option \<Rightarrow> ipv6_addr option \<Rightarrow> (socket_addr \<times> socket_addr option) io_result" where
  "bind_main_udp os port enable ip4 ip6 =
     (if \<not> enable then and_then (bo_udp4 os 0 (v4_addr ip4 port)) (\<lambda>main_v4. Inr (main_v4, None))
      else if port \<noteq> 0 then
        and_then (bo_udp4 os 0 (v4_addr ip4 port)) (\<lambda>main_v4.
          bind_v6_same_port os main_v4 (v6_addr ip6 port) (ip6 \<noteq> None))
      else
        (case bo_udp6 os 0 (v6_addr ip6 0) of
           Inr main_v6 \<Rightarrow> pair_udp os ip4 ip6 20 0 main_v6
         | Inl e \<Rightarrow>
             if ip6 = None then and_then (bo_udp4 os 0 (v4_addr ip4 0)) (\<lambda>main_v4. Inr (main_v4, None))
             else Inl e))"

section \<open>Binding the TCP listeners\<close>

definition is_tcp_port_conflict :: "io_error \<Rightarrow> bool" where
  "is_tcp_port_conflict e \<longleftrightarrow> err_kind e = AddrInUse"

definition bind_v4_with_fallback :: "(nat \<Rightarrow> u16 \<Rightarrow> socket_addr io_result) \<Rightarrow> u16 \<Rightarrow> u16 \<Rightarrow> socket_addr io_result" where
  "bind_v4_with_fallback bind preferred configured =
     (case bind 0 preferred of
        Inr l \<Rightarrow> Inr l
      | Inl e \<Rightarrow> if configured = 0 \<and> is_tcp_port_conflict e then bind 1 0 else Inl e)"

type_synonym tcp_pair = "socket_addr option \<times> socket_addr option"

text \<open>
  \<open>left\<close> is twenty less the attempts counted, and \<open>i\<close> numbers the calls. The port conflict is that of platforms other than
  Windows, and asking a bound socket for its address does not fail.
\<close>

fun pair_tcp ::
  "(nat \<Rightarrow> u16 \<Rightarrow> socket_addr io_result) \<Rightarrow> (nat \<Rightarrow> u16 \<Rightarrow> socket_addr io_result) \<Rightarrow> bool \<Rightarrow> nat \<Rightarrow> nat \<Rightarrow> tcp_pair io_result" where
  "pair_tcp bind_v4 bind_v6 explicit left i =
     and_then (bind_v4 (Suc i) 0) (\<lambda>v4.
       case bind_v6 i (sa_port v4) of
         Inr v6 \<Rightarrow> Inr (Some v4, Some v6)
       | Inl e \<Rightarrow>
           if \<not> is_tcp_port_conflict e then (if explicit then Inl e else Inr (Some v4, None))
           else (case left of
               0 \<Rightarrow> if explicit then Inl e else Inr (Some v4, None)
             | Suc left' \<Rightarrow> pair_tcp bind_v4 bind_v6 explicit left' (Suc i)))"

declare pair_tcp.simps [simp del]

definition bind_tcp_with ::
  "u16 \<Rightarrow> u16 \<Rightarrow> bool \<Rightarrow> bool \<Rightarrow> (nat \<Rightarrow> u16 \<Rightarrow> socket_addr io_result) \<Rightarrow> (nat \<Rightarrow> u16 \<Rightarrow> socket_addr io_result)
     \<Rightarrow> tcp_pair io_result" where
  "bind_tcp_with configured udp_port enable explicit bind_v4 bind_v6 =
     (let preferred = (if configured = 0 then udp_port else configured) in
      if \<not> enable then and_then (bind_v4_with_fallback bind_v4 preferred configured) (\<lambda>l. Inr (Some l, None))
      else
        and_then (bind_v4_with_fallback bind_v4 preferred configured) (\<lambda>v4.
          case bind_v6 0 (sa_port v4) of
            Inr v6 \<Rightarrow> Inr (Some v4, Some v6)
          | Inl e \<Rightarrow>
              if configured \<noteq> 0 \<or> \<not> is_tcp_port_conflict e then (if explicit then Inl e else Inr (Some v4, None))
              else pair_tcp bind_v4 bind_v6 explicit 19 1))"

definition bind_tcp ::
  "bind_os \<Rightarrow> u16 \<Rightarrow> u16 \<Rightarrow> bool \<Rightarrow> ipv4_addr option \<Rightarrow> ipv6_addr option \<Rightarrow> tcp_pair io_result" where
  "bind_tcp os configured udp_port enable ip4 ip6 =
     bind_tcp_with configured udp_port enable (ip6 \<noteq> None)
       (\<lambda>i port. bo_tcp4 os i (v4_addr ip4 port)) (\<lambda>i port. bo_tcp6 os i (v6_addr ip6 port))"

section \<open>The incoming source\<close>

record tunnel_incoming =
  ti_config :: endpoint_config
  ti_udp :: socket_addr
  ti_udp_ipv6 :: "socket_addr option"
  ti_tcp :: "socket_addr option"
  ti_tcp_ipv6 :: "socket_addr option"

definition tunnel_incoming_bind :: "bind_os \<Rightarrow> endpoint_config \<Rightarrow> tunnel_incoming io_result" where
  "tunnel_incoming_bind os cfg =
     and_then (bind_main_udp os (case ec_udp_port cfg of None \<Rightarrow> 0 | Some p \<Rightarrow> p) (ec_enable_ipv6 cfg) (ec_bind_ipv4 cfg)
                 (ec_bind_ipv6 cfg)) (\<lambda>(main_v4, main_v6).
     and_then (case ec_tcp_port cfg of
                 None \<Rightarrow> Inr (None, None)
               | Some p \<Rightarrow> bind_tcp os p (sa_port main_v4) (ec_enable_ipv6 cfg) (ec_bind_ipv4 cfg) (ec_bind_ipv6 cfg))
       (\<lambda>(tcp_v4, tcp_v6).
         Inr \<lparr>ti_config = cfg, ti_udp = main_v4, ti_udp_ipv6 = main_v6, ti_tcp = tcp_v4, ti_tcp_ipv6 = tcp_v6\<rparr>))"

definition incoming_puncher :: "u16 list \<Rightarrow> tunnel_incoming \<Rightarrow> puncher" where
  "incoming_puncher shuffled ti =
     (let cfg = ti_config ti in
      puncher_new shuffled
        \<lparr>nc_stun_servers = ec_stun_servers cfg, nc_mapping_tcp = ec_mapping_tcp cfg, nc_mapping_udp = ec_mapping_udp cfg,
         nc_bind_ipv4 = ec_bind_ipv4 cfg, nc_bind_ipv6 = ec_bind_ipv6 cfg, nc_enable_ipv6 = ec_enable_ipv6 cfg,
         nc_local_tcp_port = (case ti_tcp ti of None \<Rightarrow> 0 | Some a \<Rightarrow> sa_port a), nc_max_assistants = ec_max_assistants cfg\<rparr>)"

text \<open>
  The accept loop of a listener: a connection with the outcome of its set-up, the outcome of the codec and its local
  address; a failed accept, after which the loop sleeps; the shutdown signal. The result tells whether the
  task has ended (\<open>Some True\<close>), runs on (\<open>Some False\<close>) or waits on the full accept queue (\<open>None\<close>).
\<close>

datatype tcp_accept_event =
    TcpAccepted socket_addr "unit io_result" "unit io_result" "socket_addr io_result"
  | TcpAcceptFailed
  | TcpShutdown

fun tcp_accept_loop ::
  "tcp_accept_event list \<Rightarrow> (route_key \<times> bytes chan) chan \<Rightarrow> bool option \<times> (route_key \<times> bytes chan) chan" where
  "tcp_accept_loop [] accept = (Some False, accept)"
| "tcp_accept_loop (TcpShutdown # evs) accept = (Some True, accept)"
| "tcp_accept_loop (TcpAcceptFailed # evs) accept = tcp_accept_loop evs accept"
| "tcp_accept_loop (TcpAccepted peer setup codec local # evs) accept =
     (case setup of
        Inl _ \<Rightarrow> tcp_accept_loop evs accept
      | Inr _ \<Rightarrow>
          (case publish_tcp codec local peer None accept of
             (None, accept') \<Rightarrow> (None, accept')
           | (Some _, accept') \<Rightarrow> tcp_accept_loop evs accept'))"

section \<open>Set-up of sockets\<close>

text \<open>
  Whatever fails on the way, a socket that is set up successfully was restricted to the configured interface, and, if it is an
  IPv6 socket, separated from IPv4, before it was bound: this holds for the UDP sockets, for the TCP listeners and, with respect to
  the interface, for outgoing TCP connections, which are never made from an address of the other family.
\<close>

theorem socket_setup_order:
  assumes "run_setup unix sys (bind_udp unix addr i) = (calls, Inr ())"
    and "run_setup unix sys (bind_tcp_listener unix addr True i) = (calls', Inr ())"
    and "run_setup unix sys (create_tcp0 unix addr b i ttl) = (calls'', Inr ())"
  shows "(\<exists>pre. calls = pre @ [BindTo addr] \<and> set (use_interface i (\<not> sa_is_ipv4 addr)) \<subseteq> Must ` set pre \<and>
      (\<not> sa_is_ipv4 addr \<longrightarrow> SetOnlyV6 True \<in> set pre)) \<and>
    (\<exists>pre. calls' = pre @ [BindTo addr, Listen 1024] \<and> set (use_interface i (\<not> sa_is_ipv4 addr)) \<subseteq> Must ` set pre \<and>
      (\<not> sa_is_ipv4 addr \<longrightarrow> SetOnlyV6 True \<in> set pre)) \<and>
    (\<exists>pre. calls'' = pre @ [ConnectTo addr] \<and> set (use_interface i (\<not> sa_is_ipv4 addr)) \<subseteq> Must ` set pre \<and>
      (\<forall>a. b = Some a \<longrightarrow> sa_is_ipv4 a = sa_is_ipv4 addr \<and> BindTo a \<in> set pre))"
proof (intro conjI)
  show "\<exists>pre. calls = pre @ [BindTo addr] \<and> set (use_interface i (\<not> sa_is_ipv4 addr)) \<subseteq> Must ` set pre \<and>
      (\<not> sa_is_ipv4 addr \<longrightarrow> SetOnlyV6 True \<in> set pre)"
    using assms(1)
    by (cases i; cases "sa_is_ipv4 addr"; cases unix)
      (auto simp: bind_udp_def bind_udp_ops_def use_interface_def split: sum.splits)
  show "\<exists>pre. calls' = pre @ [BindTo addr, Listen 1024] \<and> set (use_interface i (\<not> sa_is_ipv4 addr)) \<subseteq> Must ` set pre \<and>
      (\<not> sa_is_ipv4 addr \<longrightarrow> SetOnlyV6 True \<in> set pre)"
    using assms(2)
    by (cases i; cases "sa_is_ipv4 addr"; cases unix)
      (auto simp: bind_tcp_listener_def use_interface_def split: sum.splits)
  show "\<exists>pre. calls'' = pre @ [ConnectTo addr] \<and> set (use_interface i (\<not> sa_is_ipv4 addr)) \<subseteq> Must ` set pre \<and>
      (\<forall>a. b = Some a \<longrightarrow> sa_is_ipv4 a = sa_is_ipv4 addr \<and> BindTo a \<in> set pre)"
    using assms(3)
    by (cases i; cases "sa_is_ipv4 addr"; cases b; cases ttl; cases unix)
      (auto simp: create_tcp0_def use_interface_def Let_def split: sum.splits if_splits)
qed

section \<open>Ports of the bound sockets\<close>

text \<open>What the operating system promises: a bound socket has the requested address and port; for port zero it picks one.\<close>

definition binds_as_asked :: "(nat \<Rightarrow> socket_addr \<Rightarrow> socket_addr io_result) \<Rightarrow> bool" where
  "binds_as_asked bind \<longleftrightarrow> (\<forall>i a l. bind i a = Inr l \<longrightarrow>
     sa_ip l = sa_ip a \<and> sa_port l \<noteq> 0 \<and> (sa_port a \<noteq> 0 \<longrightarrow> sa_port l = sa_port a))"

definition os_ok :: "bind_os \<Rightarrow> bool" where
  "os_ok os \<longleftrightarrow> binds_as_asked (bo_udp4 os) \<and> binds_as_asked (bo_udp6 os) \<and> binds_as_asked (bo_tcp4 os) \<and> binds_as_asked (bo_tcp6 os)"

lemma binds_as_askedD:
  assumes "binds_as_asked bind" "bind i a = Inr l"
  shows "sa_ip l = sa_ip a" "sa_port l \<noteq> 0" "sa_port a \<noteq> 0 \<Longrightarrow> sa_port l = sa_port a"
  using assms by (auto simp: binds_as_asked_def)

lemma addr_parts [simp]:
  "sa_port (v4_addr ip p) = p" "sa_port (v6_addr ip' p) = p"
  "sa_ip (v4_addr ip p) = IpV4 (case ip of None \<Rightarrow> v4_unspecified | Some x \<Rightarrow> x)"
  "sa_ip (v6_addr ip' p) = IpV6 (case ip' of None \<Rightarrow> v6_unspecified | Some x \<Rightarrow> x)"
  by (simp_all add: v4_addr_def v6_addr_def)

lemma pair_udp_ports:
  assumes "os_ok os" "pair_udp os ip4 ip6 left i main_v6 = Inr (u4, u6)"
    "sa_port main_v6 \<noteq> 0" "sa_ip main_v6 = sa_ip (v6_addr ip6 0)"
  shows "\<exists>a. u6 = Some a \<and> sa_ip u4 = sa_ip (v4_addr ip4 0) \<and> sa_ip a = sa_ip (v6_addr ip6 0) \<and> sa_port u4 \<noteq> 0 \<and>
    (sa_port a = sa_port u4 \<or> (\<forall>j \<in> {i..<i + left}. \<exists>p e. bo_udp4 os j (v4_addr ip4 p) = Inl e))"
  using assms
proof (induction left arbitrary: i main_v6)
  case 0
  then obtain a where a: "bo_udp4 os i (v4_addr ip4 0) = Inr a" "u4 = a" "u6 = Some main_v6" by (auto simp: and_then_Inr_iff)
  have ok: "binds_as_asked (bo_udp4 os)" using 0 by (simp add: os_ok_def)
  show ?case using binds_as_askedD [OF ok a(1)] a 0 by simp
next
  case (Suc left)
  have ok: "binds_as_asked (bo_udp4 os)" "binds_as_asked (bo_udp6 os)" using Suc.prems(1) by (simp_all add: os_ok_def)
  show ?case
  proof (cases "bo_udp4 os i (v4_addr ip4 (sa_port main_v6))")
    case (Inr a)
    then show ?thesis using Suc.prems binds_as_askedD [OF ok(1) Inr] by auto
  next
    case (Inl e)
    then obtain m where m: "bo_udp6 os (Suc i) (v6_addr ip6 0) = Inr m" "pair_udp os ip4 ip6 left (Suc i) m = Inr (u4, u6)"
      using Suc.prems(2) by (auto simp: and_then_Inr_iff)
    have b: "sa_port m \<noteq> 0" "sa_ip m = sa_ip (v6_addr ip6 0)" using binds_as_askedD [OF ok(2) m(1)] by simp_all
    have "{i..<i + Suc left} = insert i {Suc i..<Suc i + left}" by auto
    then show ?thesis using Suc.IH [OF Suc.prems(1) m(2) b] Inl by auto
  qed
qed

lemma bind_main_udp_ports:
  assumes "os_ok os" "bind_main_udp os port enable ip4 ip6 = Inr (u4, u6)"
  shows "sa_ip u4 = sa_ip (v4_addr ip4 0)" "sa_port u4 \<noteq> 0" "port \<noteq> 0 \<Longrightarrow> sa_port u4 = port"
    "u6 \<noteq> None \<Longrightarrow> enable \<and> sa_ip (the u6) = sa_ip (v6_addr ip6 0)" "enable \<Longrightarrow> ip6 \<noteq> None \<Longrightarrow> u6 \<noteq> None"
    "u6 \<noteq> None \<Longrightarrow> sa_port (the u6) \<noteq> sa_port u4 \<Longrightarrow>
      port = 0 \<and> (\<forall>j \<in> {0..<20}. \<exists>p e. bo_udp4 os j (v4_addr ip4 p) = Inl e)"
proof -
  have ok: "binds_as_asked (bo_udp4 os)" "binds_as_asked (bo_udp6 os)" using assms(1) by (simp_all add: os_ok_def)
  note d4 = binds_as_askedD [OF ok(1)] and d6 = binds_as_askedD [OF ok(2)]
  have "sa_ip u4 = sa_ip (v4_addr ip4 0) \<and> sa_port u4 \<noteq> 0 \<and> (port \<noteq> 0 \<longrightarrow> sa_port u4 = port) \<and>
    (u6 \<noteq> None \<longrightarrow> enable \<and> sa_ip (the u6) = sa_ip (v6_addr ip6 0)) \<and> (enable \<longrightarrow> ip6 \<noteq> None \<longrightarrow> u6 \<noteq> None) \<and>
    (u6 \<noteq> None \<longrightarrow> sa_port (the u6) \<noteq> sa_port u4 \<longrightarrow>
      port = 0 \<and> (\<forall>j \<in> {0..<20}. \<exists>p e. bo_udp4 os j (v4_addr ip4 p) = Inl e))"
  proof (cases "enable \<and> port = 0 \<and> (\<exists>m. bo_udp6 os 0 (v6_addr ip6 0) = Inr m)")
    case True
    then obtain m where m: "bo_udp6 os 0 (v6_addr ip6 0) = Inr m" "pair_udp os ip4 ip6 20 0 m = Inr (u4, u6)"
      using assms(2) by (auto simp: bind_main_udp_def)
    show ?thesis using pair_udp_ports [OF assms(1) m(2)] d6 [OF m(1)] True by auto
  next
    case False
    then have b: "bo_udp4 os 0 (v4_addr ip4 port) = Inr u4"
      using assms(2)
      by (cases "bo_udp6 os 0 (v6_addr ip6 port)")
        (auto simp: bind_main_udp_def bind_v6_same_port_def and_then_Inr_iff split: if_splits)
    show ?thesis
    proof (cases u6)
      case None
      have "\<not> (enable \<and> ip6 \<noteq> None)"
        using assms(2) None False
        by (cases "bo_udp6 os 0 (v6_addr ip6 port)")
          (auto simp: bind_main_udp_def bind_v6_same_port_def and_then_Inr_iff split: if_splits)
      then show ?thesis using None d4 [OF b] by auto
    next
      case (Some a)
      have c: "bo_udp6 os 0 (v6_addr ip6 port) = Inr a" "enable" "port \<noteq> 0"
        using assms(2) Some False
        by (cases "bo_udp6 os 0 (v6_addr ip6 port)";
            auto simp: bind_main_udp_def bind_v6_same_port_def and_then_Inr_iff split: if_splits)+
      show ?thesis using Some c d4 [OF b] d6 [OF c(1)] by auto
    qed
  qed
  then show "sa_ip u4 = sa_ip (v4_addr ip4 0)" "sa_port u4 \<noteq> 0" "port \<noteq> 0 \<Longrightarrow> sa_port u4 = port"
    "u6 \<noteq> None \<Longrightarrow> enable \<and> sa_ip (the u6) = sa_ip (v6_addr ip6 0)" "enable \<Longrightarrow> ip6 \<noteq> None \<Longrightarrow> u6 \<noteq> None"
    "u6 \<noteq> None \<Longrightarrow> sa_port (the u6) \<noteq> sa_port u4 \<Longrightarrow>
      port = 0 \<and> (\<forall>j \<in> {0..<20}. \<exists>p e. bo_udp4 os j (v4_addr ip4 p) = Inl e)"
    by blast+
qed

text \<open>The listeners of either family, bound to the requested address.\<close>

definition tcp_ok :: "u16 \<Rightarrow> bool \<Rightarrow> bool \<Rightarrow> tcp_pair \<Rightarrow> bool" where
  "tcp_ok configured enable explicit r \<longleftrightarrow> (\<exists>a. fst r = Some a \<and> sa_port a \<noteq> 0 \<and>
     (configured \<noteq> 0 \<longrightarrow> sa_port a = configured) \<and> (snd r \<noteq> None \<longrightarrow> enable \<and> sa_port (the (snd r)) = sa_port a) \<and>
     (enable \<longrightarrow> explicit \<longrightarrow> snd r \<noteq> None))"

definition port_bound :: "(nat \<Rightarrow> u16 \<Rightarrow> socket_addr io_result) \<Rightarrow> bool" where
  "port_bound bind \<longleftrightarrow> (\<forall>i p l. bind i p = Inr l \<longrightarrow> sa_port l \<noteq> 0 \<and> (p \<noteq> 0 \<longrightarrow> sa_port l = p))"

lemma pair_tcp_ok:
  assumes "port_bound b4" "port_bound b6" "pair_tcp b4 b6 explicit left i = Inr r"
  shows "tcp_ok 0 True explicit r"
  using assms(3)
proof (induction left arbitrary: i)
  case 0
  then obtain v4 where v: "b4 (Suc i) 0 = Inr v4" by (subst (asm) pair_tcp.simps) (auto simp: and_then_Inr_iff)
  have "sa_port v4 \<noteq> 0" using assms(1) v by (auto simp: port_bound_def)
  then show ?case using 0 assms(2) v
    by (subst (asm) pair_tcp.simps) (cases "b6 i (sa_port v4)"; auto simp: tcp_ok_def port_bound_def split: if_splits)
next
  case (Suc left)
  then obtain v4 where v: "b4 (Suc i) 0 = Inr v4" by (subst (asm) pair_tcp.simps) (auto simp: and_then_Inr_iff)
  have "sa_port v4 \<noteq> 0" using assms(1) v by (auto simp: port_bound_def)
  then show ?case using Suc.prems Suc.IH [of "Suc i"] assms(2) v
    by (subst (asm) pair_tcp.simps) (cases "b6 i (sa_port v4)"; auto simp: tcp_ok_def port_bound_def split: if_splits)
qed

lemma fallback_bound:
  assumes "port_bound b4" "bind_v4_with_fallback b4 (if configured = 0 then udp else configured) configured = Inr v4"
  shows "sa_port v4 \<noteq> 0" "configured \<noteq> 0 \<Longrightarrow> sa_port v4 = configured"
  using assms by (auto simp: bind_v4_with_fallback_def port_bound_def split: sum.splits if_splits)

lemma bind_tcp_with_ok:
  assumes "port_bound b4" "port_bound b6" "bind_tcp_with configured udp enable explicit b4 b6 = Inr r"
  shows "tcp_ok configured enable explicit r"
proof -
  obtain v4 where v: "bind_v4_with_fallback b4 (if configured = 0 then udp else configured) configured = Inr v4"
    using assms(3) by (auto simp: bind_tcp_with_def and_then_Inr_iff Let_def split: if_splits)
  note f = fallback_bound [OF assms(1) v]
  have s: "sa_port x = sa_port v4" if "b6 0 (sa_port v4) = Inr x" for x using that assms(2) f(1) by (auto simp: port_bound_def)
  show ?thesis
  proof (cases "enable \<and> configured = 0 \<and> (\<exists>e. b6 0 (sa_port v4) = Inl e \<and> is_tcp_port_conflict e)")
    case True
    then show ?thesis using assms(3) v pair_tcp_ok [OF assms(1,2), of explicit 19 1 r] by (auto simp: bind_tcp_with_def Let_def)
  next
    case False
    then show ?thesis using assms(3) v f s
      by (cases "b6 0 (sa_port v4)") (auto simp: bind_tcp_with_def Let_def tcp_ok_def split: if_splits)
  qed
qed

lemma port_bound_os:
  assumes "os_ok os"
  shows "port_bound (\<lambda>i p. bo_tcp4 os i (v4_addr ip4 p))" "port_bound (\<lambda>i p. bo_tcp6 os i (v6_addr ip6 p))"
  using assms by (auto simp: os_ok_def binds_as_asked_def port_bound_def)


text \<open>A system on which everything can be bound, except that the second listener is in use on port 5000.\<close>

definition sample_bind :: "u16 \<Rightarrow> nat \<Rightarrow> socket_addr \<Rightarrow> socket_addr io_result" where
  "sample_bind busy i a =
     (if sa_port a = busy then Inl (IoError AddrInUse [])
      else Inr (sa_new (sa_ip a) (if sa_port a = 0 then 5000 + of_nat (i mod 1000) else sa_port a)))"

definition sample_os :: bind_os where
  "sample_os = \<lparr>bo_udp4 = sample_bind 1, bo_udp6 = sample_bind 1, bo_tcp4 = sample_bind 1, bo_tcp6 = sample_bind 5000\<rparr>"

lemma sample_bind_ok: "busy \<noteq> 0 \<Longrightarrow> binds_as_asked (sample_bind busy)"
proof -
  have "5000 + of_nat (i mod 1000) \<noteq> (0 :: u16)" for i :: nat
  proof -
    have "i mod 1000 < 1000" by simp
    then have "unat (5000 + of_nat (i mod 1000) :: u16) = 5000 + i mod 1000"
      by (simp add: unat_word_ariths unat_of_nat)
    then show ?thesis by (metis add_is_0 unat_0 zero_neq_numeral)
  qed
  then show ?thesis by (auto simp: binds_as_asked_def sample_bind_def split: if_splits)
qed


text \<open>
  The comment of the listener loop allows twenty pairing attempts; the twenty-first is made as well, and its result used.
\<close>

theorem tcp_pairing_21_attempts:
  "bind_tcp_with 0 7 True explicit (\<lambda>i p. Inr (SockV4 v4_unspecified (if p = 0 then 9 else p)))
     (\<lambda>i p. if i < 20 then Inl (IoError AddrInUse []) else Inr (SockV6 v6_unspecified p 0 0))
   = Inr (Some (SockV4 v4_unspecified 9), Some (SockV6 v6_unspecified 9 0 0))"
proof -
  have "pair_tcp (\<lambda>i p. Inr (SockV4 v4_unspecified (if p = 0 then 9 else p)))
     (\<lambda>i p. if i < 20 then Inl (IoError AddrInUse []) else Inr (SockV6 v6_unspecified p 0 0)) explicit left (20 - left)
     = Inr (Some (SockV4 v4_unspecified 9), Some (SockV6 v6_unspecified 9 0 0))" if "left < 20" for left :: nat
    using that
  proof (induction left)
    case 0
    then show ?case by (simp add: pair_tcp.simps)
  next
    case (Suc left)
    then have "Suc (20 - Suc left) = 20 - left" by simp
    with Suc show ?case by (subst pair_tcp.simps) (simp add: is_tcp_port_conflict_def del: diff_Suc_Suc)
  qed
  from this [of 19] show ?thesis by (simp add: bind_tcp_with_def bind_v4_with_fallback_def is_tcp_port_conflict_def)
qed

text \<open>The accept loop publishes connections until shutdown: errors of single connections do not end it.\<close>

lemma tcp_accept_loop_ends:
  "fst (tcp_accept_loop evs accept) = Some True \<Longrightarrow> TcpShutdown \<in> set evs"
  by (induction evs accept rule: tcp_accept_loop.induct) (auto split: sum.splits prod.splits option.splits)

end
