(* ===== verification/Identity_Keys.thy ===== *)
theory Identity_Keys
  imports Addr_Text Packet
begin

text \<open>
  The identity of \<open>rustp2p-quic/src/identity.rs\<close>: an application-chosen peer id and key material derived from a
  seed. The hash function, the import of the key and the self-signed certificate belong to libraries and are arguments; the encoding of the
  private key is the repository's own and is checked against the structure of PKCS8 for Ed25519 keys.
\<close>

text \<open>The library calls; an error of theirs is the text it displays.\<close>

record crypto =
  cr_sha256 :: "bytes \<Rightarrow> bytes"
  cr_key_pair :: "bytes \<Rightarrow> string + unit"
  cr_params :: "bytes \<Rightarrow> string + unit"
  cr_self_signed :: "bytes \<Rightarrow> bytes \<Rightarrow> string + bytes"

record identity =
  id_peer :: peer_id
  id_seed_hash :: bytes
  id_cert :: bytes
  id_key :: bytes

definition ed25519_pkcs8_from_seed :: "bytes \<Rightarrow> bytes" where
  "ed25519_pkcs8_from_seed seed =
     [0x30, 0x2e, 0x02, 0x01, 0x00, 0x30, 0x05, 0x06, 0x03, 0x2b, 0x65, 0x70, 0x04, 0x22, 0x04, 0x20] @ seed"

definition identity_new :: "crypto \<Rightarrow> bytes \<Rightarrow> bytes \<Rightarrow> identity io_result" where
  "identity_new cr name seed =
     (let p = PeerId name in
      if is_unspecified p \<or> is_broadcast p then
        Inl (IoError InvalidInput ''peer id must be a non-empty non-broadcast string'')
      else
        (let seed_hash = cr_sha256 cr seed; key = ed25519_pkcs8_from_seed seed_hash in
         case cr_key_pair cr key of
           Inl e \<Rightarrow> Inl (IoError Other (''identity key: '' @ e))
         | Inr _ \<Rightarrow>
             (case cr_params cr name of
                Inl e \<Rightarrow> Inl (IoError Other (''certificate params: '' @ e))
              | Inr _ \<Rightarrow>
                  (case cr_self_signed cr name key of
                     Inl e \<Rightarrow> Inl (IoError Other (''certificate: '' @ e))
                   | Inr cert \<Rightarrow>
                       Inr \<lparr>id_peer = p, id_seed_hash = seed_hash, id_cert = cert, id_key = key\<rparr>))))"

text \<open>What the endpoint draws or calls when it makes an identity of its own: a random number for the name and a random seed.\<close>

record identity_world =
  iw_crypto :: crypto
  iw_name :: u64
  iw_seed :: bytes

definition node_name :: "bytes \<Rightarrow> bytes" where
  "node_name s = [0x6e, 0x6f, 0x64, 0x65, 0x2d] @ s"

definition fresh_identity :: "identity_world \<Rightarrow> identity io_result" where
  "fresh_identity iw = identity_new (iw_crypto iw) (node_name (show_dec (unat (iw_name iw)))) (iw_seed iw)"

section \<open>The structure of the key\<close>

text \<open>A DER element with a short length: its tag, its contents and what follows.\<close>

fun der_element :: "bytes \<Rightarrow> (u8 \<times> bytes \<times> bytes) option" where
  "der_element (tag # len # rest) =
     (if len < 0x80 \<and> unat len \<le> length rest then Some (tag, take (unat len) rest, drop (unat len) rest) else None)"
| "der_element _ = None"

text \<open>The contents of an element that has the given tag, and the rest.\<close>

definition der_expect :: "u8 \<Rightarrow> bytes \<Rightarrow> (bytes \<times> bytes) option" where
  "der_expect tag b = (case der_element b of Some (t, c, rest) \<Rightarrow> if t = tag then Some (c, rest) else None | None \<Rightarrow> None)"

text \<open>
  A private key of version zero with the algorithm 1.3.101.112 and no parameters or attributes, whose octets are again
  an octet string of 32 bytes.
\<close>

definition parse_ed25519_pkcs8 :: "bytes \<Rightarrow> bytes option" where
  "parse_ed25519_pkcs8 b =
     (case der_expect 0x30 b of
        Some (body, []) \<Rightarrow>
          (case der_expect 0x02 body of
             Some (version, r1) \<Rightarrow>
               (case der_expect 0x30 r1 of
                  Some (alg, r2) \<Rightarrow>
                    (case (der_expect 0x06 alg, der_expect 0x04 r2) of
                       (Some (oid, []), Some (key, [])) \<Rightarrow>
                         (case der_expect 0x04 key of
                            Some (seed, []) \<Rightarrow>
                              if version = [0] \<and> oid = [0x2b, 0x65, 0x70] \<and> length seed = 32 then Some seed else None
                          | _ \<Rightarrow> None)
                     | _ \<Rightarrow> None)
                | None \<Rightarrow> None)
           | None \<Rightarrow> None)
      | _ \<Rightarrow> None)"

lemma parse_encoded_key:
  assumes "length seed = 32"
  shows "parse_ed25519_pkcs8 (ed25519_pkcs8_from_seed seed) = Some seed"
  using assms by (simp add: parse_ed25519_pkcs8_def ed25519_pkcs8_from_seed_def der_expect_def)

text \<open>
  C36: Creating an identity. The empty id and the broadcast id are refused with \<open>InvalidInput\<close>, whatever the libraries do. Otherwise a
  result carries exactly the given id, independent of the seed, the hash of the seed, and a private key that is well-formed
  PKCS8 for Ed25519 with that hash as its key, so identities with the same seed have the same key and only those whose hashes agree do. The hypothesis is the
  length of SHA-256.
\<close>

theorem identity_new_spec:
  assumes "length (cr_sha256 cr seed) = 32"
  shows "case identity_new cr name seed of
      Inl e \<Rightarrow> (name = [] \<or> name = [0x2a]) = (err_kind e = InvalidInput)
    | Inr i \<Rightarrow> name \<noteq> [] \<and> name \<noteq> [0x2a] \<and> id_peer i = PeerId name \<and> id_seed_hash i = cr_sha256 cr seed \<and>
        parse_ed25519_pkcs8 (id_key i) = Some (cr_sha256 cr seed) \<and> length (id_key i) = 48"
  using parse_encoded_key [OF assms] assms
  by (auto simp: identity_new_def is_unspecified_def is_broadcast_def Let_def ed25519_pkcs8_from_seed_def split: sum.splits)

definition sample_crypto :: crypto where
  "sample_crypto = \<lparr>cr_sha256 = \<lambda>s. take 32 (s @ replicate 32 0), cr_key_pair = \<lambda>_. Inr (), cr_params = \<lambda>_. Inr (),
     cr_self_signed = \<lambda>n k. Inr (n @ k)\<rparr>"

definition sample_identity_world :: identity_world where
  "sample_identity_world = \<lparr>iw_crypto = sample_crypto, iw_name = 7, iw_seed = [1, 2]\<rparr>"

theorem identity_new_spec_witness:
  "\<exists>i. identity_new sample_crypto [0x61] [1, 2] = Inr i \<and> id_peer i = PeerId [0x61] \<and>
     parse_ed25519_pkcs8 (id_key i) = Some ([1, 2] @ replicate 30 0)"
proof -
  have l: "length (cr_sha256 sample_crypto [1, 2]) = 32" by (simp add: sample_crypto_def)
  have "\<exists>i. identity_new sample_crypto [0x61] [1, 2] = Inr i"
    by (simp add: identity_new_def sample_crypto_def is_unspecified_def is_broadcast_def Let_def)
  then obtain i where i: "identity_new sample_crypto [0x61] [1, 2] = Inr i" by blast
  show ?thesis using identity_new_spec [OF l, of "[0x61]"] i by (simp add: sample_crypto_def)
qed

end
