(* ===== verification/Certificates.thy ===== *)
theory Certificates
  imports P2P_Prelude
begin

text \<open>
  Certificate verification in \<open>rustp2p-quic/src/cert.rs\<close>: the interface that an application implements, the implementation that accepts
  everything, and the two adapters that the TLS library calls. The signature checks of the TLS library are arguments of the adapters.
\<close>

text \<open>
  What both methods of a verifier are given: the certificate of the peer, the intermediate certificates, for a server also its name and the
  stapled OCSP response, and the time. An error is the text it displays.
\<close>

record certificate_verifier =
  cv_server :: "bytes \<Rightarrow> bytes list \<Rightarrow> string \<Rightarrow> bytes \<Rightarrow> u64 \<Rightarrow> string + unit"
  cv_client :: "bytes \<Rightarrow> bytes list \<Rightarrow> u64 \<Rightarrow> string + unit"

text \<open>The provided method of the trait, used by verifiers that only implement the check of servers.\<close>

definition default_verify_client_cert :: "bytes \<Rightarrow> bytes list \<Rightarrow> u64 \<Rightarrow> string + unit" where
  "default_verify_client_cert end_entity intermediates now = Inr ()"

definition skip_certificate_verification :: certificate_verifier where
  "skip_certificate_verification =
     \<lparr>cv_server = \<lambda>end_entity intermediates server_name ocsp_response now. Inr (), cv_client = default_verify_client_cert\<rparr>"

text \<open>The signature checks and schemes of the provider of cryptography.\<close>

record 'scheme crypto_provider =
  cp_tls12 :: "bytes \<Rightarrow> bytes \<Rightarrow> 'scheme \<times> bytes \<Rightarrow> string + unit"
  cp_tls13 :: "bytes \<Rightarrow> bytes \<Rightarrow> 'scheme \<times> bytes \<Rightarrow> string + unit"
  cp_schemes :: "'scheme list"

text \<open>Either adapter is its verifier with the provider.\<close>

record 'scheme cert_adapter =
  ca_verifier :: certificate_verifier
  ca_provider :: "'scheme crypto_provider"

definition adapter_new :: "'scheme crypto_provider \<Rightarrow> certificate_verifier \<Rightarrow> 'scheme cert_adapter" where
  "adapter_new ring v = \<lparr>ca_verifier = v, ca_provider = ring\<rparr>"

text \<open>Proofs that the checks were made; only the adapters construct them.\<close>

datatype client_cert_verified = ClientCertVerified
datatype server_cert_verified = ServerCertVerified

definition offer_client_auth :: "'scheme cert_adapter \<Rightarrow> bool" where
  "offer_client_auth a = True"

definition client_auth_mandatory :: "'scheme cert_adapter \<Rightarrow> bool" where
  "client_auth_mandatory a = True"

definition root_hint_subjects :: "'scheme cert_adapter \<Rightarrow> bytes list" where
  "root_hint_subjects a = []"

definition adapter_verify_client_cert ::
  "'scheme cert_adapter \<Rightarrow> bytes \<Rightarrow> bytes list \<Rightarrow> u64 \<Rightarrow> string + client_cert_verified" where
  "adapter_verify_client_cert a end_entity intermediates now =
     (case cv_client (ca_verifier a) end_entity intermediates now of Inl e \<Rightarrow> Inl e | Inr _ \<Rightarrow> Inr ClientCertVerified)"

definition adapter_verify_server_cert ::
  "'scheme cert_adapter \<Rightarrow> bytes \<Rightarrow> bytes list \<Rightarrow> string \<Rightarrow> bytes \<Rightarrow> u64 \<Rightarrow> string + server_cert_verified" where
  "adapter_verify_server_cert a end_entity intermediates server_name ocsp_response now =
     (case cv_server (ca_verifier a) end_entity intermediates server_name ocsp_response now of
        Inl e \<Rightarrow> Inl e | Inr _ \<Rightarrow> Inr ServerCertVerified)"

definition adapter_verify_tls12_signature :: "'scheme cert_adapter \<Rightarrow> bytes \<Rightarrow> bytes \<Rightarrow> 'scheme \<times> bytes \<Rightarrow> string + unit" where
  "adapter_verify_tls12_signature a message cert dss = cp_tls12 (ca_provider a) message cert dss"

definition adapter_verify_tls13_signature :: "'scheme cert_adapter \<Rightarrow> bytes \<Rightarrow> bytes \<Rightarrow> 'scheme \<times> bytes \<Rightarrow> string + unit" where
  "adapter_verify_tls13_signature a message cert dss = cp_tls13 (ca_provider a) message cert dss"

definition adapter_supported_verify_schemes :: "'scheme cert_adapter \<Rightarrow> 'scheme list" where
  "adapter_supported_verify_schemes a = cp_schemes (ca_provider a)"

text \<open>
  A verifier that checks servers but does not override the check of clients lets every client in, although the server
  asks for a certificate and insists on one.
\<close>

lemma server_only_verifier_admits_clients:
  assumes "cv_client v = default_verify_client_cert"
  shows "client_auth_mandatory (adapter_new ring v) \<and> adapter_verify_client_cert (adapter_new ring v) cert chain now = Inr ClientCertVerified"
  using assms by (simp add: client_auth_mandatory_def adapter_verify_client_cert_def adapter_new_def default_verify_client_cert_def)

end
