(* ===== verification/Endpoint.thy ===== *)
theory Endpoint
  imports Quic_Props Service Identity_Keys Certificates
begin

text \<open>
  The public endpoint of \<open>rustp2p-quic/src/endpoint.rs\<close> and its configuration in \<open>config.rs\<close>: how an endpoint is put together from
  the sockets of the core, the transport layer, the protocol layer and the QUIC layer, broadcast, and closing. The
  remaining methods forward to the layer below under the same name. An endpoint is the state of its QUIC layer, which holds the protocol
  and transport layers.
\<close>

section \<open>Configuration\<close>

text \<open>Durations are in milliseconds. The ALPN protocols, the buffer sizes and the verifier go to the QUIC library.\<close>

record quic_config =
  qc_bind_addr :: socket_addr
  qc_stun_servers :: "string list"
  qc_stun_timeout :: nat
  qc_alpns :: "bytes list"
  qc_datagram_receive_buffer :: "nat option"
  qc_datagram_send_buffer :: nat
  qc_identity :: "identity option"
  qc_bootstrap :: "socket_addr list"
  qc_enable_tcp :: bool
  qc_tcp_port :: "u16 option"
  qc_mapping_udp :: "socket_addr list"
  qc_mapping_tcp :: "socket_addr list"
  qc_load_balance :: load_balance
  qc_punch_whitelist :: "peer_id list option"
  qc_nat_observers :: "peer_id list"
  qc_max_assistants :: nat
  qc_tunnel_idle_timeout :: nat
  qc_certificate_verifier :: certificate_verifier
  qc_max_ttl :: u8
  qc_high_level :: bool

definition quic_config_default :: quic_config where
  "quic_config_default =
     \<lparr>qc_bind_addr = SockV4 v4_unspecified 0, qc_stun_servers = [], qc_stun_timeout = 10000,
      qc_alpns = [[0x72, 0x75, 0x73, 0x74, 0x70, 0x32, 0x70, 0x2d, 0x71, 0x75, 0x69, 0x63]],
      qc_datagram_receive_buffer = Some (1024 * 1024), qc_datagram_send_buffer = 1024 * 1024,
      qc_identity = None, qc_bootstrap = [], qc_enable_tcp = True,
      qc_tcp_port = None, qc_mapping_udp = [], qc_mapping_tcp = [], qc_load_balance = MinHopLowestLatency,
      qc_punch_whitelist = None, qc_nat_observers = [], qc_max_assistants = 4,
      qc_tunnel_idle_timeout = 60000, qc_certificate_verifier = skip_certificate_verification, qc_max_ttl = 8, qc_high_level = False\<rparr>"

definition builder_new :: quic_config where
  "builder_new = quic_config_default\<lparr>qc_high_level := True\<rparr>"

definition builder_max_ttl :: "u8 \<Rightarrow> quic_config \<Rightarrow> quic_config" where
  "builder_max_ttl ttl cfg = cfg\<lparr>qc_max_ttl := max ttl 1\<rparr>"

definition builder_identity :: "identity \<Rightarrow> quic_config \<Rightarrow> quic_config" where
  "builder_identity x cfg = cfg\<lparr>qc_identity := Some x\<rparr>"

definition builder_bind :: "socket_addr \<Rightarrow> quic_config \<Rightarrow> quic_config" where
  "builder_bind x cfg = cfg\<lparr>qc_bind_addr := x\<rparr>"

definition builder_bootstrap :: "socket_addr list \<Rightarrow> quic_config \<Rightarrow> quic_config" where
  "builder_bootstrap x cfg = cfg\<lparr>qc_bootstrap := x\<rparr>"

definition builder_stun_servers :: "string list \<Rightarrow> quic_config \<Rightarrow> quic_config" where
  "builder_stun_servers x cfg = cfg\<lparr>qc_stun_servers := x\<rparr>"

definition builder_enable_tcp :: "bool \<Rightarrow> quic_config \<Rightarrow> quic_config" where
  "builder_enable_tcp x cfg = cfg\<lparr>qc_enable_tcp := x\<rparr>"

definition builder_tcp_port :: "u16 \<Rightarrow> quic_config \<Rightarrow> quic_config" where
  "builder_tcp_port x cfg = cfg\<lparr>qc_tcp_port := Some x\<rparr>"

definition builder_mapping_udp_addrs :: "socket_addr list \<Rightarrow> quic_config \<Rightarrow> quic_config" where
  "builder_mapping_udp_addrs x cfg = cfg\<lparr>qc_mapping_udp := x\<rparr>"

definition builder_mapping_tcp_addrs :: "socket_addr list \<Rightarrow> quic_config \<Rightarrow> quic_config" where
  "builder_mapping_tcp_addrs x cfg = cfg\<lparr>qc_mapping_tcp := x\<rparr>"

definition builder_load_balance :: "load_balance \<Rightarrow> quic_config \<Rightarrow> quic_config" where
  "builder_load_balance x cfg = cfg\<lparr>qc_load_balance := x\<rparr>"

definition builder_punch_whitelist :: "peer_id list option \<Rightarrow> quic_config \<Rightarrow> quic_config" where
  "builder_punch_whitelist x cfg = cfg\<lparr>qc_punch_whitelist := x\<rparr>"

definition builder_nat_observers :: "peer_id list \<Rightarrow> quic_config \<Rightarrow> quic_config" where
  "builder_nat_observers x cfg = cfg\<lparr>qc_nat_observers := x\<rparr>"

definition builder_max_assistant_sockets :: "nat \<Rightarrow> quic_config \<Rightarrow> quic_config" where
  "builder_max_assistant_sockets x cfg = cfg\<lparr>qc_max_assistants := x\<rparr>"

definition builder_tunnel_idle_timeout :: "nat \<Rightarrow> quic_config \<Rightarrow> quic_config" where
  "builder_tunnel_idle_timeout x cfg = cfg\<lparr>qc_tunnel_idle_timeout := x\<rparr>"

definition builder_certificate_verifier :: "certificate_verifier \<Rightarrow> quic_config \<Rightarrow> quic_config" where
  "builder_certificate_verifier x cfg = cfg\<lparr>qc_certificate_verifier := x\<rparr>"

section \<open>Binding\<close>

text \<open>The configuration of the core that \<open>CoreTransportLayer::bind\<close> derives.\<close>

definition core_config_of :: "quic_config \<Rightarrow> endpoint_config" where
  "core_config_of cfg =
     (let udp_port = sa_port (qc_bind_addr cfg);
          base = (if qc_enable_tcp cfg
                  then with_tcp_port (case qc_tcp_port cfg of None \<Rightarrow> udp_port | Some p \<Rightarrow> p)
                         (with_udp_port udp_port endpoint_config_default)
                  else endpoint_config_udp udp_port)
      in with_max_assistant_sockets (qc_max_assistants cfg)
           (with_mapping_tcp_addr (qc_mapping_tcp cfg)
             (with_mapping_udp_addr (qc_mapping_udp cfg)
               (with_stun_servers (qc_stun_servers cfg) base))))"

definition transport_layer_bind :: "bind_os \<Rightarrow> peer_id \<Rightarrow> quic_config \<Rightarrow> transport io_result" where
  "transport_layer_bind os p cfg =
     and_then (tunnel_incoming_bind os (core_config_of cfg)) (\<lambda>incoming.
       Inr (transport_bind p (qc_load_balance cfg) (qc_bind_addr cfg) (ti_udp incoming) (ti_tcp incoming)))"

definition initial_nat_info :: "quic_config \<Rightarrow> transport \<Rightarrow> nat_info" where
  "initial_nat_info cfg t =
     (let info = nat_info_default\<lparr>mapping_udp_addr := qc_mapping_udp cfg, mapping_tcp_addr := qc_mapping_tcp cfg,
            local_udp_ports := [sa_port (tr_local t)],
            local_tcp_port := (case tr_local_tcp t of None \<Rightarrow> 0 | Some a \<Rightarrow> sa_port a)\<rparr>
      in (case sa_ip (tr_local t) of IpV4 ip \<Rightarrow> info\<lparr>ni_local_ipv4 := ip\<rparr> | IpV6 _ \<Rightarrow> info))"

text \<open>
  The bootstrap addresses are contacted one after the other and the first failure ends the call. \<open>boot\<close> gives each attempt the clocks
  and what other tasks do while it waits; \<open>tls\<close> is the outcome of the calls that set up the TLS and QUIC libraries with the
  certificate and key of the identity, which come after the sockets are bound.
\<close>

type_synonym boot_world = "socket_addr \<Rightarrow> env \<times> (node \<Rightarrow> node) list \<times> env \<times> (node \<Rightarrow> node) list"

definition endpoint_add_bootstrap :: "boot_world \<Rightarrow> socket_addr \<Rightarrow> peer_id qact" where
  "endpoint_add_bootstrap boot addr =
     (case boot addr of (env1, others1, env2, others2) \<Rightarrow> on_node (add_bootstrap env1 others1 env2 others2 addr))"

fun bootstrap_all :: "boot_world \<Rightarrow> socket_addr list \<Rightarrow> unit qact" where
  "bootstrap_all boot [] = qret ()"
| "bootstrap_all boot (a # as) = qbind (endpoint_add_bootstrap boot a) (\<lambda>_. bootstrap_all boot as)"

definition endpoint_assemble :: "quic_config \<Rightarrow> peer_id \<Rightarrow> transport \<Rightarrow> quic" where
  "endpoint_assemble cfg p t =
     quic_bind p (protocol_new p t (qc_max_ttl cfg) (qc_punch_whitelist cfg) (qc_nat_observers cfg) (initial_nat_info cfg t))"

definition own_identity :: "identity_world \<Rightarrow> quic_config \<Rightarrow> identity io_result" where
  "own_identity iw cfg = (case qc_identity cfg of Some i \<Rightarrow> Inr i | None \<Rightarrow> fresh_identity iw)"

definition bind_with_config ::
  "bind_os \<Rightarrow> identity_world \<Rightarrow> (identity \<Rightarrow> unit io_result) \<Rightarrow> boot_world \<Rightarrow> quic_config \<Rightarrow> unit eff \<times> quic option" where
  "bind_with_config os iw tls boot cfg =
     (case own_identity iw cfg of
        Inl e \<Rightarrow> (Fail e, None)
      | Inr i \<Rightarrow>
          (case transport_layer_bind os (id_peer i) cfg of
             Inl e \<Rightarrow> (Fail e, None)
           | Inr t \<Rightarrow>
               (case tls i of
                  Inl e \<Rightarrow> (Fail e, None)
                | Inr _ \<Rightarrow>
                    (case bootstrap_all boot (qc_bootstrap cfg) (endpoint_assemble cfg (id_peer i) t) of (r, q) \<Rightarrow> (r, Some q)))))"

definition builder_build ::
  "bind_os \<Rightarrow> identity_world \<Rightarrow> (identity \<Rightarrow> unit io_result) \<Rightarrow> boot_world \<Rightarrow> quic_config \<Rightarrow> unit eff \<times> quic option" where
  "builder_build os iw tls boot cfg = bind_with_config os iw tls boot cfg"

text \<open>\<open>Endpoint::bind\<close>: the peer id is made from the text of the bind address; only the seed is random.\<close>

definition endpoint_bind ::
  "bind_os \<Rightarrow> identity_world \<Rightarrow> (identity \<Rightarrow> unit io_result) \<Rightarrow> boot_world \<Rightarrow> socket_addr \<Rightarrow> unit eff \<times> quic option" where
  "endpoint_bind os iw tls boot addr =
     (case identity_new (iw_crypto iw) (node_name (show_socket_addr addr)) (iw_seed iw) of
        Inl e \<Rightarrow> (Fail e, None)
      | Inr i \<Rightarrow> bind_with_config os iw tls boot
          (quic_config_default\<lparr>qc_bind_addr := addr, qc_high_level := True, qc_identity := Some i\<rparr>))"

section \<open>Operations\<close>

definition endpoint_known_peers :: "quic \<Rightarrow> peer_info list" where
  "endpoint_known_peers q = known_peers (pr_transport (q_node q))"

text \<open>Each send of a broadcast meets its own world; a failure is ignored.\<close>

fun broadcast_to :: "env \<Rightarrow> (peer_id \<Rightarrow> quinn) \<Rightarrow> bytes \<Rightarrow> peer_id list \<Rightarrow> unit qact" where
  "broadcast_to env w payload [] = qret ()"
| "broadcast_to env w payload (p # ps) =
     qbind (qlogged (quic_send_to env (w p) p payload)) (\<lambda>_. broadcast_to env w payload ps)"

definition broadcast :: "env \<Rightarrow> (peer_id \<Rightarrow> quinn) \<Rightarrow> bytes \<Rightarrow> unit qact" where
  "broadcast env w payload q =
     broadcast_to env w payload (filter (\<lambda>p. p \<noteq> q_id q) (map pi_id (endpoint_known_peers q))) q"

definition endpoint_close :: "quic \<Rightarrow> quic" where
  "endpoint_close q =
     quic_close (q\<lparr>q_node := (protocol_close (q_node q))\<lparr>pr_transport := transport_close (pr_transport (q_node q))\<rparr>\<rparr>)"

section \<open>Binding\<close>

lemma core_config_fields:
  "ec_bind_ipv4 (core_config_of cfg) = None" "ec_bind_ipv6 (core_config_of cfg) = None"
  "ec_udp_port (core_config_of cfg) = Some (sa_port (qc_bind_addr cfg))" "ec_enable_ipv6 (core_config_of cfg)"
  "ec_tcp_port (core_config_of cfg) = (if qc_enable_tcp cfg
     then Some (case qc_tcp_port cfg of None \<Rightarrow> sa_port (qc_bind_addr cfg) | Some p \<Rightarrow> p) else None)"
  by (simp_all add: core_config_of_def with_defs Let_def endpoint_config_udp_def endpoint_config_default_def)

lemma transport_layer_bind_parts:
  assumes "os_ok os" "transport_layer_bind os p cfg = Inr t"
  shows "sa_ip (tr_raw_local t) = IpV4 v4_unspecified" "tr_id t = p" "tr_local t = normalize_local_addr (tr_raw_local t) (qc_bind_addr cfg)"
    "sa_port (qc_bind_addr cfg) \<noteq> 0 \<Longrightarrow> sa_port (tr_raw_local t) = sa_port (qc_bind_addr cfg)"
    "tr_reachable (qc_load_balance cfg) t"
proof -
  obtain ti where ti: "tunnel_incoming_bind os (core_config_of cfg) = Inr ti"
    and t: "t = transport_bind p (qc_load_balance cfg) (qc_bind_addr cfg) (ti_udp ti) (ti_tcp ti)"
    using assms(2) by (auto simp: transport_layer_bind_def and_then_Inr_iff)
  obtain u6 where u: "bind_main_udp os (sa_port (qc_bind_addr cfg)) True None None = Inr (ti_udp ti, u6)"
    using ti by (auto simp: tunnel_incoming_bind_def core_config_fields and_then_Inr_iff)
  note U = bind_main_udp_ports [OF assms(1) u]
  show "sa_ip (tr_raw_local t) = IpV4 v4_unspecified" "tr_id t = p"
    "tr_local t = normalize_local_addr (tr_raw_local t) (qc_bind_addr cfg)"
    "sa_port (qc_bind_addr cfg) \<noteq> 0 \<Longrightarrow> sa_port (tr_raw_local t) = sa_port (qc_bind_addr cfg)"
    using U(1,3) by (simp_all add: t transport_bind_def)
  show "tr_reachable (qc_load_balance cfg) t" unfolding t by (rule tr_init)
qed

text \<open>
  The IP address of \<open>bind_addr\<close> is reported but not bound. Whatever address is configured, the sockets of a successful
  bind listen on all interfaces, because only the port is handed to the core; the endpoint, its NAT information and the address it advertises to other
  peers nevertheless show the configured IP address with the port of the socket.
\<close>

theorem bind_addr_ip_not_bound:
  assumes "os_ok os" and "\<not> ip_is_unspecified (sa_ip (qc_bind_addr cfg))" and "qc_bootstrap cfg = []"
    and "bind_with_config os iw tls boot cfg = (Done (), Some q)"
  shows "sa_ip (tr_raw_local (pr_transport (q_node q))) = IpV4 v4_unspecified \<and>
    sa_ip (tr_local (pr_transport (q_node q))) = sa_ip (qc_bind_addr cfg) \<and>
    sa_port (tr_local (pr_transport (q_node q))) = sa_port (tr_raw_local (pr_transport (q_node q))) \<and>
    advertised_ip (q_node q) = Some (sa_ip (qc_bind_addr cfg))"
proof -
  obtain t p where t: "transport_layer_bind os p cfg = Inr t" and q: "q = endpoint_assemble cfg p t"
    using assms(3,4) by (auto simp: bind_with_config_def qret_def split: sum.splits prod.splits)
  note T = transport_layer_bind_parts [OF assms(1) t]
  have "ip_is_unspecified (sa_ip (tr_raw_local t))" by (simp add: T(1) v4_is_unspecified_def)
  then have "tr_local t = sa_new (sa_ip (qc_bind_addr cfg)) (sa_port (tr_raw_local t))"
    using assms(2) by (simp add: T(3) normalize_local_addr_def)
  then show ?thesis using T(1) assms(2)
    by (simp add: q endpoint_assemble_def quic_bind_def protocol_new_def advertised_ip_def Let_def)
qed

lemma assembled_ok:
  assumes "transport_layer_bind os p cfg = Inr t"
  defines "q \<equiv> endpoint_assemble cfg p t"
  shows "q_inv q \<and> node_reachable (qc_load_balance cfg) (q_node q) \<and> q_id q = p \<and> pr_id (q_node q) = p \<and>
    unat (pr_max_ttl (q_node q)) = max (unat (qc_max_ttl cfg)) 1 \<and>
    pr_whitelist (q_node q) = map_option set (qc_punch_whitelist cfg) \<and> q_conns q = [] \<and> q_accepting q \<and> q_pumping q"
proof -
  obtain ti :: tunnel_incoming where t: "t = transport_bind p (qc_load_balance cfg) (qc_bind_addr cfg) (ti_udp ti) (ti_tcp ti)"
    using assms(1) by (auto simp: transport_layer_bind_def and_then_Inr_iff)
  have "node_reachable (qc_load_balance cfg) (q_node q)"
    by (simp add: q_def endpoint_assemble_def quic_bind_def t node_init)
  moreover have "unat (max ttl 1) = max (unat ttl) 1" for ttl :: u8 by (simp add: max_def word_le_nat_alt)
  moreover have "q_inv q" by (simp add: q_def endpoint_assemble_def q_inv_bind)
  ultimately show ?thesis by simp (simp add: q_def endpoint_assemble_def quic_bind_def protocol_new_def)
qed

lemma show_socket_addr_eq_iff:
  "show_socket_addr a = show_socket_addr b \<longleftrightarrow> without_flowinfo a = without_flowinfo b"
proof
  assume "show_socket_addr a = show_socket_addr b"
  then show "without_flowinfo a = without_flowinfo b"
    using socket_addr_text_roundtrip [of a] socket_addr_text_roundtrip [of b] by simp
next
  have shown: "show_socket_addr (without_flowinfo x) = show_socket_addr x" for x by (cases x) simp_all
  assume "without_flowinfo a = without_flowinfo b"
  then show "show_socket_addr a = show_socket_addr b" using shown [of a] shown [of b] by simp
qed

lemma endpoint_bind_id:
  assumes "endpoint_bind os iw tls boot addr = (Done (), Some q)"
  shows "q_id q = PeerId (node_name (show_socket_addr addr))"
proof -
  let ?n = "node_name (show_socket_addr addr)"
  obtain i where i: "identity_new (iw_crypto iw) ?n (iw_seed iw) = Inr i"
    using assms by (auto simp: endpoint_bind_def split: sum.splits)
  have p: "id_peer i = PeerId ?n" using i by (auto simp: identity_new_def Let_def split: if_splits sum.splits)
  show ?thesis
    using assms i p
    by (auto simp: endpoint_bind_def bind_with_config_def own_identity_def quic_config_default_def endpoint_assemble_def quic_bind_def
        qret_def split: sum.splits)
qed

text \<open>
  C39: The peer id of \<open>Endpoint::bind\<close> is a function of the bind address alone. Two endpoints bound through it, on any hosts and with any
  random seeds, have the same peer id exactly if they were given the same address up to the IPv6 flow label, for example both the
  unspecified address with port zero.
\<close>

theorem endpoint_bind_peer_id:
  assumes "endpoint_bind os1 iw1 tls1 boot1 a1 = (Done (), Some q1)" "endpoint_bind os2 iw2 tls2 boot2 a2 = (Done (), Some q2)"
  shows "q_id q1 = q_id q2 \<longleftrightarrow> without_flowinfo a1 = without_flowinfo a2"
  using endpoint_bind_id [OF assms(1)] endpoint_bind_id [OF assms(2)]
  by (simp add: node_name_def show_socket_addr_eq_iff)

text \<open>
  C34: An endpoint without bootstrap addresses starts in a good state: it has the peer id of the configured identity or of the fresh one, its
  protocol layer is in an initial state (so all invariants of reachable nodes hold), a TTL of at least one also for a
  configured zero, the configured whitelist, no connection, and running accept and transport loops, and its QUIC layer satisfies its invariant. Binding fails only if
  there is no identity, the sockets cannot be bound or the libraries refuse the key material, with the error of the first of these.
\<close>

theorem endpoint_bind_ok:
  assumes "qc_bootstrap cfg = []"
  shows "case bind_with_config os iw tls boot cfg of
      (Done _, Some q) \<Rightarrow> q_inv q \<and> node_reachable (qc_load_balance cfg) (q_node q) \<and>
        q_id q = pr_id (q_node q) \<and> map_sum id id_peer (own_identity iw cfg) = Inr (q_id q) \<and>
        unat (pr_max_ttl (q_node q)) = max (unat (qc_max_ttl cfg)) 1 \<and>
        pr_whitelist (q_node q) = map_option set (qc_punch_whitelist cfg) \<and> q_conns q = [] \<and> q_accepting q \<and> q_pumping q
    | (Fail e, None) \<Rightarrow> and_then (own_identity iw cfg) (\<lambda>i. and_then (tunnel_incoming_bind os (core_config_of cfg)) (\<lambda>_. tls i)) = Inl e
    | _ \<Rightarrow> False"
proof (cases "own_identity iw cfg")
  case (Inl e)
  then show ?thesis by (simp add: bind_with_config_def)
next
  case i: (Inr i)
  show ?thesis
  proof (cases "transport_layer_bind os (id_peer i) cfg")
    case (Inl e)
    then show ?thesis
      using i by (cases "tunnel_incoming_bind os (core_config_of cfg)") (simp_all add: bind_with_config_def transport_layer_bind_def)
  next
    case t: (Inr t)
    show ?thesis
    proof (cases "tls i")
      case (Inl e)
      then show ?thesis
        using i t by (cases "tunnel_incoming_bind os (core_config_of cfg)") (simp_all add: bind_with_config_def transport_layer_bind_def)
    next
      case (Inr _)
      then have "bind_with_config os iw tls boot cfg = (Done (), Some (endpoint_assemble cfg (id_peer i) t))"
        using i t assms by (simp add: bind_with_config_def qret_def)
      then show ?thesis using assembled_ok [OF t] i by simp
    qed
  qed
qed

section \<open>Closing\<close>

lemma closed_last:
  fixes t :: transport
  shows "t\<lparr>tr_closed := b, tr_tunnels := tn\<rparr> = t\<lparr>tr_tunnels := tn, tr_closed := b\<rparr>"
    "t\<lparr>tr_closed := b, tr_routes := rt\<rparr> = t\<lparr>tr_routes := rt, tr_closed := b\<rparr>"
    "t\<lparr>tr_closed := b, tr_outbound := ob\<rparr> = t\<lparr>tr_outbound := ob, tr_closed := b\<rparr>"
    "t\<lparr>tr_closed := b, tr_out := ou\<rparr> = t\<lparr>tr_out := ou, tr_closed := b\<rparr>"
  by (cases t; simp)+

lemma core_send_closed:
  "core_send_one env x (t\<lparr>tr_closed := b\<rparr>) = (core_send_one env x t)\<lparr>tr_closed := b\<rparr>"
proof -
  have raw: "send_raw_to_addr env d a (t\<lparr>tr_closed := b\<rparr>) = (fst (send_raw_to_addr env d a t), (snd (send_raw_to_addr env d a t))\<lparr>tr_closed := b\<rparr>)"
    for d a t by (simp add: send_raw_to_addr_def closed_last split: sum.splits)
  have r: "send_to_route env k d (t\<lparr>tr_closed := b\<rparr>) = (fst (send_to_route env k d t), (snd (send_to_route env k d t))\<lparr>tr_closed := b\<rparr>)"
    for k d t
    by (simp add: send_to_route_def Let_def raw closed_last split: option.splits)
  show ?thesis
    by (cases x) (auto simp: r send_packet_to_peer_def closed_last split: prod.splits sum.splits)
qed

definition closed_node :: "quic \<Rightarrow> node" where
  "closed_node q = q_node (endpoint_close q)"

text \<open>
  C38: What closing an endpoint stops. The packet dispatcher, the accept loop and the transport loop end at their next turn, and the
  observation, maintenance and heartbeat loops do nothing any more. The sender of the transport layer
  and the STUN loop do not notice: they send queued packets and rewrite the NAT information exactly as before.
\<close>

theorem endpoint_close_stops:
  "dispatcher_turn env received (closed_node q) = None \<and>
    observe_tick env (closed_node q) = (Done (), closed_node q) \<and> maintenance_tick env (closed_node q) = (Done (), closed_node q) \<and>
    heartbeat_tick env (closed_node q) = (Done (), closed_node q) \<and>
    \<not> q_pumping (snd (transport_loop_turn w (endpoint_close q))) \<and> \<not> q_accepting (accept_loop_turn inc (endpoint_close q)) \<and>
    core_sender_step env (pr_transport (closed_node q)) = (core_sender_step env (pr_transport (q_node q)))\<lparr>tr_closed := True\<rparr> \<and>
    pr_nat (snd (stun_tick r (closed_node q))) = pr_nat (snd (stun_tick r (q_node q)))"
proof -
  have c: "pr_closed (closed_node q)" "q_closed (endpoint_close q)" "pr_transport (closed_node q) = (pr_transport (q_node q))\<lparr>tr_closed := True\<rparr>"
    "pr_nat (closed_node q) = pr_nat (q_node q)"
    by (simp_all add: closed_node_def endpoint_close_def quic_close_def protocol_close_def transport_close_def)
  have "core_sender_step env (t\<lparr>tr_closed := True\<rparr>) = (core_sender_step env t)\<lparr>tr_closed := True\<rparr>" for t
    by (simp add: core_sender_step_def closed_last core_send_closed split: list.splits)
  moreover have "pr_nat (snd (stun_tick r (closed_node q))) = pr_nat (snd (stun_tick r (q_node q)))"
    by (cases r) (simp_all add: stun_tick_def ret_def upd_def c)
  moreover have "\<not> q_accepting (accept_loop_turn inc (endpoint_close q))"
    by (auto simp: accept_loop_turn_def c split: option.splits)
  ultimately show ?thesis
    by (simp add: c dispatcher_turn_def observe_tick_def maintenance_tick_def heartbeat_tick_def transport_loop_turn_def)
qed

section \<open>Broadcast\<close>

text \<open>What one send leaves in the queue of the QUIC library: copies of the datagram on one connection.\<close>

definition copies :: "bytes \<Rightarrow> (nat \<times> bytes) list \<Rightarrow> bool" where
  "copies data xs \<longleftrightarrow> (\<exists>c n. xs = replicate n (c, data) \<and> n \<le> 5)"

lemma send_copies_prefix:
  "send_copies w c data is q = (r, q') \<Longrightarrow>
   r \<noteq> Stuck \<and> q_id q' = q_id q \<and> (\<exists>n \<le> length is. q_sent q' = q_sent q @ replicate n (cn_id c, data) \<and> (r = Done () \<longrightarrow> n = length is))"
proof (induction "is" arbitrary: q)
  case (Cons i "is")
  show ?case
  proof (cases "qn_datagram w i")
    case (Inr u)
    define q1 where "q1 = q\<lparr>q_sent := q_sent q @ [(cn_id c, data)]\<rparr>"
    have "send_copies w c data is q1 = (r, q')" using Cons.prems Inr by (simp add: qbind_def send_datagram_def q1_def)
    from Cons.IH [OF this] obtain n where n: "r \<noteq> Stuck" "q_id q' = q_id q1" "n \<le> length is"
      "q_sent q' = q_sent q1 @ replicate n (cn_id c, data)" "r = Done () \<longrightarrow> n = length is" by auto
    then show ?thesis by (auto simp: q1_def intro!: exI [of _ "Suc n"])
  qed (use Cons.prems in \<open>auto simp: qbind_def send_datagram_def\<close>)
qed (auto simp: qret_def)

lemma connection_to_sent:
  assumes "qn_meanwhile w = (\<lambda>x. x)" "connection_to w p q = (r, q')"
  shows "q_sent q' = q_sent q" "q_id q' = q_id q"
proof -
  have at: "q_sent (snd (connection_to_at w p a x)) = q_sent x \<and> q_id (snd (connection_to_at w p a x)) = q_id x" for a x
    using assms(1) by (auto simp: connection_to_at_def start_connection_tasks_def upd_sock_def Let_def split: option.splits sum.splits)
  have reg: "q_sent (snd (qregister w p x)) = q_sent x \<and> q_id (snd (qregister w p x)) = q_id x" for x
    by (auto simp: qregister_def split: option.splits)
  have nd: "q_sent (snd (on_node m x)) = q_sent x \<and> q_id (snd (on_node m x)) = q_id x" for m :: "unit act" and x
    by (simp add: on_node_def split: prod.splits)
  have b: "q_sent (snd (qbind m f x)) = q_sent x \<and> q_id (snd (qbind m f x)) = q_id x"
    if "\<And>x. q_sent (snd (m x)) = q_sent x \<and> q_id (snd (m x)) = q_id x" "\<And>y x. q_sent (snd (f y x)) = q_sent x \<and> q_id (snd (f y x)) = q_id x"
    for m :: "'a qact" and f :: "'a \<Rightarrow> 'b qact" and x
    using that(1) [of x] that(2) by (auto simp: qbind_def split: prod.splits eff.splits)
  have "q_sent (snd (connection_to w p q)) = q_sent q \<and> q_id (snd (connection_to w p q)) = q_id q"
    unfolding connection_to_def by (intro b nd reg at)
  then show "q_sent q' = q_sent q" "q_id q' = q_id q" using assms(2) by simp_all
qed

lemma quic_send_to_sent:
  assumes "qn_meanwhile w = (\<lambda>x. x)" "quic_send_to env w p payload q = (r, q')"
  shows "q_id q' = q_id q \<and> (\<exists>xs. q_sent q' = q_sent q @ xs \<and> copies (user_datagram env w q p payload) xs \<and> (r = Done () \<longrightarrow> length xs = 5))"
proof -
  obtain r1 q1 where 1: "connection_to w p q = (r1, q1)" by fastforce
  note c = connection_to_sent [OF assms(1) 1]
  have u: "user_datagram env w q1 p payload = user_datagram env w q p payload" by (simp add: user_datagram_def c)
  show ?thesis
  proof (cases r1)
    case (Done cn)
    then have "send_copies w cn (user_datagram env w q p payload) [0..<5] q1 = (r, q')"
      using assms(2) 1 u by (simp add: quic_send_to_def qbind_def)
    from send_copies_prefix [OF this] c show ?thesis by (auto simp: copies_def)
  qed (use assms(2) 1 c in \<open>auto simp: quic_send_to_def qbind_def copies_def\<close>)
qed

text \<open>The run of a broadcast: one send after the other, whatever the outcome of each.\<close>

fun sends_to_all :: "env \<Rightarrow> (peer_id \<Rightarrow> quinn) \<Rightarrow> bytes \<Rightarrow> peer_id list \<Rightarrow> quic \<Rightarrow> quic \<Rightarrow> bool" where
  "sends_to_all env w payload [] q q' \<longleftrightarrow> q' = q"
| "sends_to_all env w payload (p # ps) q q' \<longleftrightarrow> (\<exists>r q1 xs. quic_send_to env (w p) p payload q = (r, q1) \<and> r \<noteq> Stuck \<and>
     q_sent q1 = q_sent q @ xs \<and> copies (user_datagram env (w p) q p payload) xs \<and> (r = Done () \<longrightarrow> length xs = 5) \<and>
     sends_to_all env w payload ps q1 q')"

lemma broadcast_to_run:
  assumes "\<And>p. qn_meanwhile (w p) = (\<lambda>x. x)" "broadcast_to env w payload ps q = (r, q')"
  shows "r = Stuck \<or> r = Done () \<and> sends_to_all env w payload ps q q'"
  using assms(2)
proof (induction ps arbitrary: q)
  case (Cons p ps)
  obtain r1 q1 where 1: "quic_send_to env (w p) p payload q = (r1, q1)" by fastforce
  show ?case
  proof (cases "r1 = Stuck")
    case True
    then show ?thesis using Cons.prems 1 by (simp add: qbind_def qlogged_def)
  next
    case False
    then have "broadcast_to env w payload ps q1 = (r, q')" using Cons.prems 1 by (cases r1) (simp_all add: qbind_def qlogged_def)
    from Cons.IH [OF this] quic_send_to_sent [OF assms(1) 1] show ?thesis using 1 False by auto
  qed
qed (simp add: qret_def)

text \<open>
  C37: A broadcast sends to every known peer but the node itself, in turn, and the failure of one send does not stop the rest: the
  call never returns an error, and for each peer the library is handed copies of one datagram for that peer on one connection, five if the send
  to it succeeded and at most as many otherwise.
\<close>

theorem broadcast_sends_to_all:
  assumes "\<forall>p. qn_meanwhile (w p) = (\<lambda>x. x)" and "broadcast env w payload q = (r, q')"
  shows "r = Stuck \<or> r = Done () \<and>
    sends_to_all env w payload (filter (\<lambda>p. p \<noteq> q_id q) (map pi_id (known_peers (pr_transport (q_node q))))) q q'"
  using broadcast_to_run [of w env payload _ q r q'] assms unfolding broadcast_def endpoint_known_peers_def by blast

text \<open>
  No message is ever marked as the result of a broadcast.
\<close>

theorem messages_never_marked_broadcast:
  assumes "handle_incoming_datagram env remote data q = (r, q')"
  shows "\<exists>ms. q_inbox q' = q_inbox q @ ms \<and> list_all (\<lambda>m. \<not> rm_is_broadcast m) ms"
  using assms
  by (auto simp: handle_incoming_datagram_def qfail_def qbind_def on_node_def deliver_message_def Let_def
      split: if_splits sum.splits datagram_frame.splits prod.splits eff.splits)

section \<open>Witnesses\<close>

definition sample_caster :: quic where
  "sample_caster = sample_endpoint\<lparr>q_node := sample_routed\<lparr>pr_transport := (pr_transport sample_routed)\<lparr>tr_peers :=
     [(PeerId [0x61], \<lparr>pi_id = PeerId [0x61], pi_addrs = [], pi_relay_hint = None, pi_last_seen = 0, pi_is_direct = True,
        pi_nat = None\<rparr>)]\<rparr>\<rparr>\<rparr>"

lemma sample_send_ends:
  assumes "qs_by_peer (q_sock q) = []" "qs_by_addr (q_sock q) = []"
  shows "fst (quic_send_to env sample_world p payload q) \<noteq> Stuck"
proof -
  obtain r n where n: "ensure_peer_reachable p (q_node q) = (r, n)" by fastforce
  have r: "r \<noteq> Stuck" using ensure_peer_reachable_ends [of p "q_node q"] n by simp
  have at: "fst (connection_to_at sample_world p a x) \<noteq> Stuck" for a x
    by (simp add: connection_to_at_def Let_def split: option.splits sum.splits)
  have "fst (connection_to sample_world p q) \<noteq> Stuck"
    using r at sample_register [OF assms, of p]
    by (cases r) (simp_all add: connection_to_def qbind_def on_node_def n qregister_def)
  moreover have "fst (send_copies sample_world c d is x) \<noteq> Stuck" for c d "is" x
    using send_copies_prefix [of sample_world c d "is" x] by (metis prod.collapse)
  ultimately show ?thesis
    by (cases "connection_to sample_world p q"; cases "fst (connection_to sample_world p q)") (auto simp: quic_send_to_def qbind_def)
qed

theorem broadcast_sends_to_all_witness:
  "\<exists>q'. broadcast sample_codec_quic (\<lambda>_. sample_world) [1, 2] sample_caster = (Done (), q') \<and>
     sends_to_all sample_codec_quic (\<lambda>_. sample_world) [1, 2] [PeerId [0x61]] sample_caster q'"
proof -
  have k: "filter (\<lambda>p. p \<noteq> q_id sample_caster) (map pi_id (known_peers (pr_transport (q_node sample_caster)))) = [PeerId [0x61]]"
    by (simp add: sample_caster_def known_peers_def sample_endpoint_def quic_bind_def)
  have s: "qs_by_peer (q_sock sample_caster) = []" "qs_by_addr (q_sock sample_caster) = []"
    by (simp_all add: sample_caster_def sample_endpoint_def quic_bind_def quic_socket_new_def)
  obtain r q' where b: "broadcast sample_codec_quic (\<lambda>_. sample_world) [1, 2] sample_caster = (r, q')" by fastforce
  have "r \<noteq> Stuck"
    using b sample_send_ends [OF s, of sample_codec_quic "PeerId [0x61]" "[1, 2]"] k
    by (auto simp: broadcast_def endpoint_known_peers_def qbind_def qlogged_def qret_def split: prod.splits eff.splits)
  then show ?thesis using broadcast_sends_to_all [OF _ b] b k by simp
qed

lemma sample_socket_binds:
  assumes "sa_port (qc_bind_addr cfg) = 4000" "\<not> qc_enable_tcp cfg"
  shows "\<exists>ti. tunnel_incoming_bind sample_os (core_config_of cfg) = Inr ti"
  using assms by (simp add: tunnel_incoming_bind_def core_config_fields bind_main_udp_def sample_os_def sample_bind_def bind_v6_same_port_def)

lemma sample_identity_new: "name \<noteq> [] \<Longrightarrow> name \<noteq> [0x2a] \<Longrightarrow> \<exists>i. identity_new sample_crypto name seed = Inr i"
  by (simp add: identity_new_def sample_crypto_def is_unspecified_def is_broadcast_def Let_def)

lemma sample_own_identity: "qc_identity cfg = None \<Longrightarrow> \<exists>i. own_identity sample_identity_world cfg = Inr i"
  using sample_identity_new by (simp add: own_identity_def fresh_identity_def sample_identity_world_def node_name_def)

text \<open>A system on which every socket can be bound as asked.\<close>

definition free_os :: bind_os where
  "free_os = \<lparr>bo_udp4 = \<lambda>_. Inr, bo_udp6 = \<lambda>_. Inr, bo_tcp4 = \<lambda>_. Inr, bo_tcp6 = \<lambda>_. Inr\<rparr>"

lemma free_os_binds:
  "\<exists>q. endpoint_bind free_os \<lparr>iw_crypto = sample_crypto, iw_name = n, iw_seed = seed\<rparr> (\<lambda>_. Inr ()) boot (SockV4 v4_unspecified 4000) = (Done (), Some q)"
proof -
  let ?n = "node_name (show_socket_addr (SockV4 v4_unspecified 4000))"
  obtain i where i: "identity_new sample_crypto ?n seed = Inr i"
    using sample_identity_new [of ?n seed] by (auto simp: node_name_def)
  have "\<exists>ti. tunnel_incoming_bind free_os (core_config_of (quic_config_default\<lparr>qc_bind_addr := SockV4 v4_unspecified 4000, qc_high_level := True, qc_identity := Some i\<rparr>)) = Inr ti"
    by (simp add: tunnel_incoming_bind_def core_config_fields bind_main_udp_def free_os_def bind_v6_same_port_def quic_config_default_def
        bind_tcp_def bind_tcp_with_def bind_v4_with_fallback_def)
  then show ?thesis using i
    by (auto simp: endpoint_bind_def bind_with_config_def own_identity_def transport_layer_bind_def qret_def quic_config_default_def)
qed

theorem endpoint_bind_peer_id_witness:
  "\<exists>q1 q2. endpoint_bind free_os \<lparr>iw_crypto = sample_crypto, iw_name = 1, iw_seed = [1]\<rparr> (\<lambda>_. Inr ()) (\<lambda>_. (sample_env, [], sample_env, []))
       (SockV4 v4_unspecified 4000) = (Done (), Some q1) \<and>
     endpoint_bind free_os \<lparr>iw_crypto = sample_crypto, iw_name = 2, iw_seed = [2]\<rparr> (\<lambda>_. Inr ()) (\<lambda>_. (sample_env, [], sample_env, []))
       (SockV4 v4_unspecified 4000) = (Done (), Some q2) \<and> q_id q1 = q_id q2"
proof -
  let ?bind = "\<lambda>n seed. endpoint_bind free_os \<lparr>iw_crypto = sample_crypto, iw_name = n, iw_seed = seed\<rparr> (\<lambda>_. Inr ())
    (\<lambda>_. (sample_env, [], sample_env, [])) (SockV4 v4_unspecified 4000)"
  obtain q1 q2 where "?bind 1 [1] = (Done (), Some q1)" "?bind 2 [2] = (Done (), Some q2)"
    using free_os_binds by blast
  then show ?thesis using endpoint_bind_peer_id by blast
qed

theorem bind_addr_ip_not_bound_witness:
  "\<exists>q. bind_with_config sample_os sample_identity_world (\<lambda>_. Inr ()) (\<lambda>_. (sample_env, [], sample_env, []))
       (builder_bind (SockV4 (Ipv4Addr 127 0 0 1) 4000) (builder_enable_tcp False builder_new)) = (Done (), Some q) \<and>
     sa_ip (tr_raw_local (pr_transport (q_node q))) = IpV4 v4_unspecified \<and>
     sa_ip (tr_local (pr_transport (q_node q))) = IpV4 (Ipv4Addr 127 0 0 1)"
proof -
  let ?cfg = "builder_bind (SockV4 (Ipv4Addr 127 0 0 1) 4000) (builder_enable_tcp False builder_new)"
  have ok: "os_ok sample_os" by (simp add: os_ok_def sample_os_def sample_bind_ok)
  have b: "qc_bootstrap ?cfg = []" "\<not> ip_is_unspecified (sa_ip (qc_bind_addr ?cfg))"
    by (simp_all add: builder_bind_def builder_enable_tcp_def builder_new_def quic_config_default_def v4_is_unspecified_def v4_unspecified_def)
  have "\<exists>ti. tunnel_incoming_bind sample_os (core_config_of ?cfg) = Inr ti"
    by (rule sample_socket_binds) (simp_all add: builder_bind_def builder_enable_tcp_def)
  then obtain q where q: "bind_with_config sample_os sample_identity_world (\<lambda>_. Inr ()) (\<lambda>_. (sample_env, [], sample_env, [])) ?cfg = (Done (), Some q)"
    using b(1) sample_own_identity [of ?cfg]
    by (auto simp: bind_with_config_def transport_layer_bind_def qret_def builder_bind_def builder_enable_tcp_def builder_new_def quic_config_default_def)
  show ?thesis using bind_addr_ip_not_bound [OF ok b(2,1) q] q by (simp add: builder_bind_def)
qed

theorem endpoint_bind_ok_witness:
  "unat (pr_max_ttl (q_node (the (snd (bind_with_config sample_os sample_identity_world (\<lambda>_. Inr ()) (\<lambda>_. (sample_env, [], sample_env, []))
     (builder_new\<lparr>qc_bind_addr := SockV4 (Ipv4Addr 127 0 0 1) 4000, qc_enable_tcp := False, qc_max_ttl := 0\<rparr>)))))) = 1"
proof -
  let ?cfg = "builder_new\<lparr>qc_bind_addr := SockV4 (Ipv4Addr 127 0 0 1) 4000, qc_enable_tcp := False, qc_max_ttl := 0\<rparr>"
  have b: "qc_bootstrap ?cfg = []" by (simp add: builder_new_def quic_config_default_def)
  have t: "\<exists>ti. tunnel_incoming_bind sample_os (core_config_of ?cfg) = Inr ti" by (rule sample_socket_binds) simp_all
  have i: "\<exists>i. own_identity sample_identity_world ?cfg = Inr i"
    by (rule sample_own_identity) (simp add: builder_new_def quic_config_default_def)
  show ?thesis using endpoint_bind_ok [OF b, where os = sample_os and iw = sample_identity_world and tls = "\<lambda>_. Inr ()" and boot = "\<lambda>_. (sample_env, [], sample_env, [])"] t i
    by (auto split: prod.splits eff.splits option.splits)
qed

end
