(* ===== verification/Endpoint_System.thy ===== *)
theory Endpoint_System
  imports Endpoint
begin

text \<open>
  An endpoint with all its layers at work: the public methods of \<open>rustp2p-quic/src/endpoint.rs\<close>, what one call does to the endpoint,
  and a step relation in which calls, the tasks of connections, the loops of the QUIC layer and the steps of the protocol
  and transport layers interleave. A locale states what a property of the protocol layer needs to hold
  of the endpoint at all times.
\<close>

section \<open>Public methods\<close>

definition endpoint_peer_id :: "quic \<Rightarrow> peer_id" where
  "endpoint_peer_id q = q_id q"

definition endpoint_addr :: "quic \<Rightarrow> socket_addr option" where
  "endpoint_addr q = Some (tr_local (pr_transport (q_node q)))"

definition endpoint_nat_info :: "quic \<Rightarrow> nat_info" where
  "endpoint_nat_info q = pr_nat (q_node q)"

definition endpoint_routes :: "peer_id \<Rightarrow> quic \<Rightarrow> route list" where
  "endpoint_routes p q = transport_routes (pr_transport (q_node q)) p"

definition endpoint_link_mode :: "peer_id \<Rightarrow> quic \<Rightarrow> link_mode option" where
  "endpoint_link_mode p q = link_mode_of (pr_transport (q_node q)) p"

definition endpoint_link_info :: "peer_id \<Rightarrow> quic \<Rightarrow> link_info option" where
  "endpoint_link_info p q = link_info_of (pr_transport (q_node q)) p"

definition endpoint_punch_whitelist :: "quic \<Rightarrow> peer_id set option" where
  "endpoint_punch_whitelist q = pr_whitelist (q_node q)"

definition upd_node :: "(node \<Rightarrow> node) \<Rightarrow> quic \<Rightarrow> quic" where
  "upd_node f q = q\<lparr>q_node := f (q_node q)\<rparr>"

definition endpoint_allow_punch :: "peer_id \<Rightarrow> quic \<Rightarrow> quic" where
  "endpoint_allow_punch p = upd_node (allow_punch p)"

definition endpoint_deny_punch :: "peer_id \<Rightarrow> quic \<Rightarrow> quic" where
  "endpoint_deny_punch p = upd_node (deny_punch p)"

definition endpoint_set_punch_whitelist :: "peer_id list option \<Rightarrow> quic \<Rightarrow> quic" where
  "endpoint_set_punch_whitelist ps = upd_node (set_punch_whitelist ps)"

definition endpoint_punch :: "env \<Rightarrow> peer_id \<Rightarrow> unit qact" where
  "endpoint_punch env p = on_node (punch env p)"

text \<open>The transport handle sends bytes that are already encoded.\<close>

definition handle_send_to_peer :: "env \<Rightarrow> peer_id \<Rightarrow> bytes \<Rightarrow> unit qact" where
  "handle_send_to_peer env p bs = on_node (on_transport (send_packet_to_peer env p bs))"

text \<open>The calls that change the endpoint, each with the worlds of the QUIC library it meets.\<close>

datatype endpoint_call =
    SendTo quinn peer_id bytes
  | TrySendTo quinn peer_id bytes
  | SendToVia quinn peer_id route_key bytes
  | TrySendToVia quinn peer_id route_key bytes
  | Broadcast "peer_id \<Rightarrow> quinn" bytes
  | Recv
  | TryRecv
  | OpenBi quinn quinn peer_id
  | OpenBiVia quinn quinn peer_id route_key
  | AcceptBi
  | AddBootstrap boot_world socket_addr
  | AllowPunch peer_id
  | DenyPunch peer_id
  | SetPunchWhitelist "peer_id list option"
  | PunchPeer peer_id
  | HandleSend peer_id bytes
  | CloseEndpoint

fun perform :: "env \<Rightarrow> endpoint_call \<Rightarrow> quic \<Rightarrow> quic" where
  "perform env (SendTo w p data) q = snd (quic_send_to env w p data q)"
| "perform env (TrySendTo w p data) q = snd (quic_try_send_to env w p data q)"
| "perform env (SendToVia w p k data) q = snd (quic_send_to_via env w p k data q)"
| "perform env (TrySendToVia w p k data) q = snd (quic_try_send_to_via env w p k data q)"
| "perform env (Broadcast w data) q = snd (broadcast env w data q)"
| "perform env Recv q = snd (quic_recv q)"
| "perform env TryRecv q = snd (quic_try_recv q)"
| "perform env (OpenBi w w' p) q = snd (open_bi env w w' p q)"
| "perform env (OpenBiVia w w' p k) q = snd (open_bi_via env w w' p k q)"
| "perform env AcceptBi q = snd (quic_accept_bi q)"
| "perform env (AddBootstrap boot a) q = snd (endpoint_add_bootstrap boot a q)"
| "perform env (AllowPunch p) q = endpoint_allow_punch p q"
| "perform env (DenyPunch p) q = endpoint_deny_punch p q"
| "perform env (SetPunchWhitelist ps) q = endpoint_set_punch_whitelist ps q"
| "perform env (PunchPeer p) q = snd (endpoint_punch env p q)"
| "perform env (HandleSend p bs) q = snd (handle_send_to_peer env p bs q)"
| "perform env CloseEndpoint q = endpoint_close q"

fun call_worlds :: "endpoint_call \<Rightarrow> quinn set" where
  "call_worlds (SendTo w _ _) = {w}"
| "call_worlds (SendToVia w _ _ _) = {w}"
| "call_worlds (Broadcast w _) = range w"
| "call_worlds (OpenBi w w' _) = {w, w'}"
| "call_worlds (OpenBiVia w w' _ _) = {w, w'}"
| "call_worlds _ = {}"

text \<open>What other tasks do to the node while a bootstrap waits are steps of the node.\<close>

definition boot_ok :: "boot_world \<Rightarrow> bool" where
  "boot_ok boot \<longleftrightarrow>
     (\<forall>a. case boot a of (_, others1, _, others2) \<Rightarrow> \<forall>f \<in> set (others1 @ others2). \<forall>n. node_step\<^sup>*\<^sup>* n (f n))"

fun call_boot_ok :: "endpoint_call \<Rightarrow> bool" where
  "call_boot_ok (AddBootstrap boot _) = boot_ok boot"
| "call_boot_ok _ = True"

section \<open>Steps\<close>

text \<open>
  What the QUIC library sends through its socket reaches the node as one of its steps, so it is part of \<open>ep_node\<close>, like packets, timers and probes. While
  a call waits for a handshake, the rest of the endpoint goes on, so the two relations are defined together.
\<close>

inductive ep_step :: "quic \<Rightarrow> quic \<Rightarrow> bool" and ep_steps :: "quic \<Rightarrow> quic \<Rightarrow> bool" where
  ep_refl: "ep_steps q q"
| ep_trans: "ep_step q q' \<Longrightarrow> ep_steps q' q'' \<Longrightarrow> ep_steps q q''"
| ep_node: "node_step (q_node q) n \<Longrightarrow> ep_step q (q\<lparr>q_node := n\<rparr>)"
| ep_call: "call_boot_ok c \<Longrightarrow> (\<And>w. w \<in> call_worlds c \<Longrightarrow> race_ok (qn_race w)) \<Longrightarrow>
    (\<And>w x. w \<in> call_worlds c \<Longrightarrow> ep_steps x (qn_meanwhile w x)) \<Longrightarrow> ep_step q (perform env c q)"
| ep_task: "t \<in> set (q_spawned q) \<Longrightarrow> ep_step q (snd (connection_task_turn env t ev q))"
| ep_accept: "ep_step q (accept_loop_turn inc q)"
| ep_transport: "race_ok (qn_race w) \<Longrightarrow> ep_step q (snd (transport_loop_turn w q))"
| ep_poll: "ep_step q (upd_sock (\<lambda>s. snd (quic_poll_recv bufs metas s)) q)"

section \<open>Steps of the layers below\<close>

lemma bootstrap_wait_eqs:
  "bootstrap_wait a [] n = (case take_hello a (pr_hello n) of (r, q) \<Rightarrow>
     (case r of Some p \<Rightarrow> Done p | None \<Rightarrow> Fail (IoError TimedOut ''bootstrap hello timed out''), n\<lparr>pr_hello := q\<rparr>))"
  "bootstrap_wait a (f # fs) n = (case take_hello a (pr_hello n) of
     (Some p, q) \<Rightarrow> (Done p, n\<lparr>pr_hello := q\<rparr>) | (None, q) \<Rightarrow> bootstrap_wait a fs (f (n\<lparr>pr_hello := q\<rparr>)))"
  by (simp_all split: prod.split option.split)

declare bootstrap_wait.simps [simp del]

lemma bootstrap_wait_steps:
  assumes "\<And>f n. f \<in> set others \<Longrightarrow> node_step\<^sup>*\<^sup>* n (f n)"
  shows "node_step\<^sup>*\<^sup>* n (snd (bootstrap_wait a others n))"
  using assms
proof (induction others arbitrary: n)
  case Nil
  then show ?case using step_bootstrap_poll [of n a] by (auto simp: bootstrap_wait_eqs split: prod.split option.split)
next
  case (Cons f fs)
  let ?n = "n\<lparr>pr_hello := snd (take_hello a (pr_hello n))\<rparr>"
  have "node_step\<^sup>*\<^sup>* ?n (f ?n)" "node_step\<^sup>*\<^sup>* (f ?n) (snd (bootstrap_wait a fs (f ?n)))"
    using Cons.prems Cons.IH by simp_all
  with step_bootstrap_poll [of n a] have "node_step\<^sup>*\<^sup>* n (snd (bootstrap_wait a fs (f ?n)))"
    by (meson converse_rtranclp_into_rtranclp rtranclp_trans)
  then show ?case using step_bootstrap_poll [of n a] by (auto simp: bootstrap_wait_eqs split: prod.split option.split)
qed

text \<open>A bootstrap that others interrupt begins like one that nobody does.\<close>

lemma add_bootstrap_once_prefix:
  "snd (add_bootstrap_once env (f # fs) a n) = snd (add_bootstrap_once env [] a n) \<or>
   snd (add_bootstrap_once env (f # fs) a n) = snd (bootstrap_wait a fs (f (snd (add_bootstrap_once env [] a n))))"
  unfolding add_bootstrap_once_def bind_def
  by (auto simp: bootstrap_wait_eqs split: prod.split eff.split option.split)

lemma add_bootstrap_once_steps:
  assumes "\<And>f n. f \<in> set others \<Longrightarrow> node_step\<^sup>*\<^sup>* n (f n)"
  shows "node_step\<^sup>*\<^sup>* n (snd (add_bootstrap_once env others a n))"
proof (cases others)
  case Nil
  then show ?thesis using step_bootstrap [of n env a] by auto
next
  case (Cons f fs)
  have "node_step\<^sup>*\<^sup>* n (snd (add_bootstrap_once env [] a n))" using step_bootstrap by auto
  moreover have "node_step\<^sup>*\<^sup>* m (f m)" "node_step\<^sup>*\<^sup>* m (snd (bootstrap_wait a fs m))" for m
    using assms bootstrap_wait_steps [of fs] by (simp_all add: Cons)
  ultimately show ?thesis using add_bootstrap_once_prefix [of env f fs a n] unfolding Cons by (metis rtranclp_trans)
qed

lemma add_bootstrap_steps:
  assumes "boot_ok boot" "boot a = (env1, others1, env2, others2)"
  shows "node_step\<^sup>*\<^sup>* n (snd (add_bootstrap env1 others1 env2 others2 a n))"
proof -
  have o: "node_step\<^sup>*\<^sup>* m (f m)" if "f \<in> set others1 \<union> set others2" for f m
    using assms that by (auto simp: boot_ok_def dest!: spec [of _ a])
  have "node_step\<^sup>*\<^sup>* m (snd (add_bootstrap_once env1 others1 a m))" "node_step\<^sup>*\<^sup>* m (snd (add_bootstrap_once env2 others2 a m))" for m
    using o by (auto intro!: add_bootstrap_once_steps)
  then show ?thesis unfolding add_bootstrap_def
    by (auto split: prod.split eff.split) (metis rtranclp_trans snd_conv)+
qed

lemma ensure_peer_reachable_step: "node_step n (snd (ensure_peer_reachable p n))"
proof -
  have "snd (ensure_peer_reachable p n) = set_tr (snd (route_for p (pr_transport n))) n"
    by (simp add: ensure_peer_reachable_def bind_def on_transport_def ret_def lift_def split: prod.split sum.split eff.split)
  then show ?thesis using step_transport [OF tr_step.intros(6)] by simp
qed

text \<open>Operations of the QUIC layer that leave the node alone.\<close>

lemma q_node_frame [simp]:
  "q_node (upd_sock f q) = q_node q" "q_node (start_connection_tasks c via q) = q_node q"
  "q_node (snd (qregister w p q)) = q_node q" "q_node (snd (qregister_via w p k q)) = q_node q"
  "q_node (snd (send_datagram msg r c data q)) = q_node q" "q_node (snd (open_stream env w p c q)) = q_node q"
  "q_node (drop_closed closed p q) = q_node q" "q_node (drop_via closed p k q) = q_node q"
  "q_node (snd (deliver_stream st q)) = q_node q" "q_node (snd (deliver_message i m q)) = q_node q"
  "q_node (snd (qret x q)) = q_node q" "q_node (snd (qfail kind text q)) = q_node q"
  by (auto simp: upd_sock_def start_connection_tasks_def Let_def qregister_def qregister_via_def send_datagram_def open_stream_def
      drop_closed_def drop_via_def remove_closed_via_def deliver_stream_def deliver_message_def qret_def qfail_def
      split: option.split sum.split)

lemma q_node_cleanup [simp]:
  "q_node (cleanup_connection i p q) = q_node q" "q_node (cleanup_via_connection i p k q) = q_node q"
  by (auto simp: cleanup_connection_def cleanup_via_connection_def Let_def split: option.split)

lemma q_node_loops [simp]:
  "q_node (end_task t q) = q_node q" "q_node (accept_loop_turn inc q) = q_node q"
  "q_node (snd (quic_recv q)) = q_node q" "q_node (snd (quic_try_recv q)) = q_node q" "q_node (snd (quic_accept_bi q)) = q_node q"
  by (auto simp: end_task_def Let_def accept_loop_turn_def quic_recv_def quic_try_recv_def quic_accept_bi_def
      split: option.split list.split)

lemma q_node_try_send [simp]:
  "q_node (snd (quic_try_send_to env w p data q)) = q_node q" "q_node (snd (quic_try_send_to_via env w p k data q)) = q_node q"
  by (auto simp: quic_try_send_to_def quic_try_send_to_via_def split: option.split)

lemma q_node_send_copies [simp]: "q_node (snd (send_copies w c data is q)) = q_node q"
proof (induction "is" arbitrary: q)
  case (Cons i "is")
  then show ?case by (auto simp: qbind_def send_datagram_def split: prod.split eff.split sum.split)
qed simp

text \<open>
  What holds of a node initially and is kept by its steps holds of the node of an endpoint, whatever the QUIC layer and the
  users of the endpoint do.
\<close>

locale node_property =
  fixes I :: "node \<Rightarrow> bool"
  assumes kept: "node_step n n' \<Longrightarrow> I n \<Longrightarrow> I n'"
begin

definition keeps :: "'a qact \<Rightarrow> bool" where
  "keeps m \<longleftrightarrow> (\<forall>q. I (q_node q) \<longrightarrow> I (q_node (snd (m q))))"

lemma keepsD: "keeps m \<Longrightarrow> I (q_node q) \<Longrightarrow> I (q_node (snd (m q)))"
  by (simp add: keeps_def)

lemma kept_steps: "node_step\<^sup>*\<^sup>* n n' \<Longrightarrow> I n \<Longrightarrow> I n'"
  by (induction rule: rtranclp_induct) (auto intro: kept)

lemma keeps_frame: "(\<And>q. q_node (snd (m q)) = q_node q) \<Longrightarrow> keeps m"
  by (simp add: keeps_def)

lemma keeps_on_node: "(\<And>n. node_step\<^sup>*\<^sup>* n (snd (m n))) \<Longrightarrow> keeps (on_node m)"
  using kept_steps by (fastforce simp: keeps_def on_node_def split: prod.split)

lemma keeps_qbind: "keeps m \<Longrightarrow> (\<And>x. keeps (f x)) \<Longrightarrow> keeps (qbind m f)"
  unfolding keeps_def qbind_def by (fastforce split: prod.split eff.split)

lemma keeps_qlogged: "keeps m \<Longrightarrow> keeps (qlogged m)"
  unfolding keeps_def qlogged_def by (fastforce split: prod.split eff.split)

definition world_keeps :: "quinn \<Rightarrow> bool" where
  "world_keeps w \<longleftrightarrow> (\<forall>q. I (q_node q) \<longrightarrow> I (q_node (qn_meanwhile w q)))"

lemma keeps_register: "keeps (qregister w p)" "keeps (qregister_via w p k)"
  by (rule keeps_frame, simp)+

lemma keeps_connection_to:
  assumes "world_keeps w"
  shows "keeps (connection_to w p)"
proof -
  have "keeps (connection_to_at w p a)" for a
    using assms by (auto simp: keeps_def world_keeps_def connection_to_at_def Let_def split: option.split sum.split)
  then show ?thesis unfolding connection_to_def
    by (intro keeps_qbind keeps_register keeps_on_node) (simp_all add: ensure_peer_reachable_step r_into_rtranclp)
qed

lemma keeps_connection_to_via:
  assumes "world_keeps w"
  shows "keeps (connection_to_via w p k)"
proof -
  have "keeps (qbind (qregister_via w p k) (\<lambda>a q. let q1 = qn_meanwhile w q in
      case connect_quic_addr w a of
        Inr c \<Rightarrow> (Done c, start_connection_tasks c (Some k) (q1\<lparr>q_via := dm_insert (p, k) c (q_via q1)\<rparr>))
      | Inl e \<Rightarrow> (Fail e, upd_sock (release_virtual_peer_via p k) (remove_closed_via (qn_closed_later w) p k q1))))"
    using assms
    by (intro keeps_qbind keeps_register) (auto simp: keeps_def world_keeps_def Let_def remove_closed_via_def split: sum.split)
  then show ?thesis by (simp add: keeps_def connection_to_via_def split: option.split)
qed

lemma keeps_open_attempts:
  assumes "\<And>w. w \<in> set ws \<Longrightarrow> keeps (once w)" "\<And>w q. q_node (f w q) = q_node q"
  shows "keeps (open_attempts once f e ws)"
  using assms(1)
proof (induction ws arbitrary: e)
  case (Cons w ws)
  then have "keeps (once w)" "keeps (open_attempts once f e' ws)" for e' by simp_all
  then show ?case using assms(2) by (fastforce simp: keeps_def split: prod.split eff.split)
qed (simp add: keeps_def)

lemma keeps_calls:
  assumes "world_keeps w" "world_keeps w'"
  shows "keeps (quic_send_to env w p data)" "keeps (quic_send_to_via env w p k data)"
    "keeps (open_bi env w w' p)" "keeps (open_bi_via env w w' p k)"
  unfolding quic_send_to_def quic_send_to_via_def open_bi_def open_bi_via_def open_bi_once_def open_bi_via_once_def
  using assms
  by (auto intro!: keeps_qbind keeps_connection_to keeps_connection_to_via keeps_open_attempts intro: keeps_frame)

lemma keeps_broadcast:
  assumes "\<And>p. world_keeps (w p)"
  shows "keeps (broadcast env w data)"
proof -
  have "keeps (broadcast_to env w data ps)" for ps
    using assms by (induction ps) (auto intro!: keeps_qbind keeps_qlogged keeps_calls intro: keeps_frame)
  then show ?thesis by (simp add: keeps_def broadcast_def)
qed

lemma kept_after_route_metric:
  assumes "I (q_node q)" and "\<And>x q. q_node (snd (f x q)) = q_node q"
  shows "I (q_node (snd (qbind (on_node (node_route_metric_for src)) f q)))"
proof -
  have "keeps (qbind (on_node (node_route_metric_for src)) f)"
    using assms(2) step_route_metric by (intro keeps_qbind keeps_on_node) (blast, simp add: keeps_frame)
  then show ?thesis using assms(1) by (simp add: keeps_def)
qed

lemma keeps_connection_task: "keeps (connection_task_turn env t ev)"
proof -
  have "keeps (handle_incoming_stream env remote i input)" for remote i input
    by (auto simp: keeps_def handle_incoming_stream_def intro!: kept_after_route_metric split: sum.split stream_frame.split)
  moreover have "keeps (handle_incoming_datagram env remote data)" for remote data
    by (auto simp: keeps_def handle_incoming_datagram_def Let_def intro!: kept_after_route_metric
        split: sum.split datagram_frame.split)
  ultimately show ?thesis by (cases ev) (auto simp: qupd_def intro: keeps_qlogged keeps_frame)
qed

lemma keeps_transport_loop: "keeps (transport_loop_turn w)"
proof -
  have "keeps (qbind (qregister w p) (\<lambda>a. qupd (upd_sock (inject_routed_quic payload a))))" for p payload
    by (intro keeps_qbind keeps_register keeps_frame) (simp add: qupd_def)
  moreover have "I n \<Longrightarrow> I (snd (recv_quic_payload n))" for n by (rule kept [OF step_quic_recv])
  ultimately show ?thesis
    by (fastforce simp: keeps_def transport_loop_turn_def split: prod.split option.split)
qed

lemma kept_by_call:
  assumes "call_boot_ok c" "\<And>w. w \<in> call_worlds c \<Longrightarrow> world_keeps w" "I (q_node q)"
  shows "I (q_node (perform env c q))"
proof -
  have s: "node_step (q_node q) n \<Longrightarrow> I n" for n using assms(3) kept by blast
  show ?thesis
  proof (cases c)
    case (AddBootstrap boot a)
    obtain e1 o1 e2 o2 where b: "boot a = (e1, o1, e2, o2)" by (metis prod_cases4)
    then have "node_step\<^sup>*\<^sup>* n (snd (add_bootstrap e1 o1 e2 o2 a n))" for n
      using assms(1) AddBootstrap by (auto intro: add_bootstrap_steps)
    then show ?thesis using AddBootstrap b assms(3) by (simp add: keepsD [OF keeps_on_node] endpoint_add_bootstrap_def)
  next
    case (HandleSend p bs)
    then show ?thesis
      using s [OF step_transport [OF tr_step.intros(8)]] by (simp add: handle_send_to_peer_def on_node_def split: prod.split) (metis snd_on_transport snd_conv)
  next
    case CloseEndpoint
    have "I (protocol_close (q_node q))" by (rule s [OF node_step.step_close])
    then have "I (set_tr (transport_close (pr_transport (protocol_close (q_node q)))) (protocol_close (q_node q)))"
      by (rule kept [OF step_transport [OF tr_step.intros(15)]])
    then show ?thesis using CloseEndpoint by (simp add: endpoint_close_def quic_close_def protocol_close_def)
  qed (use assms s [OF step_allow] s [OF step_deny] s [OF step_whitelist] node_step.step_punch in \<open>auto simp: upd_node_def
      endpoint_allow_punch_def endpoint_deny_punch_def endpoint_set_punch_whitelist_def endpoint_punch_def
      intro!: keepsD keeps_calls keeps_broadcast keeps_on_node\<close>)
qed

lemma kept_by_step: "ep_step q q' \<Longrightarrow> I (q_node q) \<Longrightarrow> I (q_node q')"
  and kept_by_steps: "ep_steps q q' \<Longrightarrow> I (q_node q) \<Longrightarrow> I (q_node q')"
proof (induction rule: ep_step_ep_steps.inducts)
  case (ep_call c q env)
  then show ?case by (intro kept_by_call) (simp_all add: world_keeps_def)
qed (simp_all add: kept keepsD keeps_connection_task keeps_transport_loop)

end

interpretation node_runs: node_property "node_reachable lb" for lb
  by unfold_locales (rule node_next)

text \<open>What a node is configured with and no operation changes.\<close>

definition same_settings :: "node \<Rightarrow> node \<Rightarrow> bool" where
  "same_settings n n' \<longleftrightarrow> pr_id n' = pr_id n \<and> pr_max_ttl n' = pr_max_ttl n \<and> pr_observers n' = pr_observers n"

interpretation settings: node_relation same_settings "\<lambda>_ _. True"
  by unfold_locales (simp_all add: same_settings_def same_core_def)

lemma bootstrap_same_settings: "same_settings n (snd (add_bootstrap_once env [] a n))"
  unfolding add_bootstrap_once_def
  by (intro settings.bind_rel)
    (simp_all add: settings.refl settings.send_raw_rel settings.internal same_core_def bootstrap_wait_eqs same_settings_def split: prod.split)

lemma node_step_settings: "node_step n n' \<Longrightarrow> same_settings n n'"
proof (induction rule: node_step.induct)
  case (step_bootstrap n env a)
  then show ?case by (rule bootstrap_same_settings)
qed (use settings.handle_transport_packet_rel settings.run_probe_rel settings.stun_tick_rel settings.observe_tick_rel
      settings.maintenance_tick_rel settings.heartbeat_tick_rel settings.punch_op_rel settings.try_send_quic_rel
      settings.try_send_quic_via_rel settings.node_route_metric_rel in
    \<open>auto simp: recv_quic_payload_def allow_punch_def deny_punch_def set_punch_whitelist_def protocol_close_def same_settings_def
      split: list.split option.split\<close>)

interpretation fixed_settings: node_property "same_settings n" for n
  by unfold_locales (rule settings.trans [OF _ node_step_settings])

section \<open>The QUIC layer of a running endpoint\<close>

lemma q_stepsI: "q_step q q' \<Longrightarrow> q_steps q q'"
  by (rule q_trans [OF _ q_refl])

lemma q_steps_append:
  "q_step q q' \<Longrightarrow> True" "q_steps q q' \<Longrightarrow> q_steps q' q'' \<Longrightarrow> q_steps q q''"
  by (induction rule: q_step_q_steps.inducts) (auto intro: q_trans)

lemmas q_steps_trans = q_steps_append(2)

lemma broadcast_q_steps:
  assumes "\<And>p. race_ok (qn_race (w p))" "\<And>p x. q_steps x (qn_meanwhile (w p) x)"
  shows "q_steps q (snd (broadcast env w data q))"
proof -
  have "q_steps q (snd (broadcast_to env w data ps q))" for ps q
  proof (induction ps arbitrary: q)
    case (Cons p ps)
    have "q_steps q (snd (quic_send_to env (w p) p data q))" by (rule q_stepsI [OF q_send_to]) (fact assms)+
    then have "q_steps q (snd (qlogged (quic_send_to env (w p) p data) q))"
      by (auto simp: qlogged_def split: prod.split eff.split)
    then show ?case using Cons.IH
      by (auto simp: qbind_def split: prod.split eff.split) (metis q_steps_trans snd_conv)
  qed (simp add: qret_def q_refl)
  then show ?thesis by (simp add: broadcast_def)
qed

lemmas q_calls = q_send_to [THEN q_stepsI] q_send_to_via [THEN q_stepsI] q_open_bi [THEN q_stepsI] q_open_bi_via [THEN q_stepsI]
  q_try_send_to [THEN q_stepsI] q_try_send_to_via [THEN q_stepsI] q_recv [THEN q_stepsI] q_try_recv [THEN q_stepsI]
  q_accept_bi [THEN q_stepsI] q_protocol [THEN q_stepsI]

lemma perform_q_steps:
  assumes "\<And>w. w \<in> call_worlds c \<Longrightarrow> race_ok (qn_race w)" "\<And>w x. w \<in> call_worlds c \<Longrightarrow> q_steps x (qn_meanwhile w x)"
  shows "q_steps q (perform env c q)"
proof (cases c)
  case (Broadcast w data)
  then show ?thesis using assms by (auto intro: broadcast_q_steps)
next
  case CloseEndpoint
  then show ?thesis by (auto simp: endpoint_close_def intro: q_trans q_protocol q_stepsI q_close)
next
  case (AddBootstrap boot a)
  then show ?thesis by (auto simp: endpoint_add_bootstrap_def on_node_def intro: q_stepsI q_protocol split: prod.split)
qed (use assms in \<open>auto simp: endpoint_allow_punch_def endpoint_deny_punch_def endpoint_set_punch_whitelist_def upd_node_def
    endpoint_punch_def handle_send_to_peer_def on_node_def
    intro!: q_calls split: prod.split\<close>)

lemma ep_step_q_steps: "ep_step q q' \<Longrightarrow> q_steps q q'" and ep_steps_q_steps: "ep_steps q q' \<Longrightarrow> q_steps q q'"
proof (induction rule: ep_step_ep_steps.inducts)
  case (ep_trans q q' q'')
  then show ?case by (blast intro: q_steps_trans)
next
  case (ep_call c q env)
  then show ?case by (intro perform_q_steps)
qed (auto intro: q_stepsI q_step_q_steps.intros)

lemma ep_steps_append:
  "ep_step q q' \<Longrightarrow> True" "ep_steps q q' \<Longrightarrow> ep_steps q' q'' \<Longrightarrow> ep_steps q q''"
  by (induction rule: ep_step_ep_steps.inducts) (auto intro: ep_trans)

lemma bootstrap_all_steps:
  assumes "boot_ok boot"
  shows "ep_steps q (snd (bootstrap_all boot as q))"
proof (induction "as" arbitrary: q)
  case (Cons a "as")
  have "ep_step q (perform env (AddBootstrap boot a) q)" for env using assms by (intro ep_call) simp_all
  then have "ep_steps q (snd (endpoint_add_bootstrap boot a q))" using ep_trans ep_refl by fastforce
  then show ?case using Cons.IH
    by (auto simp: qbind_def split: prod.split eff.split) (metis ep_steps_append(2) snd_conv)
qed (simp add: qret_def ep_refl)

lemma bound_endpoint_runs:
  assumes "boot_ok boot" "bind_with_config os iw tls boot cfg = (r, Some q0)" "ep_steps q0 q"
  obtains i t where "own_identity iw cfg = Inr i" "transport_layer_bind os (id_peer i) cfg = Inr t"
    "ep_steps (endpoint_assemble cfg (id_peer i) t) q"
proof -
  obtain i t where i: "own_identity iw cfg = Inr i" and t: "transport_layer_bind os (id_peer i) cfg = Inr t"
    and q0: "q0 = snd (bootstrap_all boot (qc_bootstrap cfg) (endpoint_assemble cfg (id_peer i) t))"
    using assms(2) by (auto simp: bind_with_config_def split: sum.splits prod.splits)
  have "ep_steps (endpoint_assemble cfg (id_peer i) t) q"
    using bootstrap_all_steps [OF assms(1)] assms(3) unfolding q0 by (rule ep_steps_append(2))
  with i t show thesis by (rule that)
qed


definition lone_config :: quic_config where
  "lone_config = builder_bind (SockV4 (Ipv4Addr 127 0 0 1) 4000) (builder_enable_tcp False builder_new)"


end
