(* ===== verification/Spec2Isabelle.thy ===== *)
theory Spec2Isabelle
  imports Net_Addr Protocol_Props Stun Tunnel_Halves Reliable_Stream Endpoint_System
begin

text \<open>
  Verification of rustp2p, a peer-to-peer networking library in Rust.

  \<^bold>\<open>The program.\<close> The crate \<open>rustp2p-core\<close> (directory \<open>rustp2p-core/src\<close>) moves bytes: it binds UDP and TCP
  sockets, splits the traffic of the shared UDP sockets into one tunnel per five-tuple and frames
  TCP streams into messages, finds out what NAT the node is behind, punches holes towards peers,
  and keeps the table of routes to each peer. The crate \<open>rustp2p-quic\<close> (\<open>rustp2p-quic/src\<close>) builds
  the peer-to-peer protocol on it: packets with source, destination and TTL, control messages
  (hello, route query, echo, NAT observation, punch), relaying, and QUIC payloads between peers; and on
  that a QUIC endpoint with datagrams and streams, for which each peer is a synthetic socket address.
  A datagram goes through the socket pool to the dispatcher, its tunnel, the tunnel actor of the
  transport layer and the packet handler of the protocol layer; the handler confirms routes in the
  route table, answers, forwards, or hands QUIC payloads up; a send takes the way back.

  \<^bold>\<open>The theories.\<close>
  \<^item> \<open>P2P_Prelude\<close>: machine integers, \<open>io::Result\<close>, big-endian bytes, saturating arithmetic, hash maps as
    association lists (locale \<open>concurrent_map\<close>), list facts.
  \<^item> \<open>Net_Addr\<close> (\<open>util/addr.rs\<close>): addresses, global-address classification, interface scan on each
    platform, probing for the source address.
  \<^item> \<open>Tcp_Framing\<close> (\<open>endpoint/codec.rs\<close>, the TCP tasks of \<open>endpoint/pool.rs\<close>): both codecs, the read and write
    task with partial reads and writes.
  \<^item> \<open>Udp_Tunnel\<close> (\<open>endpoint/tunnel.rs\<close>): bounded channels (locale \<open>bounded_queue\<close>), the dispatcher, tunnels.
  \<^item> \<open>Socket_Pool\<close> (\<open>endpoint/pool.rs\<close>): the pool, the UDP reader and writer tasks, single and batched, the
    address format of the batched system calls, publication of TCP connections, the socket model.
    \<open>Tunnel_Halves\<close> (\<open>endpoint/tunnel.rs\<close>, \<open>endpoint/pool.rs\<close>): the send and receive halves of UDP and TCP tunnels.
  \<^item> \<open>Route_Table\<close>, \<open>Route_Selection\<close> (\<open>route_table\<close>, \<open>idle.rs\<close>): the table of routes with its four load
    balancing strategies (locale \<open>route_store\<close>), selection, idle routes.
  \<^item> \<open>Nat_Info\<close> (\<open>nat/mod.rs\<close>), \<open>Punch\<close> (\<open>punch\<close>), \<open>Stun\<close> (\<open>stun/mod.rs\<close>): the NAT description, the punch rounds,
    NAT detection.
  \<^item> \<open>Packet\<close>, \<open>Addr_Text\<close>, \<open>Payload\<close> (\<open>protocol.rs\<close>): the packet header, textual addresses, control payloads
    and NAT observations.
  \<^item> \<open>Transport\<close> (\<open>transport.rs\<close>): peer store, send paths, tunnel actors, link information.
  \<^item> \<open>Protocol_Layer\<close>, \<open>Protocol_Safety\<close>, \<open>Protocol_Props\<close> (\<open>protocol.rs\<close>): the state of a node, every packet
    handler, punching, bootstrap, background loops; rules for relations that every operation keeps
    (locales \<open>step_relation\<close> and \<open>node_relation\<close>); the properties of a node.
  \<^item> \<open>Quic_Socket\<close> (\<open>quic.rs\<close>): the table of synthetic addresses shared by concurrent tasks, the socket the QUIC
    library sees. \<open>Quic_Endpoint\<close>, \<open>Quic_Props\<close> (\<open>quic.rs\<close>, \<open>connection.rs\<close>): connection caches, datagrams, streams,
    the tasks of a connection and the background loops; their properties.
  \<^item> \<open>Service\<close> (\<open>socket/mod.rs\<close>, \<open>endpoint/service.rs\<close>, \<open>endpoint/config.rs\<close>): set-up of sockets, binding of the UDP
    sockets and TCP listeners. \<open>Identity_Keys\<close> (\<open>identity.rs\<close>): identities and the encoding of
    their keys. \<open>Endpoint\<close> (\<open>endpoint.rs\<close>, \<open>config.rs\<close>): the endpoint built from all layers, broadcast, close.
    \<open>Certificates\<close> (\<open>cert.rs\<close>): the verifier interface and its adapters. \<open>Reliable_Stream\<close> (\<open>reliable.rs\<close>): the halves of a stream.
  \<^item> \<open>Endpoint_System\<close> (\<open>endpoint.rs\<close>): all public calls, and a running endpoint in which calls, tasks, loops and the steps of all
    layers interleave (locale \<open>node_property\<close>: what the steps of the node keep, the whole endpoint keeps).

  \<^bold>\<open>State and operations.\<close> A struct is a record whose fields carry the names of the source with a prefix,
  an enum a datatype, a method a function of the same name on the record. \<open>DashMap\<close> and \<open>HashMap\<close> are
  association lists with distinct keys, \<open>HashSet\<close> a list without duplicates; the order stands for
  the iteration order, on which no theorem depends. \<open>io::Result\<close> is a sum with \<open>io_error\<close>; the error
  message is its constant part. Integers that wrap or saturate in the source are words.

  \<^bold>\<open>Loops, tasks and waiting.\<close> The decode loop of the TCP reader and the idle poll are partial functions
  into option, and their theorems state that they return. The dispatcher's retry loop and the batched
  writer are total functions with a termination proof. A handler of the protocol layer is one step;
  its result is \<open>Done\<close>, \<open>Fail\<close>, or \<open>Stuck\<close> for a send on a full bounded queue that nobody empties.
  Spawned probes are steps of their own, one iteration of a background loop is one step, and the
  bootstrap call receives what other tasks do while it waits as a list of actions. In the QUIC layer a
  registration takes what other tasks do between its reservation and its publication as a function, and a
  connection attempt what they do during the handshake; the theorems quantify over all such interleavings. The search for a
  free synthetic address is a partial function with a theorem that it returns. Clocks, random
  choices, the operating system, sockets, name resolution, the protobuf codec, the STUN message
  format and the QUIC library are arguments.

  \<^bold>\<open>What is shown.\<close> Invariants of every reachable state: route table, transport, node, dispatcher,
  puncher, QUIC endpoint, and the running endpoint with all its layers, from binding on. Delivery: packets and control payloads round-trip, TCP messages arrive whole and in order from send half to receive half,
  datagrams reach exactly their tunnel (a refinement to one mailbox per five-tuple), the batched UDP
  tasks equal the single ones, QUIC payloads cross the relays that the TTL admits, a datagram sent five
  times is delivered once, a stream is read with its opener and exactly its bytes, however the reads are cut. Safety: direct
  routes arise only from completed direct exchanges, relays only forward, punches keep to whitelist,
  rate limit and punch model, concurrent registrations never mix up addresses. Binding honours addresses and
  ports. Selection and detection: the chosen route is optimal for its strategy,
  NAT detection reports what the servers said, port prediction is exact. Liveness: round robin is
  fair, idle routes are found, the handshake completes, the port scan reaches every port. Several
  theorems record behaviour that differs from the comments, such as a STUN outage that is taken for
  a cone NAT, a flood of hello replies that blocks the dispatcher, a failed handshake that ends the accept
  loop, a bind address of which only the port is used, and a generated peer id that depends on the bind address alone.

  \<^bold>\<open>Not modelled.\<close> Hashing, signing and certificates (calls into sha2, rcgen and rustls: arguments of the model), the TLS
  configuration built in \<open>QuicEndpoint::bind\<close> (its outcome is an argument) and how the TLS library uses the certificate adapters,
  the per-platform socket option of an interface, the texts of \<open>Debug\<close>, the examples and tests. The \<open>quinn\<close> library is a parameter: nothing is
  shown about handshakes, encryption or congestion; that the bytes of a stream arrive in order and complete is its contract.
\<close>

section \<open>Properties across components\<close>

text \<open>
  C40: a STUN outage is taken for a cone NAT: when no server answers in either round, the query
  still succeeds, and the node forgets that it is behind a symmetric NAT together with its port
  range and predicted ports, and switches to the socket model of a cone NAT.
\<close>

theorem stun_outage_forgets_symmetric:
  assumes "stun_answers any_query (fst envs) servers = {}" "stun_answers any_query (snd envs) servers = {}"
  shows "snd (stun_tick (stun_test_nat envs servers) n) =
    n\<lparr>pr_nat := (pr_nat n)\<lparr>ni_type := Cone, public_port_range := 0, stun_mapped_ports := []\<rparr>,
      pr_nat_model := Some Cone\<rparr>"
proof -
  have "stun_test_nat envs servers = Inr stun_empty_result"
    using stun_outage [OF assms] by (simp add: stun_test_nat_def any_query_def)
  then show ?thesis
    by (simp add: stun_tick_def upd_def apply_stun_result_to_nat_info_def stun_empty_result_def)
qed

definition offline_env :: stun_env where
  "offline_env = two_server_env\<lparr>se_resolve := (\<lambda>_. Inl (IoError Other []))\<rparr>"

definition symmetric_node :: node where
  "symmetric_node = (sample_node MostRecent)\<lparr>pr_nat := nat_info_default\<lparr>ni_type := Symmetric, stun_mapped_ports := [40000]\<rparr>\<rparr>"

theorem stun_outage_forgets_symmetric_witness:
  "ni_type (pr_nat symmetric_node) = Symmetric
   \<and> ni_type (pr_nat (snd (stun_tick (stun_test_nat (offline_env, offline_env) [''stun'']) symmetric_node))) = Cone"
  using stun_outage_forgets_symmetric [of "(offline_env, offline_env)" "[''stun'']" symmetric_node]
  by (simp add: stun_answers_def offline_env_def symmetric_node_def)

end
